(* ===== verification/Keel_Prelude.thy ===== *)
theory Keel_Prelude
  imports Main "HOL-Library.Word" "HOL-Library.Option_ord"
begin

text \<open>
  Shared vocabulary of the development: machine integers and time stamps, Rust's
  \<open>Result\<close> as a sum, the functions of Rust's standard library on strings, iterators and
  paths that the sources call, the outcome of a child process, and a file system whose
  failures are chosen by the environment. Strings are byte strings: a \<open>char\<close> is one
  byte, \<open>length\<close> is Rust's \<open>str::len\<close>. The white space and case functions are the
  ASCII part of Rust's Unicode ones; every string the sources compare against is ASCII.
\<close>

named_theorems keel_str \<open>rewrites and facts about the string functions\<close>
named_theorems keel_fs \<open>rewrites about the file system operations\<close>

section \<open>Integers, time, results\<close>

type_synonym u8 = "8 word"
type_synonym u16 = "16 word"
type_synonym u32 = "32 word"
type_synonym u64 = "64 word"

text \<open>
  A \<open>DateTime<Utc>\<close> is its distance from the Unix epoch in nanoseconds, the resolution
  of the clock the sources read with \<open>Utc::now()\<close>.
\<close>

type_synonym timestamp = int

definition seconds :: "int \<Rightarrow> timestamp" where
  "seconds n = n * 1000000000"

definition days :: "int \<Rightarrow> timestamp" where
  "days n = seconds (n * 86400)"

abbreviation Ok :: "'a \<Rightarrow> 'e + 'a" where
  "Ok \<equiv> Inr"

abbreviation Err :: "'e \<Rightarrow> 'e + 'a" where
  "Err \<equiv> Inl"

text \<open>The \<open>?\<close> operator, \<open>Result::map_err\<close>, \<open>Result::or_else\<close> and \<open>Result::ok\<close>.\<close>

fun and_then :: "'e + 'a \<Rightarrow> ('a \<Rightarrow> 'e + 'b) \<Rightarrow> 'e + 'b" where
  "and_then (Inl e) f = Inl e"
| "and_then (Inr a) f = f a"

fun map_err :: "('e \<Rightarrow> 'f) \<Rightarrow> 'e + 'a \<Rightarrow> 'f + 'a" where
  "map_err g (Inl e) = Inl (g e)"
| "map_err g (Inr a) = Inr a"

fun or_else :: "'e + 'a \<Rightarrow> 'e + 'a \<Rightarrow> 'e + 'a" where
  "or_else (Inl e) r = r"
| "or_else (Inr a) r = Inr a"

fun result_ok :: "'e + 'a \<Rightarrow> 'a option" where
  "result_ok (Inl e) = None"
| "result_ok (Inr a) = Some a"

text \<open>\<open>Option::ok_or\<close>, \<open>Option::unwrap_or_default\<close> on strings, and the pervasive
  "empty string means absent" conversion of the request handlers.\<close>

fun ok_or :: "'e \<Rightarrow> 'a option \<Rightarrow> 'e + 'a" where
  "ok_or e None = Inl e"
| "ok_or e (Some a) = Inr a"

fun unwrap_or :: "'a \<Rightarrow> 'a option \<Rightarrow> 'a" where
  "unwrap_or d None = d"
| "unwrap_or d (Some a) = a"

definition non_empty :: "string \<Rightarrow> string option" where
  "non_empty s = (if s = [] then None else Some s)"

section \<open>Strings\<close>

abbreviation nl :: string where
  "nl \<equiv> [CHR 0x0A]"

fun strip_prefix :: "string \<Rightarrow> string \<Rightarrow> string option" where
  "strip_prefix [] s = Some s"
| "strip_prefix (p # ps) [] = None"
| "strip_prefix (p # ps) (c # cs) = (if p = c then strip_prefix ps cs else None)"

definition starts_with :: "string \<Rightarrow> string \<Rightarrow> bool" where
  "starts_with s p = (strip_prefix p s \<noteq> None)"

fun contains :: "string \<Rightarrow> string \<Rightarrow> bool" where
  "contains [] p = (p = [])"
| "contains (c # cs) p = (starts_with (c # cs) p \<or> contains cs p)"

fun split_once :: "string \<Rightarrow> string \<Rightarrow> (string \<times> string) option" where
  "split_once d [] = (if d = [] then Some ([], []) else None)"
| "split_once d (c # cs) =
     (case strip_prefix d (c # cs) of
        Some r \<Rightarrow> Some ([], r)
      | None \<Rightarrow> map_option (\<lambda>(a, b). (c # a, b)) (split_once d cs))"

text \<open>\<open>str::split\<close> at a character; there is always at least one piece.\<close>

fun split_on :: "char \<Rightarrow> string \<Rightarrow> string list" where
  "split_on d [] = [[]]"
| "split_on d (c # cs) =
     (if c = d then [] # split_on d cs
      else (case split_on d cs of [] \<Rightarrow> [[c]] | x # xs \<Rightarrow> (c # x) # xs))"

definition is_ws :: "char \<Rightarrow> bool" where
  "is_ws c \<longleftrightarrow> c = CHR '' '' \<or> c = CHR 0x09 \<or> c = CHR 0x0A \<or> c = CHR 0x0B \<or>
     c = CHR 0x0C \<or> c = CHR 0x0D"

text \<open>\<open>str::split_whitespace\<close>: the first argument is the word being read, reversed.\<close>

fun split_ws_from :: "string \<Rightarrow> string \<Rightarrow> string list" where
  "split_ws_from w [] = (if w = [] then [] else [rev w])"
| "split_ws_from w (c # cs) =
     (if is_ws c then (if w = [] then split_ws_from [] cs else rev w # split_ws_from [] cs)
      else split_ws_from (c # w) cs)"

definition split_whitespace :: "string \<Rightarrow> string list" where
  "split_whitespace s = split_ws_from [] s"

definition trim :: "string \<Rightarrow> string" where
  "trim s = rev (dropWhile is_ws (rev (dropWhile is_ws s)))"

definition trim_end_matches :: "char \<Rightarrow> string \<Rightarrow> string" where
  "trim_end_matches c s = rev (dropWhile (\<lambda>x. x = c) (rev s))"

definition strip_cr :: "string \<Rightarrow> string" where
  "strip_cr s = (if s \<noteq> [] \<and> last s = CHR 0x0D then butlast s else s)"

text \<open>\<open>str::lines\<close>: a terminated line loses its line feed and one carriage return; the
  last line counts only when it is not empty.\<close>

definition lines :: "string \<Rightarrow> string list" where
  "lines s = (let ps = split_on CHR 0x0A s in
     List.map strip_cr (butlast ps) @ (if last ps = [] then [] else [last ps]))"

fun join :: "string \<Rightarrow> string list \<Rightarrow> string" where
  "join d [] = []"
| "join d [x] = x"
| "join d (x # y # zs) = x @ d @ join d (y # zs)"

definition to_lower_char :: "char \<Rightarrow> char" where
  "to_lower_char c =
     (let n = (of_char c :: nat) in if 65 \<le> n \<and> n \<le> 90 then char_of (n + 32) else c)"

definition to_lowercase :: "string \<Rightarrow> string" where
  "to_lowercase s = List.map to_lower_char s"

section \<open>Decimal numbers\<close>

definition is_digit :: "char \<Rightarrow> bool" where
  "is_digit c \<longleftrightarrow> (48::nat) \<le> of_char c \<and> of_char c \<le> (57::nat)"

definition digit_char :: "nat \<Rightarrow> char" where
  "digit_char n = ''0123456789'' ! n"

definition digit_val :: "char \<Rightarrow> nat" where
  "digit_val c = of_char c - 48"

fun show_nat :: "nat \<Rightarrow> string" where
  "show_nat n = (if n < 10 then [digit_char n] else show_nat (n div 10) @ [digit_char (n mod 10)])"

declare show_nat.simps [simp del]

definition digits_val :: "string \<Rightarrow> nat" where
  "digits_val s = foldl (\<lambda>n c. 10 * n + digit_val c) 0 s"

text \<open>\<open>str::parse\<close> to an unsigned integer: an optional plus sign, at least one digit,
  nothing else, and a value that fits.\<close>

definition parse_uint :: "nat \<Rightarrow> string \<Rightarrow> nat option" where
  "parse_uint bits s =
     (let ds = (case s of [] \<Rightarrow> [] | c # cs \<Rightarrow> if c = CHR ''+'' then cs else s) in
      if ds \<noteq> [] \<and> list_all is_digit ds \<and> digits_val ds < 2 ^ bits
      then Some (digits_val ds) else None)"

definition parse_u32 :: "string \<Rightarrow> u32 option" where
  "parse_u32 s = map_option of_nat (parse_uint 32 s)"

definition parse_u64 :: "string \<Rightarrow> u64 option" where
  "parse_u64 s = map_option of_nat (parse_uint 64 s)"

definition show_word :: "'w::len word \<Rightarrow> string" where
  "show_word w = show_nat (unat w)"

section \<open>Iterators\<close>

text \<open>\<open>Iterator::max_by_key\<close>: of several maximal elements the last one is returned.\<close>

definition max_by_key :: "('a \<Rightarrow> 'k::linorder) \<Rightarrow> 'a list \<Rightarrow> 'a option" where
  "max_by_key f xs =
     (case xs of [] \<Rightarrow> None
      | y # ys \<Rightarrow> Some (foldl (\<lambda>m z. if f z < f m then m else z) y ys))"

text \<open>
  A \<open>HashMap\<close> is a map. The order in which its entries are visited is not determined by
  the program, so every operation that iterates takes the order of the keys as an
  argument; \<open>iter_order\<close> says which orders are possible.
\<close>

definition iter_order :: "'k list \<Rightarrow> ('k \<rightharpoonup> 'v) \<Rightarrow> bool" where
  "iter_order ks m \<longleftrightarrow> distinct ks \<and> set ks = dom m"

definition hash_values :: "'k list \<Rightarrow> ('k \<rightharpoonup> 'v) \<Rightarrow> 'v list" where
  "hash_values ks m = List.map_filter m ks"

section \<open>Child processes\<close>

text \<open>
  What \<open>Command::output\<close> or \<open>Command::status\<close> returns: the process could not be started,
  or it ran to its end with a success flag, standard output and standard error.
\<close>

datatype cmd_outcome = SpawnErr string | Exited bool string string

fun cmd_success :: "cmd_outcome \<Rightarrow> bool" where
  "cmd_success (Exited ok out err) = ok"
| "cmd_success (SpawnErr e) = False"

section \<open>JSON documents\<close>

text \<open>
  \<open>serde_json\<close> for one type of values is a pair of functions, a parameter of the model.
  \<open>json_ok\<close> is the round trip its documentation promises, at one value.
\<close>

record 'a json =
  to_json :: "'a \<Rightarrow> string + string"
  from_json :: "string \<Rightarrow> string + 'a"

definition json_ok :: "'a json \<Rightarrow> 'a \<Rightarrow> bool" where
  "json_ok j x \<longleftrightarrow> (case to_json j x of Inl _ \<Rightarrow> False | Inr d \<Rightarrow> from_json j d = Inr x)"

section \<open>File system\<close>

text \<open>
  Files and directories by path, and what the operating system will refuse: reading a
  file, creating a directory, or writing a file. A refused write either never opened the
  file, or left some other contents in it.
\<close>

datatype write_fault = OpenFailed string | WriteFailed string string

record fsys =
  fs_files :: "string \<rightharpoonup> string"
  fs_dirs :: "string set"
  fs_read_err :: "string \<rightharpoonup> string"
  fs_write_err :: "string \<rightharpoonup> write_fault"
  fs_mkdir_err :: "string \<rightharpoonup> string"

definition enoent :: string where
  "enoent = ''No such file or directory (os error 2)''"

definition read_to_string :: "string \<Rightarrow> fsys \<Rightarrow> string + string" where
  "read_to_string p fs =
     (case fs_read_err fs p of
        Some e \<Rightarrow> Err e
      | None \<Rightarrow> ok_or enoent (fs_files fs p))"

definition fs_write :: "string \<Rightarrow> string \<Rightarrow> fsys \<Rightarrow> (string + unit) \<times> fsys" where
  "fs_write p c fs =
     (case fs_write_err fs p of
        None \<Rightarrow> (Ok (), fs\<lparr>fs_files := (fs_files fs)(p \<mapsto> c)\<rparr>)
      | Some (OpenFailed e) \<Rightarrow> (Err e, fs)
      | Some (WriteFailed e c') \<Rightarrow> (Err e, fs\<lparr>fs_files := (fs_files fs)(p \<mapsto> c')\<rparr>))"

definition path_prefixes :: "string \<Rightarrow> string list" where
  "path_prefixes p =
     List.map (\<lambda>i. take i p)
       (filter (\<lambda>i. i = length p \<or> p ! i = CHR ''/'') [1..<Suc (length p)])"

definition create_dir_all :: "string \<Rightarrow> fsys \<Rightarrow> (string + unit) \<times> fsys" where
  "create_dir_all p fs =
     (case fs_mkdir_err fs p of
        Some e \<Rightarrow> (Err e, fs)
      | None \<Rightarrow> (Ok (), fs\<lparr>fs_dirs := fs_dirs fs \<union> set (path_prefixes p)\<rparr>))"

definition path_exists :: "string \<Rightarrow> fsys \<Rightarrow> bool" where
  "path_exists p fs \<longleftrightarrow> fs_files fs p \<noteq> None \<or> p \<in> fs_dirs fs"

definition remove_file :: "string \<Rightarrow> fsys \<Rightarrow> fsys" where
  "remove_file p fs = fs\<lparr>fs_files := (fs_files fs)(p := None)\<rparr>"

definition fs_copy :: "string \<Rightarrow> string \<Rightarrow> fsys \<Rightarrow> (string + unit) \<times> fsys" where
  "fs_copy p q fs =
     (case read_to_string p fs of Inl e \<Rightarrow> (Err e, fs) | Inr c \<Rightarrow> fs_write q c fs)"

text \<open>\<open>Path::parent\<close> of a path without \<open>.\<close> components.\<close>

definition strip_slashes :: "string \<Rightarrow> string" where
  "strip_slashes p =
     (let q = trim_end_matches CHR ''/'' p in if q = [] \<and> p \<noteq> [] then ''/'' else q)"

definition path_parent :: "string \<Rightarrow> string option" where
  "path_parent p =
     (let q = strip_slashes p in
      if q = [] \<or> q = ''/'' then None
      else Some (strip_slashes (rev (dropWhile (\<lambda>c. c \<noteq> CHR ''/'') (rev q)))))"

text \<open>\<open>Path::extension\<close> of a file name: what follows its last dot, if that dot is not its first character.\<close>

definition file_name :: "string \<Rightarrow> string" where
  "file_name p = rev (takeWhile (\<lambda>c. c \<noteq> CHR ''/'') (rev p))"

definition path_extension :: "string \<Rightarrow> string option" where
  "path_extension p =
     (let f = file_name p; e = takeWhile (\<lambda>c. c \<noteq> CHR ''.'') (rev f) in
      if length e + 1 < length f then Some (rev e) else None)"

section \<open>Lemmas on results and strings\<close>

lemma and_then_Ok [simp]: "and_then r Inr = r"
  by (cases r) auto

lemma and_then_eq_Ok:
  "and_then r f = Inr b \<longleftrightarrow> (\<exists>a. r = Inr a \<and> f a = Inr b)"
  by (cases r) auto

lemma map_err_eq_Ok [simp]: "map_err g r = Inr a \<longleftrightarrow> r = Inr a"
  by (cases r) auto

lemma map_err_eq_Err: "map_err g r = Inl e \<longleftrightarrow> (\<exists>e'. r = Inl e' \<and> e = g e')"
  by (cases r) auto

lemma non_empty_simps [simp]:
  "non_empty [] = None" "non_empty (c # cs) = Some (c # cs)"
  by (simp_all add: non_empty_def)

lemma unwrap_or_non_empty [simp]: "unwrap_or [] (non_empty s) = s"
  by (simp add: non_empty_def)

lemma strip_prefix_eq_Some [keel_str]: "strip_prefix p s = Some r \<longleftrightarrow> s = p @ r"
  by (induction p s rule: strip_prefix.induct) auto

lemma starts_with_iff [keel_str]: "starts_with s p \<longleftrightarrow> (\<exists>r. s = p @ r)"
  by (auto simp: starts_with_def strip_prefix_eq_Some)

lemma contains_Cons_iff:
  "(\<exists>a b. c # s = a @ p @ b) \<longleftrightarrow> (\<exists>r. c # s = p @ r) \<or> (\<exists>a b. s = a @ p @ b)"
  by (metis append_Cons append_eq_Cons_conv append_Nil)

lemma contains_iff [keel_str]: "contains s p \<longleftrightarrow> (\<exists>a b. s = a @ p @ b)"
proof (induction s)
  case (Cons c s)
  then show ?case by (simp only: contains.simps starts_with_iff contains_Cons_iff)
qed simp

lemma split_once_eq_Some:
  "split_once d s = Some (a, b) \<Longrightarrow> s = a @ d @ b"
  by (induction d s arbitrary: a rule: split_once.induct)
    (auto simp: strip_prefix_eq_Some split: option.splits if_splits)

lemma split_once_None [keel_str]: "split_once d s = None \<longleftrightarrow> \<not> contains s d"
proof (induction s)
  case (Cons c s)
  then show ?case
    by (auto simp: starts_with_def split: option.splits)
qed auto

lemma split_on_not_Nil [simp]: "split_on d s \<noteq> []"
  by (cases s) (auto split: list.splits)

lemma join_split_on [keel_str]: "join [d] (split_on d s) = s"
proof (induction s)
  case (Cons c s)
  obtain x xs where x: "split_on d s = x # xs"
    by (cases "split_on d s") auto
  then show ?case using Cons.IH by (cases xs) auto
qed simp

lemma split_on_append: "split_on d (xs @ d # ys) = split_on d xs @ split_on d ys"
  by (induction d xs rule: split_on.induct) (auto simp: neq_Nil_conv split: list.splits)

lemma length_split_on [keel_str]: "length (split_on d s) = Suc (count_list s d)"
proof (induction s)
  case (Cons c s)
  obtain x xs where "split_on d s = x # xs"
    by (cases "split_on d s") auto
  then show ?case using Cons.IH by auto
qed simp

lemma split_ws_from_words:
  "\<forall>c\<in>set u. \<not> is_ws c \<Longrightarrow> \<forall>w\<in>set (split_ws_from u s). w \<noteq> [] \<and> (\<forall>c\<in>set w. \<not> is_ws c)"
proof (induction s arbitrary: u)
  case (Cons c s)
  show ?case
  proof (cases "is_ws c")
    case True
    have "\<forall>w\<in>set (split_ws_from [] s). w \<noteq> [] \<and> (\<forall>c\<in>set w. \<not> is_ws c)"
      by (rule Cons.IH) simp
    with True Cons.prems show ?thesis by simp
  next
    case False
    have "\<forall>w\<in>set (split_ws_from (c # u) s). w \<noteq> [] \<and> (\<forall>c\<in>set w. \<not> is_ws c)"
      by (rule Cons.IH) (use False Cons.prems in simp)
    with False show ?thesis by simp
  qed
qed simp

lemma split_whitespace_words [keel_str]:
  "w \<in> set (split_whitespace s) \<Longrightarrow> w \<noteq> [] \<and> (\<forall>c\<in>set w. \<not> is_ws c)"
  using split_ws_from_words [of "[]" s] by (simp add: split_whitespace_def)

section \<open>Lemmas on decimal numbers\<close>

lemma less_10_cases:
  fixes n :: nat
  assumes "n < 10"
  shows "n = 0 \<or> n = 1 \<or> n = 2 \<or> n = 3 \<or> n = 4 \<or> n = 5 \<or> n = 6 \<or> n = 7 \<or> n = 8 \<or> n = 9"
  using assms by arith

lemma of_char_digit_char: "n < 10 \<Longrightarrow> of_char (digit_char n) = 48 + n"
  using less_10_cases [of n] by (auto simp: digit_char_def)

lemma is_digit_digit_char [simp]: "n < 10 \<Longrightarrow> is_digit (digit_char n)"
  by (simp add: is_digit_def of_char_digit_char)

lemma digit_val_digit_char [simp]: "n < 10 \<Longrightarrow> digit_val (digit_char n) = n"
  by (simp add: digit_val_def of_char_digit_char)

lemma digits_val_snoc [simp]: "digits_val (s @ [c]) = 10 * digits_val s + digit_val c"
  by (simp add: digits_val_def)

lemma show_nat_not_Nil [simp]: "show_nat n \<noteq> []"
  by (subst show_nat.simps) simp

lemma show_nat_digits: "list_all is_digit (show_nat n)"
proof (induction n rule: show_nat.induct)
  case (1 n)
  then show ?case by (subst show_nat.simps) auto
qed

lemma digits_val_show_nat [simp]: "digits_val (show_nat n) = n"
proof (induction n rule: show_nat.induct)
  case (1 n)
  then show ?case
    by (subst show_nat.simps) (auto simp: digits_val_def [of "[_]"])
qed

lemma plus_not_digit: "\<not> is_digit CHR ''+''"
  by (simp add: is_digit_def)

lemma parse_uint_show_nat: "n < 2 ^ bits \<Longrightarrow> parse_uint bits (show_nat n) = Some n"
proof -
  assume n: "n < 2 ^ bits"
  obtain c cs where s: "show_nat n = c # cs"
    by (cases "show_nat n") auto
  with show_nat_digits [of n] have "c \<noteq> CHR ''+''"
    using plus_not_digit by auto
  with n s show ?thesis
    using show_nat_digits [of n] digits_val_show_nat [of n] by (simp add: parse_uint_def)
qed

lemma parse_uint_bound: "parse_uint bits s = Some n \<Longrightarrow> n < 2 ^ bits"
  by (auto simp: parse_uint_def Let_def split: if_splits)

lemma parse_u32_show_word [simp]: "parse_u32 (show_word w) = Some w"
  using unsigned_less [where 'a = nat and w = w] by (simp add: parse_u32_def show_word_def parse_uint_show_nat)

lemma parse_u64_show_word [simp]: "parse_u64 (show_word w) = Some w"
  using unsigned_less [where 'a = nat and w = w] by (simp add: parse_u64_def show_word_def parse_uint_show_nat)

lemma show_nat_inject [simp]: "show_nat m = show_nat n \<longleftrightarrow> m = n"
  by (metis digits_val_show_nat)

section \<open>Lemmas on iterators\<close>

lemma foldl_max_in:
  "foldl (\<lambda>m z. if f z < f m then m else z) y ys \<in> insert y (set ys)"
proof (induction ys arbitrary: y)
  case (Cons x xs)
  then show ?case using Cons.IH [of "if f x < f y then y else x"] by auto
qed simp

lemma foldl_max_ge:
  fixes f :: "'a \<Rightarrow> 'k::linorder"
  shows "z \<in> insert y (set ys) \<Longrightarrow> f z \<le> f (foldl (\<lambda>m z. if f z < f m then m else z) y ys)"
proof (induction ys arbitrary: y z)
  case (Cons x xs)
  let ?m = "if f x < f y then y else x"
  have "f z \<le> f ?m \<or> z \<in> set xs"
    using Cons.prems by auto
  then show ?case
    using Cons.IH [of ?m ?m] Cons.IH [of z ?m] by (auto intro: order_trans)
qed simp

lemma max_by_key_eq_None [simp]: "max_by_key f xs = None \<longleftrightarrow> xs = []"
  by (simp add: max_by_key_def split: list.splits)

lemma max_by_key_Nil [simp]: "max_by_key f [] = None"
  by simp

lemma max_by_key_Some:
  assumes "max_by_key f xs = Some x"
  shows "x \<in> set xs \<and> (\<forall>y\<in>set xs. f y \<le> f x)"
proof (cases xs)
  case (Cons y ys)
  with assms have "x = foldl (\<lambda>m z. if f z < f m then m else z) y ys"
    by (simp add: max_by_key_def)
  with Cons show ?thesis
    using foldl_max_in [of f y ys] foldl_max_ge [of _ y ys f] by auto
qed (use assms in \<open>simp add: max_by_key_def\<close>)

lemma map_filter_set: "set (List.map_filter f xs) = {y. \<exists>x\<in>set xs. f x = Some y}"
  by (induction xs) (auto simp: List.map_filter_simps split: option.splits)

lemma hash_values_set: "iter_order ks m \<Longrightarrow> set (hash_values ks m) = ran m"
  by (auto simp: hash_values_def iter_order_def map_filter_set ran_def dom_def)

lemma hash_values_length: "iter_order ks m \<Longrightarrow> length (hash_values ks m) = card (dom m)"
proof -
  assume o: "iter_order ks m"
  have "set ks \<subseteq> dom m \<Longrightarrow> length (List.map_filter m ks) = length ks" for ks
    by (induction ks) (auto simp: List.map_filter_simps)
  with o show ?thesis
    using distinct_card [of ks] by (simp add: iter_order_def hash_values_def)
qed

section \<open>Lemmas on the file system\<close>

lemma fs_write_result [keel_fs]:
  "fst (fs_write p c fs) = Ok () \<longleftrightarrow> fs_write_err fs p = None"
  by (simp add: fs_write_def split: option.splits write_fault.splits)

lemma fs_write_files_other [keel_fs]:
  "q \<noteq> p \<Longrightarrow> fs_files (snd (fs_write p c fs)) q = fs_files fs q"
  by (simp add: fs_write_def split: option.splits write_fault.splits)

lemma fs_write_frame [simp]:
  "fs_dirs (snd (fs_write p c fs)) = fs_dirs fs"
  "fs_read_err (snd (fs_write p c fs)) = fs_read_err fs"
  "fs_write_err (snd (fs_write p c fs)) = fs_write_err fs"
  "fs_mkdir_err (snd (fs_write p c fs)) = fs_mkdir_err fs"
  by (simp_all add: fs_write_def split: option.splits write_fault.splits)

lemma fs_write_ok [keel_fs]:
  "fs_write p c fs = (Ok u, fs') \<longleftrightarrow>
     fs_write_err fs p = None \<and> fs' = fs\<lparr>fs_files := (fs_files fs)(p \<mapsto> c)\<rparr>"
  by (auto simp: fs_write_def split: option.splits write_fault.splits)

lemma create_dir_all_frame [simp]:
  "fs_files (snd (create_dir_all p fs)) = fs_files fs"
  "fs_read_err (snd (create_dir_all p fs)) = fs_read_err fs"
  "fs_write_err (snd (create_dir_all p fs)) = fs_write_err fs"
  "fs_mkdir_err (snd (create_dir_all p fs)) = fs_mkdir_err fs"
  by (simp_all add: create_dir_all_def split: option.splits)

lemma read_to_string_write:
  "fs_write p c fs = (Ok u, fs') \<Longrightarrow> fs_read_err fs p = None \<Longrightarrow> read_to_string p fs' = Ok c"
  by (auto simp: fs_write_ok read_to_string_def)

lemma read_to_string_cong:
  "fs_files fs p = fs_files fs' p \<Longrightarrow> fs_read_err fs p = fs_read_err fs' p \<Longrightarrow>
     read_to_string p fs = read_to_string p fs'"
  by (simp add: read_to_string_def split: option.splits)

lemma prefix_self: "p \<noteq> [] \<Longrightarrow> p \<in> set (path_prefixes p)"
  by (force simp: path_prefixes_def Suc_le_eq)

lemma join_contains: "x \<in> set xs \<Longrightarrow> \<exists>a b. join d xs = a @ x @ b"
proof (induction d xs rule: join.induct)
  case (3 d x1 y zs)
  show ?case
  proof (cases "x = x1")
    case True
    then show ?thesis by (intro exI [of _ "[]"] exI [of _ "d @ join d (y # zs)"]) simp
  next
    case False
    then obtain a b where "join d (y # zs) = a @ x @ b" using 3 by auto
    then show ?thesis by (intro exI [of _ "x1 @ d @ a"] exI [of _ b]) simp
  qed
next
  case (2 d x1)
  then show ?case by (intro exI [of _ "[]"]) simp
qed simp

lemma fs_write_frameD:
  "fs_write p c fs = (r, fs') \<Longrightarrow>
     fs_dirs fs' = fs_dirs fs \<and> fs_read_err fs' = fs_read_err fs \<and>
     fs_write_err fs' = fs_write_err fs \<and> fs_mkdir_err fs' = fs_mkdir_err fs \<and>
     (\<forall>q. q \<noteq> p \<longrightarrow> fs_files fs' q = fs_files fs q)"
  using fs_write_frame [of p c fs] fs_write_files_other [of _ p c fs] by simp

lemma create_dir_all_frameD:
  "create_dir_all p fs = (r, fs') \<Longrightarrow>
     fs_files fs' = fs_files fs \<and> fs_read_err fs' = fs_read_err fs \<and>
     fs_write_err fs' = fs_write_err fs \<and> fs_mkdir_err fs' = fs_mkdir_err fs"
  using create_dir_all_frame [of p fs] by simp

end
