(* ===== verification/Scheduler.thy ===== *)
theory Scheduler
  imports Keel_Prelude
begin

text \<open>
  The update scheduler (\<open>cmd/keel-agent/src/update_scheduler.rs\<close>): the table of update
  schedules, kept in memory behind a lock and written to disk as one JSON document after
  every change. \<open>js\<close> is \<open>serde_json\<close> for the table, \<open>now\<close> the value of \<open>Utc::now()\<close>
  in the call, \<open>uuid\<close> the fresh UUID, \<open>ks\<close> the order in which the \<open>HashMap\<close> is visited.
  An operation returns its result and the new memory and file system.
\<close>

section \<open>Data\<close>

datatype schedule_status = Pending | Running | Completed | Failed | Cancelled | RolledBack

record update_schedule =
  sched_id :: string
  source_url :: string
  expected_sha256 :: "string option"
  scheduled_at :: "timestamp option"
  maintenance_window_secs :: "u32 option"
  enable_auto_rollback :: bool
  pre_update_hook :: "string option"
  post_update_hook :: "string option"
  health_check_timeout_secs :: "u32 option"
  is_delta :: bool
  fallback_to_full :: bool
  full_image_url :: "string option"
  rollback_triggered :: bool
  rollback_reason :: "string option"
  sched_status :: schedule_status
  created_at :: timestamp
  started_at :: "timestamp option"
  completed_at :: "timestamp option"
  error_message :: "string option"

fun schedule_status_str :: "schedule_status \<Rightarrow> string" where
  "schedule_status_str Pending = ''pending''"
| "schedule_status_str Running = ''running''"
| "schedule_status_str Completed = ''completed''"
| "schedule_status_str Failed = ''failed''"
| "schedule_status_str Cancelled = ''cancelled''"
| "schedule_status_str RolledBack = ''rolled_back''"

type_synonym schedule_map = "string \<rightharpoonup> update_schedule"

record scheduler =
  schedules :: schedule_map
  storage_path :: string

section \<open>Operations\<close>

definition load_schedules :: "schedule_map json \<Rightarrow> string \<Rightarrow> fsys \<Rightarrow> schedule_map" where
  "load_schedules js path fs =
     (case read_to_string path fs of
        Inr json \<Rightarrow>
          (case from_json js json of Inr m \<Rightarrow> m | Inl e \<Rightarrow> Map.empty)
      | Inl e \<Rightarrow> Map.empty)"

definition new_scheduler :: "schedule_map json \<Rightarrow> string \<Rightarrow> fsys \<Rightarrow> scheduler" where
  "new_scheduler js path fs = \<lparr>schedules = load_schedules js path fs, storage_path = path\<rparr>"

definition persist_schedules ::
  "schedule_map json \<Rightarrow> scheduler \<Rightarrow> fsys \<Rightarrow> (string + unit) \<times> fsys" where
  "persist_schedules js sch fs =
     (case to_json js (schedules sch) of
        Inl e \<Rightarrow> (Err (''Failed to serialize schedules: '' @ e), fs)
      | Inr json \<Rightarrow>
          (let fs1 = (case path_parent (storage_path sch) of
                        None \<Rightarrow> fs
                      | Some parent \<Rightarrow> snd (create_dir_all parent fs))
           in case fs_write (storage_path sch) json fs1 of
                (Inl e, fs2) \<Rightarrow> (Err (''Failed to write schedules: '' @ e), fs2)
              | (Inr _, fs2) \<Rightarrow> (Ok (), fs2)))"

text \<open>\<open>self.persist_schedules().await?; Ok(v)\<close> at the end of an operation.\<close>

definition persist_then ::
  "schedule_map json \<Rightarrow> 'a \<Rightarrow> scheduler \<Rightarrow> fsys \<Rightarrow> (string + 'a) \<times> scheduler \<times> fsys" where
  "persist_then js v sch fs =
     (case persist_schedules js sch fs of
        (Inl e, fs') \<Rightarrow> (Err e, sch, fs')
      | (Inr _, fs') \<Rightarrow> (Ok v, sch, fs'))"

definition make_schedule ::
  "timestamp \<Rightarrow> string \<Rightarrow>
   string \<Rightarrow> string option \<Rightarrow> timestamp option \<Rightarrow> u32 option \<Rightarrow> bool \<Rightarrow> u32 option \<Rightarrow>
   string option \<Rightarrow> string option \<Rightarrow> bool \<Rightarrow> bool \<Rightarrow> string option \<Rightarrow> update_schedule" where
  "make_schedule now uuid url sha at window auto timeout pre post delta fallback full =
     \<lparr>sched_id = uuid, source_url = url, expected_sha256 = sha, scheduled_at = at,
      maintenance_window_secs = window, enable_auto_rollback = auto,
      pre_update_hook = pre, post_update_hook = post, health_check_timeout_secs = timeout,
      is_delta = delta, fallback_to_full = fallback, full_image_url = full,
      rollback_triggered = False, rollback_reason = None, sched_status = Pending,
      created_at = now, started_at = None, completed_at = None, error_message = None\<rparr>"

definition schedule_update ::
  "schedule_map json \<Rightarrow> timestamp \<Rightarrow> string \<Rightarrow>
   string \<Rightarrow> string option \<Rightarrow> timestamp option \<Rightarrow> u32 option \<Rightarrow> bool \<Rightarrow> u32 option \<Rightarrow>
   string option \<Rightarrow> string option \<Rightarrow> bool \<Rightarrow> bool \<Rightarrow> string option \<Rightarrow>
   scheduler \<Rightarrow> fsys \<Rightarrow> (string + update_schedule) \<times> scheduler \<times> fsys" where
  "schedule_update js now uuid url sha at window auto timeout pre post delta fallback full sch fs =
     (let schedule =
        make_schedule now uuid url sha at window auto timeout pre post delta fallback full
      in persist_then js schedule
           (sch\<lparr>schedules := (schedules sch)(uuid \<mapsto> schedule)\<rparr>) fs)"

definition get_schedules :: "string list \<Rightarrow> scheduler \<Rightarrow> update_schedule list" where
  "get_schedules ks sch = hash_values ks (schedules sch)"

definition get_schedule :: "string \<Rightarrow> scheduler \<Rightarrow> update_schedule option" where
  "get_schedule i sch = schedules sch i"

definition is_active :: "update_schedule \<Rightarrow> bool" where
  "is_active s \<longleftrightarrow> sched_status s = Completed \<or> sched_status s = Running"

definition get_latest_active_schedule :: "string list \<Rightarrow> scheduler \<Rightarrow> update_schedule option" where
  "get_latest_active_schedule ks sch =
     max_by_key started_at (filter is_active (hash_values ks (schedules sch)))"

definition mark_rolled_back :: "timestamp \<Rightarrow> string \<Rightarrow> update_schedule \<Rightarrow> update_schedule" where
  "mark_rolled_back now reason s =
     s\<lparr>rollback_triggered := True, rollback_reason := Some reason,
       sched_status := RolledBack, completed_at := Some now\<rparr>"

definition register_rollback ::
  "schedule_map json \<Rightarrow> string list \<Rightarrow> timestamp \<Rightarrow> string \<Rightarrow> scheduler \<Rightarrow> fsys \<Rightarrow>
   (string + unit) \<times> scheduler \<times> fsys" where
  "register_rollback js ks now reason sch fs =
     (let target_id = map_option sched_id
            (max_by_key started_at (filter is_active (hash_values ks (schedules sch))))
      in case target_id of
           Some i \<Rightarrow>
             persist_then js ()
               (case schedules sch i of
                  Some s \<Rightarrow> sch\<lparr>schedules := (schedules sch)(i \<mapsto> mark_rolled_back now reason s)\<rparr>
                | None \<Rightarrow> sch) fs
         | None \<Rightarrow> (Ok (), sch, fs))"

definition is_within_maintenance_window :: "timestamp \<Rightarrow> update_schedule \<Rightarrow> bool" where
  "is_within_maintenance_window now s =
     (case scheduled_at s of
        None \<Rightarrow> True
      | Some at \<Rightarrow>
          (case maintenance_window_secs s of
             None \<Rightarrow> True
           | Some window_secs \<Rightarrow>
               if window_secs = 0 then True
               else now \<le> at + seconds (uint window_secs)))"

definition cancel_schedule ::
  "schedule_map json \<Rightarrow> string \<Rightarrow> scheduler \<Rightarrow> fsys \<Rightarrow> (string + unit) \<times> scheduler \<times> fsys" where
  "cancel_schedule js i sch fs =
     (case schedules sch i of
        Some s \<Rightarrow>
          if sched_status s = Pending
          then persist_then js ()
                 (sch\<lparr>schedules := (schedules sch)(i \<mapsto> s\<lparr>sched_status := Cancelled\<rparr>)\<rparr>) fs
          else (Err (''Cannot cancel schedule in status: '' @ schedule_status_str (sched_status s)),
                sch, fs)
      | None \<Rightarrow> (Err (''Schedule not found: '' @ i), sch, fs))"

definition set_status ::
  "timestamp \<Rightarrow> schedule_status \<Rightarrow> string option \<Rightarrow> update_schedule \<Rightarrow> update_schedule" where
  "set_status now st err s =
     (let s1 = s\<lparr>sched_status := st, error_message := err\<rparr> in
      case st of
        Running \<Rightarrow> s1\<lparr>started_at := Some now\<rparr>
      | Completed \<Rightarrow> s1\<lparr>completed_at := Some now\<rparr>
      | Failed \<Rightarrow> s1\<lparr>completed_at := Some now\<rparr>
      | Cancelled \<Rightarrow> s1\<lparr>completed_at := Some now\<rparr>
      | _ \<Rightarrow> s1)"

definition update_status ::
  "schedule_map json \<Rightarrow> timestamp \<Rightarrow> string \<Rightarrow> schedule_status \<Rightarrow> string option \<Rightarrow>
   scheduler \<Rightarrow> fsys \<Rightarrow> (string + unit) \<times> scheduler \<times> fsys" where
  "update_status js now i st err sch fs =
     (case schedules sch i of
        Some s \<Rightarrow>
          persist_then js ()
            (sch\<lparr>schedules := (schedules sch)(i \<mapsto> set_status now st err s)\<rparr>) fs
      | None \<Rightarrow> (Err (''Schedule not found: '' @ i), sch, fs))"

definition is_due :: "timestamp \<Rightarrow> update_schedule \<Rightarrow> bool" where
  "is_due now s \<longleftrightarrow> sched_status s = Pending \<and>
     (case scheduled_at s of None \<Rightarrow> False | Some at \<Rightarrow> at \<le> now)"

definition get_due_schedules :: "timestamp \<Rightarrow> string list \<Rightarrow> scheduler \<Rightarrow> update_schedule list" where
  "get_due_schedules now ks sch = filter (is_due now) (hash_values ks (schedules sch))"

definition trigger_rollback ::
  "schedule_map json \<Rightarrow> timestamp \<Rightarrow> string \<Rightarrow> string \<Rightarrow> scheduler \<Rightarrow> fsys \<Rightarrow>
   (string + unit) \<times> scheduler \<times> fsys" where
  "trigger_rollback js now i reason sch fs =
     (case schedules sch i of
        Some s \<Rightarrow>
          persist_then js ()
            (sch\<lparr>schedules := (schedules sch)(i \<mapsto> mark_rolled_back now reason s)\<rparr>) fs
      | None \<Rightarrow> (Err (''Schedule not found: '' @ i), sch, fs))"

section \<open>Well-formed tables\<close>

text \<open>
  Every entry is stored under its own identifier, and a schedule marked as rolled back
  carries a reason.
\<close>

definition wf_schedule :: "update_schedule \<Rightarrow> bool" where
  "wf_schedule s \<longleftrightarrow> (rollback_triggered s \<longrightarrow> rollback_reason s \<noteq> None)"

definition wf_table :: "schedule_map \<Rightarrow> bool" where
  "wf_table m \<longleftrightarrow> finite (dom m) \<and> (\<forall>i s. m i = Some s \<longrightarrow> sched_id s = i \<and> wf_schedule s)"

lemma wf_table_upd:
  "wf_table m \<Longrightarrow> sched_id s = i \<Longrightarrow> wf_schedule s \<Longrightarrow> wf_table (m(i \<mapsto> s))"
  by (auto simp: wf_table_def)

lemma wf_table_lookup: "wf_table m \<Longrightarrow> m i = Some s \<Longrightarrow> sched_id s = i \<and> wf_schedule s"
  by (simp add: wf_table_def)

lemma mark_rolled_back_simps [simp]:
  "sched_id (mark_rolled_back now reason s) = sched_id s"
  "wf_schedule (mark_rolled_back now reason s)"
  "sched_status (mark_rolled_back now reason s) = RolledBack"
  "rollback_triggered (mark_rolled_back now reason s)"
  "rollback_reason (mark_rolled_back now reason s) = Some reason"
  "started_at (mark_rolled_back now reason s) = started_at s"
  "enable_auto_rollback (mark_rolled_back now reason s) = enable_auto_rollback s"
  by (simp_all add: mark_rolled_back_def wf_schedule_def)

lemma set_status_simps [simp]:
  "sched_id (set_status now st err s) = sched_id s"
  "wf_schedule (set_status now st err s) = wf_schedule s"
  "sched_status (set_status now st err s) = st"
  "error_message (set_status now st err s) = err"
  "rollback_triggered (set_status now st err s) = rollback_triggered s"
  "scheduled_at (set_status now st err s) = scheduled_at s"
  "enable_auto_rollback (set_status now st err s) = enable_auto_rollback s"
  by (cases st; simp add: set_status_def wf_schedule_def)+

section \<open>What every mutating operation promises\<close>

lemma persist_then_mem [simp]: "fst (snd (persist_then js v sch fs)) = sch"
  by (simp add: persist_then_def split: prod.splits sum.splits)

lemma persist_then_eq:
  "persist_then js v sch fs = (r, sch', fs') \<longleftrightarrow>
     sch' = sch \<and> fs' = snd (persist_schedules js sch fs) \<and>
     r = (case fst (persist_schedules js sch fs) of Inl e \<Rightarrow> Err e | Inr _ \<Rightarrow> Ok v)"
  by (auto simp: persist_then_def split: prod.splits sum.splits)

lemma persist_reload:
  assumes "persist_schedules js sch fs = (Ok u, fs')"
    and "json_ok js (schedules sch)" and "fs_read_err fs (storage_path sch) = None"
  shows "load_schedules js (storage_path sch) fs' = schedules sch"
proof -
  obtain d where d: "to_json js (schedules sch) = Ok d" "from_json js d = Ok (schedules sch)"
    using assms(2) by (auto simp: json_ok_def split: sum.splits)
  with assms(1,3) show ?thesis
    by (auto simp: persist_schedules_def load_schedules_def read_to_string_def fs_write_ok Let_def
        split: option.splits prod.splits sum.splits)
qed

lemma persist_fails_or_reloads:
  "fst (persist_schedules js sch fs) = Ok () \<or> (\<exists>e. fst (persist_schedules js sch fs) = Err e)"
  by (cases "fst (persist_schedules js sch fs)") auto

text \<open>
  The contract shared by the operations that change the table. \<open>keys\<close> bounds the entries
  an operation may change, \<open>edit\<close> is what it does to one entry. A client may rely on: no
  other entry changes, the storage path is kept, a well-formed table stays well-formed,
  and a result that is not an error has reached the disk.
\<close>

locale table_op =
  fixes op :: "scheduler \<Rightarrow> fsys \<Rightarrow> (string + 'r) \<times> scheduler \<times> fsys"
    and js :: "schedule_map json"
    and key :: "scheduler \<Rightarrow> string option"
    and edit :: "update_schedule option \<Rightarrow> update_schedule option"
  assumes op_unkeyed: "key sch = None \<Longrightarrow> fst (snd (op sch fs)) = sch \<and> snd (snd (op sch fs)) = fs"
    and op_keyed: "key sch = Some i \<Longrightarrow> \<exists>v. op sch fs =
          persist_then js v (sch\<lparr>schedules := (schedules sch)(i := edit (schedules sch i))\<rparr>) fs"
    and edit_id: "wf_table (schedules sch) \<Longrightarrow> key sch = Some i \<Longrightarrow>
          edit (schedules sch i) = Some s \<Longrightarrow> sched_id s = i \<and> wf_schedule s"
begin

lemma op_frame: "key sch \<noteq> Some j \<Longrightarrow> schedules (fst (snd (op sch fs))) j = schedules sch j"
proof (cases "key sch")
  case None
  then show ?thesis using op_unkeyed [of sch fs] by simp
next
  case (Some i)
  assume "key sch \<noteq> Some j"
  with Some op_keyed [OF Some, of fs] show ?thesis by auto
qed

lemma op_path: "storage_path (fst (snd (op sch fs))) = storage_path sch"
  using op_unkeyed [of sch fs] op_keyed [of sch _ fs] by (cases "key sch") auto

lemma op_wf: "wf_table (schedules sch) \<Longrightarrow> wf_table (schedules (fst (snd (op sch fs))))"
proof (cases "key sch")
  case None
  assume "wf_table (schedules sch)"
  with None show ?thesis using op_unkeyed [of sch fs] by simp
next
  case (Some i)
  assume wf: "wf_table (schedules sch)"
  have "wf_table ((schedules sch)(i := edit (schedules sch i)))"
    using wf edit_id [OF wf Some] by (auto simp: wf_table_def)
  with Some op_keyed [OF Some, of fs] show ?thesis by auto
qed

lemma op_durable:
  assumes "op sch fs = (Ok r, sch', fs')" and "key sch = Some i"
    and "json_ok js (schedules sch')" and "fs_read_err fs (storage_path sch) = None"
  shows "new_scheduler js (storage_path sch) fs' = sch'"
proof -
  let ?s = "sch\<lparr>schedules := (schedules sch)(i := edit (schedules sch i))\<rparr>"
  obtain v where "op sch fs = persist_then js v ?s fs"
    using op_keyed [OF assms(2)] by blast
  with assms(1) have s: "sch' = ?s" and f: "fs' = snd (persist_schedules js ?s fs)"
    and "Ok r = (case fst (persist_schedules js ?s fs) of Inl e \<Rightarrow> Err e | Inr _ \<Rightarrow> Ok v)"
    by (auto simp: persist_then_eq)
  then have "persist_schedules js ?s fs = (Ok (), fs')"
    by (cases "persist_schedules js ?s fs") (auto split: sum.splits)
  from persist_reload [OF this] assms(3,4) s show ?thesis
    by (simp add: new_scheduler_def)
qed

end

section \<open>The operations meet the contract\<close>

definition cancel_key :: "string \<Rightarrow> scheduler \<Rightarrow> string option" where
  "cancel_key i sch =
     (case schedules sch i of None \<Rightarrow> None | Some s \<Rightarrow> if sched_status s = Pending then Some i else None)"

definition present_key :: "string \<Rightarrow> scheduler \<Rightarrow> string option" where
  "present_key i sch = (if schedules sch i = None then None else Some i)"

definition latest_active_key :: "string list \<Rightarrow> scheduler \<Rightarrow> string option" where
  "latest_active_key ks sch = map_option sched_id (get_latest_active_schedule ks sch)"

interpretation create_op: table_op
  "schedule_update js now uuid url sha at window auto timeout pre post delta fallback full" js
  "\<lambda>_. Some uuid"
  "\<lambda>_. Some (make_schedule now uuid url sha at window auto timeout pre post delta fallback full)"
  for js now uuid url sha at window auto timeout pre post delta fallback full
  by unfold_locales (auto simp: schedule_update_def Let_def make_schedule_def wf_schedule_def)

interpretation cancel_op: table_op
  "cancel_schedule js i" js "cancel_key i" "map_option (\<lambda>s. s\<lparr>sched_status := Cancelled\<rparr>)"
  for js i
  by unfold_locales
    (auto simp: cancel_schedule_def cancel_key_def wf_table_def wf_schedule_def
      split: option.splits if_splits)

interpretation status_op: table_op
  "update_status js now i st err" js "present_key i" "map_option (set_status now st err)"
  for js now i st err
  by unfold_locales
    (auto simp: update_status_def present_key_def wf_table_def split: option.splits if_splits)

interpretation trigger_op: table_op
  "trigger_rollback js now i reason" js "present_key i" "map_option (mark_rolled_back now reason)"
  for js now i reason
  by unfold_locales
    (auto simp: trigger_rollback_def present_key_def wf_table_def split: option.splits if_splits)

lemma register_rollback_alt:
  "register_rollback js ks now reason sch fs =
     (case latest_active_key ks sch of
        Some i \<Rightarrow> persist_then js () (sch\<lparr>schedules := (schedules sch)
          (i := map_option (mark_rolled_back now reason) (schedules sch i))\<rparr>) fs
      | None \<Rightarrow> (Ok (), sch, fs))"
proof (cases "latest_active_key ks sch")
  case None
  then show ?thesis
    unfolding register_rollback_def Let_def
    by (simp only: latest_active_key_def [unfolded get_latest_active_schedule_def, symmetric]) simp
next
  case (Some i)
  have "schedules sch i = None \<Longrightarrow> (schedules sch)(i := None) = schedules sch"
    by (rule fun_upd_idem)
  with Some show ?thesis
    unfolding register_rollback_def Let_def
    by (simp only: latest_active_key_def [unfolded get_latest_active_schedule_def, symmetric])
      (auto split: option.splits)
qed

interpretation register_op: table_op
  "register_rollback js ks now reason" js "latest_active_key ks"
  "map_option (mark_rolled_back now reason)"
  for js ks now reason
proof
  fix sch fs i s
  show "latest_active_key ks sch = None \<Longrightarrow>
      fst (snd (register_rollback js ks now reason sch fs)) = sch \<and>
      snd (snd (register_rollback js ks now reason sch fs)) = fs"
    by (simp add: register_rollback_alt)
  show "latest_active_key ks sch = Some i \<Longrightarrow> \<exists>v. register_rollback js ks now reason sch fs =
      persist_then js v (sch\<lparr>schedules := (schedules sch)
        (i := map_option (mark_rolled_back now reason) (schedules sch i))\<rparr>) fs"
    by (auto simp: register_rollback_alt)
  show "wf_table (schedules sch) \<Longrightarrow> latest_active_key ks sch = Some i \<Longrightarrow>
      map_option (mark_rolled_back now reason) (schedules sch i) = Some s \<Longrightarrow>
      sched_id s = i \<and> wf_schedule s"
    by (auto simp: wf_table_def)
qed

section \<open>Histories of operations\<close>

text \<open>
  A history of the mutating calls, each with the values it read from its environment.
\<close>

datatype sched_cmd =
    CmdSchedule timestamp string string "string option" "timestamp option" "u32 option" bool
      "u32 option" "string option" "string option" bool bool "string option"
  | CmdCancel string
  | CmdStatus timestamp string schedule_status "string option"
  | CmdTrigger timestamp string string
  | CmdRegister "string list" timestamp string

fun run_cmd ::
  "schedule_map json \<Rightarrow> sched_cmd \<Rightarrow> scheduler \<Rightarrow> fsys \<Rightarrow> (string + unit) \<times> scheduler \<times> fsys" where
  "run_cmd js (CmdSchedule now uuid url sha at window auto timeout pre post delta fb full) sch fs =
     (case schedule_update js now uuid url sha at window auto timeout pre post delta fb full sch fs of
        (Inl e, sf) \<Rightarrow> (Err e, sf) | (Inr _, sf) \<Rightarrow> (Ok (), sf))"
| "run_cmd js (CmdCancel i) sch fs = cancel_schedule js i sch fs"
| "run_cmd js (CmdStatus now i st err) sch fs = update_status js now i st err sch fs"
| "run_cmd js (CmdTrigger now i reason) sch fs = trigger_rollback js now i reason sch fs"
| "run_cmd js (CmdRegister ks now reason) sch fs = register_rollback js ks now reason sch fs"

fun run_cmds :: "schedule_map json \<Rightarrow> sched_cmd list \<Rightarrow> scheduler \<Rightarrow> fsys \<Rightarrow> scheduler \<times> fsys" where
  "run_cmds js [] sch fs = (sch, fs)"
| "run_cmds js (c # cs) sch fs =
     (case run_cmd js c sch fs of (_, sch', fs') \<Rightarrow> run_cmds js cs sch' fs')"

text \<open>The entry a call may change, if any.\<close>

fun cmd_key :: "sched_cmd \<Rightarrow> scheduler \<Rightarrow> string option" where
  "cmd_key (CmdSchedule now uuid url sha at window auto timeout pre post delta fb full) sch = Some uuid"
| "cmd_key (CmdCancel i) sch = cancel_key i sch"
| "cmd_key (CmdStatus now i st err) sch = present_key i sch"
| "cmd_key (CmdTrigger now i reason) sch = present_key i sch"
| "cmd_key (CmdRegister ks now reason) sch = latest_active_key ks sch"

lemma run_cmd_mem:
  "fst (snd (run_cmd js (CmdSchedule now uuid url sha at window auto timeout pre post delta fb full) sch fs)) =
   fst (snd (schedule_update js now uuid url sha at window auto timeout pre post delta fb full sch fs))"
  by (simp split: prod.splits sum.splits)

lemma run_cmd_wf:
  "wf_table (schedules sch) \<Longrightarrow> wf_table (schedules (fst (snd (run_cmd js c sch fs))))"
  by (cases c)
    (simp_all only: run_cmd_mem run_cmd.simps(2-5) create_op.op_wf cancel_op.op_wf
      status_op.op_wf trigger_op.op_wf register_op.op_wf)

lemma run_cmd_path: "storage_path (fst (snd (run_cmd js c sch fs))) = storage_path sch"
  by (cases c)
    (simp_all only: run_cmd_mem run_cmd.simps(2-5) create_op.op_path cancel_op.op_path
      status_op.op_path trigger_op.op_path register_op.op_path)

lemma run_cmd_frame:
  "cmd_key c sch \<noteq> Some j \<Longrightarrow>
     schedules (fst (snd (run_cmd js c sch fs))) j = schedules sch j"
  by (cases c)
    (simp_all add: run_cmd_mem create_op.op_frame cancel_op.op_frame status_op.op_frame
      trigger_op.op_frame register_op.op_frame del: run_cmd.simps(1))

lemma run_cmd_durable:
  assumes "run_cmd js c sch fs = (Ok (), sch', fs')" and "cmd_key c sch = Some i"
    and "json_ok js (schedules sch')" and "fs_read_err fs (storage_path sch) = None"
  shows "new_scheduler js (storage_path sch) fs' = sch'"
proof (cases c)
  case (CmdSchedule now uuid url sha at window auto timeout pre post delta fb full)
  with assms(1) obtain r where
    "schedule_update js now uuid url sha at window auto timeout pre post delta fb full sch fs =
       (Ok r, sch', fs')"
    by (auto split: prod.splits sum.splits)
  then show ?thesis by (rule create_op.op_durable) (use assms(3,4) in simp_all)
next
  case (CmdCancel k)
  with assms show ?thesis by (auto intro: cancel_op.op_durable)
next
  case (CmdStatus now k st err)
  with assms show ?thesis by (auto intro: status_op.op_durable)
next
  case (CmdTrigger now k reason)
  with assms show ?thesis by (auto intro: trigger_op.op_durable)
next
  case (CmdRegister ks now reason)
  with assms show ?thesis by (auto intro: register_op.op_durable)
qed

lemma run_cmds_wf:
  "wf_table (schedules sch) \<Longrightarrow> wf_table (schedules (fst (run_cmds js cs sch fs)))"
proof (induction cs arbitrary: sch fs)
  case (Cons c cs)
  then show ?case
    using run_cmd_wf [OF Cons.prems, of js c fs] by (auto split: prod.splits)
qed simp

lemma run_cmds_append:
  "run_cmds js (cs @ ds) sch fs = (case run_cmds js cs sch fs of (s, f) \<Rightarrow> run_cmds js ds s f)"
  by (induction cs arbitrary: sch fs) (auto split: prod.splits)

text \<open>
  What the operator asked for, which no operation may alter: everything but the progress
  fields of a schedule.
\<close>

definition same_plan :: "update_schedule \<Rightarrow> update_schedule \<Rightarrow> bool" where
  "same_plan s t \<longleftrightarrow>
     t\<lparr>rollback_triggered := rollback_triggered s, rollback_reason := rollback_reason s,
       sched_status := sched_status s, started_at := started_at s,
       completed_at := completed_at s, error_message := error_message s\<rparr> = s"

fun created_ids :: "sched_cmd list \<Rightarrow> string set" where
  "created_ids [] = {}"
| "created_ids (CmdSchedule now uuid url sha at window auto timeout pre post delta fb full # cs) =
     insert uuid (created_ids cs)"
| "created_ids (c # cs) = created_ids cs"

lemma same_plan_refl [simp]: "same_plan s s"
  by (simp add: same_plan_def)

lemma same_plan_trans: "same_plan s t \<Longrightarrow> same_plan t u \<Longrightarrow> same_plan s u"
  by (cases s; cases t; cases u) (simp add: same_plan_def)

lemma same_plan_edit [simp]:
  "same_plan s (set_status now st err s)"
  "same_plan s (mark_rolled_back now reason s)"
  "same_plan s (s\<lparr>sched_status := st\<rparr>)"
  by (cases st; cases s; simp add: same_plan_def set_status_def mark_rolled_back_def)+

context table_op
begin

lemma op_keeps_plan:
  assumes "\<And>s. \<exists>s'. edit (Some s) = Some s' \<and> same_plan s s'" and "schedules sch i = Some s"
  shows "\<exists>s'. schedules (fst (snd (op sch fs))) i = Some s' \<and> same_plan s s'"
proof (cases "key sch = Some i")
  case True
  obtain v where "op sch fs =
      persist_then js v (sch\<lparr>schedules := (schedules sch)(i := edit (schedules sch i))\<rparr>) fs"
    using op_keyed [OF True] by blast
  with assms show ?thesis by simp
next
  case False
  with assms(2) show ?thesis using op_frame [of sch i fs] by simp
qed

end

lemma run_cmd_keeps_plan:
  assumes "schedules sch i = Some s" and "i \<notin> created_ids [c]"
  shows "\<exists>s'. schedules (fst (snd (run_cmd js c sch fs))) i = Some s' \<and> same_plan s s'"
proof (cases c)
  case (CmdSchedule now uuid url sha at window auto timeout pre post delta fb full)
  with assms show ?thesis
    using run_cmd_frame [of c sch i js fs] by (intro exI [of _ s]) simp
next
  case (CmdCancel k)
  then show ?thesis unfolding CmdCancel run_cmd.simps
    by (intro cancel_op.op_keeps_plan assms) simp
next
  case (CmdStatus now k st err)
  then show ?thesis unfolding CmdStatus run_cmd.simps
    by (intro status_op.op_keeps_plan assms) simp
next
  case (CmdTrigger now k reason)
  then show ?thesis unfolding CmdTrigger run_cmd.simps
    by (intro trigger_op.op_keeps_plan assms) simp
next
  case (CmdRegister ks now reason)
  then show ?thesis unfolding CmdRegister run_cmd.simps
    by (intro register_op.op_keeps_plan assms) simp
qed

lemma created_ids_Cons: "created_ids (c # cs) = created_ids [c] \<union> created_ids cs"
  by (cases c) simp_all

lemma run_cmds_keeps_plan:
  assumes "schedules sch i = Some s" and "i \<notin> created_ids cs"
  shows "\<exists>s'. schedules (fst (run_cmds js cs sch fs)) i = Some s' \<and> same_plan s s'"
  using assms
proof (induction cs arbitrary: sch fs s)
  case (Cons c cs)
  obtain r sch1 fs1 where run: "run_cmd js c sch fs = (r, sch1, fs1)"
    by (cases "run_cmd js c sch fs") auto
  obtain s1 where s1: "schedules sch1 i = Some s1" "same_plan s s1"
    using run_cmd_keeps_plan [of sch i s c js fs] Cons.prems run created_ids_Cons [of c cs] by auto
  moreover have "i \<notin> created_ids cs"
    using Cons.prems(2) created_ids_Cons [of c cs] by blast
  ultimately show ?case
    using Cons.IH [of sch1 s1 fs1] run by (auto intro: same_plan_trans)
qed simp

lemma run_cmds_path: "storage_path (fst (run_cmds js cs sch fs)) = storage_path sch"
proof (induction cs arbitrary: sch fs)
  case (Cons c cs)
  then show ?case
    using run_cmd_path [of js c sch fs] by (auto split: prod.splits)
qed simp

section \<open>The latest active schedule\<close>

lemma latest_active_None:
  "iter_order ks (schedules sch) \<Longrightarrow>
     get_latest_active_schedule ks sch = None \<longleftrightarrow> (\<forall>s\<in>ran (schedules sch). \<not> is_active s)"
  by (simp add: get_latest_active_schedule_def filter_empty_conv hash_values_set)

lemma latest_active_Some:
  "iter_order ks (schedules sch) \<Longrightarrow> get_latest_active_schedule ks sch = Some s \<Longrightarrow>
     s \<in> ran (schedules sch) \<and> is_active s \<and>
     (\<forall>t\<in>ran (schedules sch). is_active t \<longrightarrow> started_at t \<le> started_at s)"
  using max_by_key_Some [of started_at "filter is_active (hash_values ks (schedules sch))" s]
  by (auto simp: get_latest_active_schedule_def hash_values_set)

text \<open>A table for the witnesses: one finished update and one that waits for its time.\<close>

definition demo_schedule :: "string \<Rightarrow> timestamp option \<Rightarrow> update_schedule" where
  "demo_schedule i at = make_schedule 0 i ''http://images/os.squashfs'' None at (Some 60) True
     (Some 30) None None False False None"

definition demo_scheduler :: scheduler where
  "demo_scheduler =
     \<lparr>schedules = [''a'' \<mapsto> set_status 5 Running None (demo_schedule ''a'' (Some 0)),
                   ''b'' \<mapsto> demo_schedule ''b'' (Some 10)],
      storage_path = ''/data/schedules.json''\<rparr>"

definition empty_fs :: fsys where
  "empty_fs = \<lparr>fs_files = Map.empty, fs_dirs = {}, fs_read_err = Map.empty,
     fs_write_err = Map.empty, fs_mkdir_err = Map.empty\<rparr>"

lemma demo_scheduler_wf: "wf_table (schedules demo_scheduler)"
  by (auto simp: demo_scheduler_def wf_table_def demo_schedule_def make_schedule_def
      set_status_def wf_schedule_def split: if_splits)

section \<open>Properties\<close>

text \<open>
  C14. Any history of scheduler calls keeps a well-formed table well-formed, never drops a
  schedule, and never alters what the operator asked for in it, as long as no new
  schedule draws the UUID of an old one.
\<close>

theorem scheduler_history:
  assumes "wf_table (schedules sch)" and "run_cmds js cs sch fs = (sch', fs')"
  shows "wf_table (schedules sch') \<and> storage_path sch' = storage_path sch \<and>
    (\<forall>i s. schedules sch i = Some s \<and> i \<notin> created_ids cs \<longrightarrow>
       (\<exists>s'. schedules sch' i = Some s' \<and> sched_id s' = i \<and> same_plan s s'))"
proof (intro conjI allI impI)
  show wf: "wf_table (schedules sch')"
    using run_cmds_wf [OF assms(1), of js cs fs] assms(2) by simp
  show "storage_path sch' = storage_path sch"
    using run_cmds_path [of js cs sch fs] assms(2) by simp
  fix i s
  assume "schedules sch i = Some s \<and> i \<notin> created_ids cs"
  then obtain s' where "schedules sch' i = Some s'" "same_plan s s'"
    using run_cmds_keeps_plan [of sch i s cs js fs] assms(2) by auto
  with wf wf_table_lookup show "\<exists>s'. schedules sch' i = Some s' \<and> sched_id s' = i \<and> same_plan s s'"
    by blast
qed

theorem scheduler_history_witness:
  "\<exists>sch' fs' s'.
     run_cmds \<lparr>to_json = \<lambda>_. Err ''disk full'', from_json = \<lambda>_. Err ''no''\<rparr>
       [CmdCancel ''b'', CmdRegister [''b'', ''a''] 9 ''bad health''] demo_scheduler empty_fs =
       (sch', fs') \<and>
     schedules sch' ''b'' = Some s' \<and> same_plan (demo_schedule ''b'' (Some 10)) s'"
proof -
  let ?js = "\<lparr>to_json = \<lambda>_. Err ''disk full'', from_json = \<lambda>_. Err ''no''\<rparr> :: schedule_map json"
  let ?cs = "[CmdCancel ''b'', CmdRegister [''b'', ''a''] 9 ''bad health'']"
  obtain sch' fs' where run: "run_cmds ?js ?cs demo_scheduler empty_fs = (sch', fs')"
    by (cases "run_cmds ?js ?cs demo_scheduler empty_fs") auto
  have "schedules demo_scheduler ''b'' = Some (demo_schedule ''b'' (Some 10))"
    by (simp add: demo_scheduler_def)
  with scheduler_history [OF demo_scheduler_wf run] run show ?thesis
    by fastforce
qed

text \<open>
  Durability: a call that changed the table and reported success has put the new
  table on disk. Starting the scheduler again from the file gives exactly the table that
  was in memory, when \<open>serde_json\<close> reads back what it wrote and the file can be read.
\<close>

lemma scheduler_durable:
  assumes "run_cmd js c sch fs = (Ok (), sch', fs')" and "cmd_key c sch = Some i"
    and "json_ok js (schedules sch')" and "fs_read_err fs (storage_path sch) = None"
  shows "new_scheduler js (storage_path sch) fs' = sch'"
  using assms by (rule run_cmd_durable)

lemma scheduler_durable_witness:
  "\<exists>(js :: schedule_map json) sch' fs'.
     run_cmd js (CmdCancel ''b'') demo_scheduler empty_fs = (Ok (), sch', fs') \<and>
     map_option sched_status (schedules sch' ''b'') = Some Cancelled \<and>
     new_scheduler js ''/data/schedules.json'' fs' = sch'"
proof -
  let ?b = "(demo_schedule ''b'' (Some 10))\<lparr>sched_status := Cancelled\<rparr>"
  let ?sch' = "demo_scheduler\<lparr>schedules := (schedules demo_scheduler)(''b'' \<mapsto> ?b)\<rparr>"
  let ?js = "\<lparr>to_json = \<lambda>_. Ok ''doc'', from_json = \<lambda>_. Ok (schedules ?sch')\<rparr> :: schedule_map json"
  have b: "schedules demo_scheduler ''b'' = Some (demo_schedule ''b'' (Some 10))"
    "sched_status (demo_schedule ''b'' (Some 10)) = Pending"
    "storage_path demo_scheduler = ''/data/schedules.json''"
    by (simp_all add: demo_scheduler_def demo_schedule_def make_schedule_def)
  have run: "run_cmd ?js (CmdCancel ''b'') demo_scheduler empty_fs =
      (Ok (), ?sch', snd (snd (run_cmd ?js (CmdCancel ''b'') demo_scheduler empty_fs)))"
    using b by (simp add: cancel_schedule_def persist_then_def persist_schedules_def Let_def
        fs_write_def create_dir_all_def empty_fs_def split: option.splits prod.splits)
  have key: "cmd_key (CmdCancel ''b'') demo_scheduler = Some ''b''"
    using b by (simp add: cancel_key_def)
  have "json_ok ?js (schedules ?sch')" "fs_read_err empty_fs (storage_path demo_scheduler) = None"
    by (simp_all add: json_ok_def empty_fs_def)
  from scheduler_durable [OF run key this] run b show ?thesis
    by (intro exI [of _ ?js] exI [of _ ?sch']) fastforce
qed

text \<open>
  Registering a rollback marks one schedule that is completed or running and that no
  other such schedule was started after, whatever order the hash map is visited in, and
  leaves every other schedule as it was; with no such schedule it changes nothing and
  succeeds.
\<close>

lemma register_rollback_latest:
  assumes "wf_table (schedules sch)" and "iter_order ks (schedules sch)"
    and "register_rollback js ks now reason sch fs = (r, sch', fs')"
  shows "if \<exists>s\<in>ran (schedules sch). is_active s
    then \<exists>s. is_active s \<and> schedules sch (sched_id s) = Some s \<and>
      (\<forall>t\<in>ran (schedules sch). is_active t \<longrightarrow> started_at t \<le> started_at s) \<and>
      schedules sch' = (schedules sch)(sched_id s \<mapsto> mark_rolled_back now reason s)
    else r = Ok () \<and> sch' = sch \<and> fs' = fs"
proof (cases "get_latest_active_schedule ks sch")
  case None
  with assms show ?thesis
    by (auto simp: register_rollback_alt latest_active_key_def latest_active_None)
next
  case (Some s)
  note s = latest_active_Some [OF assms(2) Some]
  then obtain i where "schedules sch i = Some s"
    by (auto simp: ran_def)
  with assms(1) have lookup: "schedules sch (sched_id s) = Some s"
    using wf_table_lookup by auto
  have "schedules sch' = (schedules sch)(sched_id s \<mapsto> mark_rolled_back now reason s)"
    using assms(3) Some lookup
    by (auto simp: register_rollback_alt latest_active_key_def persist_then_eq)
  with s lookup show ?thesis
    by auto
qed

lemma register_rollback_latest_witness:
  "schedules (fst (snd (register_rollback
       \<lparr>to_json = \<lambda>_. Err ''e'', from_json = \<lambda>_. Err ''e''\<rparr> [''b'', ''a''] 9 ''bad'' demo_scheduler empty_fs)))
     ''b'' = Some (demo_schedule ''b'' (Some 10))"
proof -
  let ?js = "\<lparr>to_json = \<lambda>_. Err ''e'', from_json = \<lambda>_. Err ''e''\<rparr> :: schedule_map json"
  obtain r sch' fs' where run:
    "register_rollback ?js [''b'', ''a''] 9 ''bad'' demo_scheduler empty_fs = (r, sch', fs')"
    by (cases "register_rollback ?js [''b'', ''a''] 9 ''bad'' demo_scheduler empty_fs") auto
  have "iter_order [''b'', ''a''] (schedules demo_scheduler)"
    by (auto simp: iter_order_def demo_scheduler_def)
  from register_rollback_latest [OF demo_scheduler_wf this run]
  have "sch' = demo_scheduler \<or> (\<exists>s. is_active s \<and> schedules demo_scheduler (sched_id s) = Some s \<and>
      schedules sch' = (schedules demo_scheduler)(sched_id s \<mapsto> mark_rolled_back 9 ''bad'' s))"
    by (auto split: if_splits)
  moreover have "schedules demo_scheduler ''b'' = Some (demo_schedule ''b'' (Some 10))"
    "\<not> is_active (demo_schedule ''b'' (Some 10))"
    by (simp_all add: demo_scheduler_def is_active_def demo_schedule_def make_schedule_def)
  ultimately show ?thesis
    using run by auto
qed

text \<open>
  Cancelling succeeds in memory exactly for a pending schedule, whose status becomes
  cancelled and nothing else changes; an unknown or no longer pending schedule is refused
  with an error and nothing changes, in memory or on disk.
\<close>

lemma cancel_schedule_effect:
  assumes "cancel_schedule js i sch fs = (r, sch', fs')"
  shows "case schedules sch i of
      None \<Rightarrow> r = Err (''Schedule not found: '' @ i) \<and> sch' = sch \<and> fs' = fs
    | Some s \<Rightarrow>
        if sched_status s = Pending
        then sch' = sch\<lparr>schedules := (schedules sch)(i \<mapsto> s\<lparr>sched_status := Cancelled\<rparr>)\<rparr> \<and>
          fs' = snd (persist_schedules js sch' fs) \<and> (r = Ok () \<longleftrightarrow> fst (persist_schedules js sch' fs) = Ok ())
        else (\<exists>e. r = Err e) \<and> sch' = sch \<and> fs' = fs"
  using assms
  by (auto simp: cancel_schedule_def persist_then_eq split: option.splits if_splits sum.splits)

lemma cancel_schedule_effect_witness:
  "sched_status (the (schedules (fst (snd (cancel_schedule
       \<lparr>to_json = \<lambda>_. Ok ''doc'', from_json = \<lambda>_. Err ''e''\<rparr> ''b'' demo_scheduler empty_fs))) ''b'')) = Cancelled"
proof -
  let ?js = "\<lparr>to_json = \<lambda>_. Ok ''doc'', from_json = \<lambda>_. Err ''e''\<rparr> :: schedule_map json"
  obtain r sch' fs' where run: "cancel_schedule ?js ''b'' demo_scheduler empty_fs = (r, sch', fs')"
    by (cases "cancel_schedule ?js ''b'' demo_scheduler empty_fs") auto
  have "schedules demo_scheduler ''b'' = Some (demo_schedule ''b'' (Some 10))"
    "sched_status (demo_schedule ''b'' (Some 10)) = Pending"
    by (simp_all add: demo_scheduler_def demo_schedule_def make_schedule_def)
  with cancel_schedule_effect [OF run] run show ?thesis by simp
qed

text \<open>
  A schedule is picked up by the executor's poll exactly when it is in the table,
  pending, and has a start time that has come. In particular a schedule without a start
  time is never picked up. Picked up, it lies in its maintenance window exactly when it
  has no window (or one of zero seconds) or the window has not yet elapsed.
\<close>

lemma due_schedules:
  assumes "iter_order ks (schedules sch)"
  shows "(s \<in> set (get_due_schedules now ks sch) \<longleftrightarrow>
      s \<in> ran (schedules sch) \<and> sched_status s = Pending \<and>
      (\<exists>at. scheduled_at s = Some at \<and> at \<le> now)) \<and>
    (s \<in> set (get_due_schedules now ks sch) \<longrightarrow>
      (is_within_maintenance_window now s \<longleftrightarrow>
        (\<forall>w. maintenance_window_secs s = Some w \<and> w \<noteq> 0 \<longrightarrow>
           now \<le> the (scheduled_at s) + int (unat w) * 1000000000)))"
  using assms
  by (auto simp: get_due_schedules_def hash_values_set is_due_def is_within_maintenance_window_def
      seconds_def split: option.splits)

lemma due_schedules_witness:
  "demo_schedule ''b'' (Some 10) \<in> set (get_due_schedules 12 [''a'', ''b''] demo_scheduler) \<and>
   is_within_maintenance_window 12 (demo_schedule ''b'' (Some 10))"
proof -
  have o: "iter_order [''a'', ''b''] (schedules demo_scheduler)"
    by (auto simp: iter_order_def demo_scheduler_def)
  have b: "demo_schedule ''b'' (Some 10) \<in> ran (schedules demo_scheduler)"
    by (rule ranI [of _ "''b''"]) (simp add: demo_scheduler_def)
  have f: "sched_status (demo_schedule ''b'' (Some 10)) = Pending"
    "scheduled_at (demo_schedule ''b'' (Some 10)) = Some 10"
    "maintenance_window_secs (demo_schedule ''b'' (Some 10)) = Some 60"
    by (simp_all add: demo_schedule_def make_schedule_def)
  show ?thesis
    using due_schedules [OF o, of "demo_schedule ''b'' (Some 10)" 12] b f by simp
qed

end
