(* ===== verification/Disk.thy ===== *)
theory Disk
  imports Keel_Prelude
begin

text \<open>
  A/B partition management (\<open>cmd/keel-agent/src/disk.rs\<close>): finding the partition the node
  runs from, writing an image to the other one (whole or as a binary delta, with or
  without SHA-256 verification), switching the boot flag with \<open>sgdisk\<close>, and the record
  that makes a rollback possible.

  Code outside the repository enters as arguments: \<open>http n url\<close> is what \<open>reqwest::get\<close>
  answers to the \<open>n\<close>-th request of a call, \<open>sha256\<close> gives the lower-case hexadecimal
  digest of a byte sequence, \<open>bspatch old delta\<close> is \<open>bsdiff::patch\<close>, \<open>sg\<close> is the \<open>sgdisk\<close>
  program acting on the boot flags of \<open>/dev/sda\<close>, \<open>js\<close> is \<open>serde_json\<close> for the rollback
  record, and \<open>stamp\<close> the current time as RFC 3339 text.
\<close>

section \<open>Data\<close>

record partition_info =
  part_device :: string
  part_index :: u32

definition DEFAULT_DISK :: string where
  "DEFAULT_DISK = ''/dev/sda''"

definition SLOT_A_INDEX :: u32 where
  "SLOT_A_INDEX = 2"

definition SLOT_B_INDEX :: u32 where
  "SLOT_B_INDEX = 3"

text \<open>\<open>io::Error\<close>: errors of the operating system, and those the module makes itself.\<close>

datatype io_error =
    OsError string
  | NotFound string
  | InvalidData string
  | OtherError string

fun io_msg :: "io_error \<Rightarrow> string" where
  "io_msg (OsError m) = m"
| "io_msg (NotFound m) = m"
| "io_msg (InvalidData m) = m"
| "io_msg (OtherError m) = m"

text \<open>
  A block device: its bytes, and what the kernel refuses. Bytes at or after \<open>dev_limit\<close>
  cannot be written (the end of the device, or a bad block).
\<close>

record device =
  dev_bytes :: string
  dev_limit :: nat
  dev_limit_err :: string
  dev_open_err :: "string option"
  dev_read_err :: "string option"
  dev_sync_err :: "string option"

text \<open>
  The state the module works on: files, symbolic links, block devices, and the legacy
  boot attribute of each partition of the default disk.
\<close>

record disks =
  dk_fs :: fsys
  dk_links :: "string \<Rightarrow> string + string"
  dk_dev :: "string \<rightharpoonup> device"
  dk_flags :: "u32 \<Rightarrow> bool"

definition slot_a :: partition_info where
  "slot_a = \<lparr>part_device = DEFAULT_DISK @ show_word SLOT_A_INDEX, part_index = SLOT_A_INDEX\<rparr>"

section \<open>Active and inactive partition\<close>

text \<open>The partition number is the longest run of digits at the end of the path.\<close>

definition trailing_digits :: "string \<Rightarrow> string" where
  "trailing_digits s = rev (takeWhile is_digit (rev s))"

definition parse_device_path :: "string \<Rightarrow> io_error + partition_info" where
  "parse_device_path device =
     (case parse_u32 (trailing_digits device) of
        None \<Rightarrow> Err (InvalidData (''Cannot parse partition number from: '' @ device))
      | Some index \<Rightarrow> Ok \<lparr>part_device = device, part_index = index\<rparr>)"

definition resolve_partuuid :: "string \<Rightarrow> disks \<Rightarrow> io_error + partition_info" where
  "resolve_partuuid partuuid w =
     (let link_path = ''/dev/disk/by-partuuid/'' @ to_lowercase partuuid in
      case dk_links w link_path of
        Inr target \<Rightarrow>
          (case rev (split_on CHR ''/'' target) of
             dev_name # _ \<Rightarrow> parse_device_path (''/dev/'' @ dev_name)
           | [] \<Rightarrow> Err (OtherError (''Could not parse symlink target: '' @ target)))
      | Inl e \<Rightarrow> Ok slot_a)"

fun root_param :: "disks \<Rightarrow> string list \<Rightarrow> (io_error + partition_info) option" where
  "root_param w [] = None"
| "root_param w (param # ps) =
     (case strip_prefix ''root='' param of
        None \<Rightarrow> root_param w ps
      | Some root_value \<Rightarrow>
          (case strip_prefix ''PARTUUID='' root_value of
             Some partuuid \<Rightarrow> Some (resolve_partuuid partuuid w)
           | None \<Rightarrow>
               if starts_with root_value ''/dev/'' then Some (parse_device_path root_value)
               else root_param w ps))"

fun root_mount :: "string list \<Rightarrow> (io_error + partition_info) option" where
  "root_mount [] = None"
| "root_mount (line # ls) =
     (case split_whitespace line of
        dev # dir # _ \<Rightarrow>
          if dir = ''/'' \<and> starts_with dev ''/dev/'' then Some (parse_device_path dev)
          else root_mount ls
      | _ \<Rightarrow> root_mount ls)"

definition get_active_partition :: "disks \<Rightarrow> io_error + partition_info" where
  "get_active_partition w =
     and_then (map_err OsError (read_to_string ''/proc/cmdline'' (dk_fs w)))
       (\<lambda>cmdline.
          case root_param w (split_whitespace cmdline) of
            Some r \<Rightarrow> r
          | None \<Rightarrow>
              (case read_to_string ''/proc/mounts'' (dk_fs w) of
                 Inr mounts \<Rightarrow> (case root_mount (lines mounts) of Some r \<Rightarrow> r | None \<Rightarrow> Ok slot_a)
               | Inl e \<Rightarrow> Ok slot_a))"

definition other_slot :: "u32 \<Rightarrow> u32" where
  "other_slot index = (if index = SLOT_A_INDEX then SLOT_B_INDEX else SLOT_A_INDEX)"

definition get_inactive_partition :: "disks \<Rightarrow> io_error + partition_info" where
  "get_inactive_partition w =
     and_then (get_active_partition w)
       (\<lambda>active.
          let base_device = takeWhile (\<lambda>c. \<not> is_digit c) (part_device active);
              inactive_index = other_slot (part_index active)
          in Ok \<lparr>part_device = base_device @ show_word inactive_index,
                 part_index = inactive_index\<rparr>)"

section \<open>Flashing an image\<close>

text \<open>
  An HTTP exchange: the request failed, or there is a response with its status (success
  flag and text), its announced length and the items of its body stream.
\<close>

datatype http_reply =
    RequestFailed string
  | Response bool string "u64 option" "(string + string) list"

definition overwrite :: "nat \<Rightarrow> string \<Rightarrow> string \<Rightarrow> string" where
  "overwrite off c b = take off b @ c @ drop (off + length c) b"

text \<open>Opening a device for writing, writing all of a buffer at an offset, and syncing.\<close>

definition dev_open :: "string \<Rightarrow> disks \<Rightarrow> io_error + device" where
  "dev_open p w =
     (case dk_dev w p of
        None \<Rightarrow> Err (OsError enoent)
      | Some d \<Rightarrow> (case dev_open_err d of Some e \<Rightarrow> Err (OsError e) | None \<Rightarrow> Ok d))"

definition dev_write_all :: "nat \<Rightarrow> string \<Rightarrow> device \<Rightarrow> (io_error + unit) \<times> device" where
  "dev_write_all off c d =
     (if off + length c \<le> dev_limit d
      then (Ok (), d\<lparr>dev_bytes := overwrite off c (dev_bytes d)\<rparr>)
      else (Err (OsError (dev_limit_err d)),
            d\<lparr>dev_bytes := overwrite off (take (dev_limit d - off) c) (dev_bytes d)\<rparr>))"

definition dev_sync :: "device \<Rightarrow> io_error + unit" where
  "dev_sync d = (case dev_sync_err d of Some e \<Rightarrow> Err (OsError e) | None \<Rightarrow> Ok ())"

text \<open>\<open>response.bytes()\<close>: the whole body, or the first error of the stream.\<close>

fun body_bytes :: "(string + string) list \<Rightarrow> string + string" where
  "body_bytes [] = Ok []"
| "body_bytes (Inl e # is) = Err e"
| "body_bytes (Inr c # is) = and_then (body_bytes is) (\<lambda>r. Ok (c @ r))"

text \<open>The check of an optional expected digest against the bytes that were hashed.\<close>

definition verify_sha256 :: "(string \<Rightarrow> string) \<Rightarrow> string option \<Rightarrow> string \<Rightarrow> io_error + unit" where
  "verify_sha256 sha256 expected_sha256 hashed =
     (case expected_sha256 of
        None \<Rightarrow> Ok ()
      | Some expected \<Rightarrow>
          if expected = [] then Ok ()
          else let actual = sha256 hashed in
               if actual \<noteq> to_lowercase expected
               then Err (InvalidData (''SHA256 mismatch: expected '' @ expected @ '', got '' @ actual))
               else Ok ())"

text \<open>
  The download loop of \<open>flash_full_image\<close>. The arguments after the stream are the bytes
  the hasher has seen, the file offset and the progress counter; the result carries the
  hashed bytes and the counter.
\<close>

fun flash_stream ::
  "(string + string) list \<Rightarrow> string \<Rightarrow> nat \<Rightarrow> u64 \<Rightarrow> device \<Rightarrow> (io_error + string \<times> u64) \<times> device" where
  "flash_stream [] hashed off n d = (Ok (hashed, n), d)"
| "flash_stream (Inl e # is) hashed off n d = (Err (OtherError (''Stream error: '' @ e)), d)"
| "flash_stream (Inr chunk # is) hashed off n d =
     (case dev_write_all off chunk d of
        (Inl e, d') \<Rightarrow> (Err e, d')
      | (Inr _, d') \<Rightarrow>
          flash_stream is (hashed @ chunk) (off + length chunk) (n + of_nat (length chunk)) d')"

definition put_dev :: "string \<Rightarrow> device \<Rightarrow> disks \<Rightarrow> disks" where
  "put_dev p d w = w\<lparr>dk_dev := (dk_dev w)(p \<mapsto> d)\<rparr>"

definition flash_full_image ::
  "(string \<Rightarrow> http_reply) \<Rightarrow> (string \<Rightarrow> string) \<Rightarrow> string \<Rightarrow> string \<Rightarrow> string option \<Rightarrow>
   disks \<Rightarrow> (io_error + u64) \<times> disks" where
  "flash_full_image get sha256 source_url target_device expected_sha256 w =
     (case get source_url of
        RequestFailed e \<Rightarrow> (Err (OtherError (''Download failed: '' @ e)), w)
      | Response ok st len items \<Rightarrow>
          if \<not> ok then (Err (OtherError (''Server returned error: '' @ st)), w)
          else case dev_open target_device w of
            Inl e \<Rightarrow> (Err e, w)
          | Inr d \<Rightarrow>
              (case flash_stream items [] 0 0 d of
                 (Inl e, d') \<Rightarrow> (Err e, put_dev target_device d' w)
               | (Inr (hashed, bytes_written), d') \<Rightarrow>
                   (let w' = put_dev target_device d' w in
                    case dev_sync d' of
                      Inl e \<Rightarrow> (Err e, w')
                    | Inr _ \<Rightarrow>
                        (case verify_sha256 sha256 expected_sha256 hashed of
                           Inl e \<Rightarrow> (Err e, w')
                         | Inr _ \<Rightarrow> (Ok 0, w')))))"

text \<open>Reading the base image of a delta: the whole active partition.\<close>

definition dev_read :: "string \<Rightarrow> disks \<Rightarrow> string + string" where
  "dev_read p w =
     (case dk_dev w p of
        None \<Rightarrow> Err enoent
      | Some d \<Rightarrow> (case dev_read_err d of Some e \<Rightarrow> Err e | None \<Rightarrow> Ok (dev_bytes d)))"

definition write_patched :: "string \<Rightarrow> string \<Rightarrow> disks \<Rightarrow> (io_error + unit) \<times> disks" where
  "write_patched target_device new_image w =
     (case dev_open target_device w of
        Inl e \<Rightarrow> (Err e, w)
      | Inr d \<Rightarrow>
          (case dev_write_all 0 new_image d of
             (Inl e, d') \<Rightarrow> (Err e, put_dev target_device d' w)
           | (Inr _, d') \<Rightarrow> (dev_sync d', put_dev target_device d' w)))"

text \<open>
  From the downloaded delta to the image to be written: the base is read, patched and
  verified before anything is written.
\<close>

definition patched_image ::
  "(string \<Rightarrow> string) \<Rightarrow> (string \<Rightarrow> string \<Rightarrow> string + string) \<Rightarrow> string option \<Rightarrow> string \<Rightarrow>
   disks \<Rightarrow> io_error + string" where
  "patched_image sha256 bspatch expected_sha256 delta_bytes w =
     and_then (get_active_partition w) (\<lambda>active.
     and_then (map_err (\<lambda>e. OtherError (''Failed to read active partition: '' @ e))
                (dev_read (part_device active) w)) (\<lambda>old_image.
     and_then (map_err (\<lambda>e. OtherError (''bspatch failed: '' @ e))
                (bspatch old_image delta_bytes)) (\<lambda>new_image.
     and_then (verify_sha256 sha256 expected_sha256 new_image) (\<lambda>_. Ok new_image))))"

definition delta_download ::
  "(string \<Rightarrow> http_reply) \<Rightarrow> string \<Rightarrow> string \<Rightarrow> disks \<Rightarrow> (io_error + u64 \<times> string) \<times> disks" where
  "delta_download get delta_url delta_path w =
     (case get delta_url of
        RequestFailed e \<Rightarrow> (Err (OtherError (''Delta download failed: '' @ e)), w)
      | Response ok st len items \<Rightarrow>
          if \<not> ok then (Err (OtherError (''Server returned error for delta: '' @ st)), w)
          else case body_bytes items of
            Inl e \<Rightarrow> (Err (OtherError (''Failed to download delta: '' @ e)), w)
          | Inr delta_bytes \<Rightarrow>
              (case fs_write delta_path delta_bytes (dk_fs w) of
                 (Inl e, fs') \<Rightarrow> (Err (OsError e), w\<lparr>dk_fs := fs'\<rparr>)
               | (Inr _, fs') \<Rightarrow> (Ok (unwrap_or 0 len, delta_bytes), w\<lparr>dk_fs := fs'\<rparr>)))"

text \<open>
  \<open>tmp\<close> is the outcome of \<open>NamedTempFile::new\<close>; the file is deleted when the function
  returns, on every path. The saving is computed on \<open>u64\<close>, where the subtraction wraps.
\<close>

definition apply_delta_update ::
  "(string \<Rightarrow> http_reply) \<Rightarrow> (string \<Rightarrow> string) \<Rightarrow> (string \<Rightarrow> string \<Rightarrow> string + string) \<Rightarrow>
   string + string \<Rightarrow> string \<Rightarrow> string \<Rightarrow> string option \<Rightarrow> disks \<Rightarrow> (io_error + u64) \<times> disks" where
  "apply_delta_update get sha256 bspatch tmp delta_url target_device expected_sha256 w =
     (case tmp of
        Inl e \<Rightarrow> (Err (OsError e), w)
      | Inr delta_path \<Rightarrow>
          (let drop_tmp = (\<lambda>v. v\<lparr>dk_fs := remove_file delta_path (dk_fs v)\<rparr>) in
           case delta_download get delta_url delta_path w of
             (Inl e, w1) \<Rightarrow> (Err e, drop_tmp w1)
           | (Inr (delta_size, delta_bytes), w1) \<Rightarrow>
               (case patched_image sha256 bspatch expected_sha256 delta_bytes w1 of
                  Inl e \<Rightarrow> (Err e, drop_tmp w1)
                | Inr new_image \<Rightarrow>
                    (case write_patched target_device new_image w1 of
                       (Inl e, w2) \<Rightarrow> (Err e, drop_tmp w2)
                     | (Inr _, w2) \<Rightarrow>
                         (Ok (of_nat (length new_image) - delta_size), drop_tmp w2)))))"

definition flash_image ::
  "(nat \<Rightarrow> string \<Rightarrow> http_reply) \<Rightarrow> (string \<Rightarrow> string) \<Rightarrow> (string \<Rightarrow> string \<Rightarrow> string + string) \<Rightarrow>
   string + string \<Rightarrow> string \<Rightarrow> string \<Rightarrow> string option \<Rightarrow> bool \<Rightarrow> string option \<Rightarrow>
   disks \<Rightarrow> (io_error + u64) \<times> disks" where
  "flash_image http sha256 bspatch tmp source_url target_device expected_sha256 is_delta fallback_url w =
     (if is_delta then
        (case apply_delta_update (http 0) sha256 bspatch tmp source_url target_device expected_sha256 w of
           (Inr bytes_saved, w') \<Rightarrow> (Ok bytes_saved, w')
         | (Inl e, w') \<Rightarrow>
             (case fallback_url of
                Some full_url \<Rightarrow>
                  flash_full_image (http 1) sha256 full_url target_device expected_sha256 w'
              | None \<Rightarrow>
                  (Err (OtherError
                     (''Delta update failed and no fallback URL provided: '' @ io_msg e)), w')))
      else flash_full_image (http 0) sha256 source_url target_device expected_sha256 w)"

section \<open>Switching the boot partition\<close>

type_synonym sgdisk = "string list \<Rightarrow> (u32 \<Rightarrow> bool) \<Rightarrow> cmd_outcome \<times> (u32 \<Rightarrow> bool)"

definition attr_args :: "u32 \<Rightarrow> string \<Rightarrow> string list" where
  "attr_args index verb =
     [''--attributes='' @ show_word index @ '':'' @ verb @ '':2'', DEFAULT_DISK]"

definition sgdisk_path :: "disks \<Rightarrow> string option" where
  "sgdisk_path w =
     (if \<not> path_exists ''/usr/sbin/sgdisk'' (dk_fs w) \<and> \<not> path_exists ''/sbin/sgdisk'' (dk_fs w)
      then None
      else if path_exists ''/usr/sbin/sgdisk'' (dk_fs w) then Some ''/usr/sbin/sgdisk''
      else Some ''/sbin/sgdisk'')"

text \<open>The program at a path, and what it does to the flags, are given by \<open>sg\<close>.\<close>

definition switch_boot_partition ::
  "(string \<Rightarrow> sgdisk) \<Rightarrow> u32 \<Rightarrow> disks \<Rightarrow> (io_error + unit) \<times> disks" where
  "switch_boot_partition sg target_index w =
     (case sgdisk_path w of
        None \<Rightarrow> (Err (NotFound ''sgdisk not found. Cannot modify partition table.''), w)
      | Some prog \<Rightarrow>
          (case sg prog (attr_args (other_slot target_index) ''clear'') (dk_flags w) of
             (SpawnErr e, fl1) \<Rightarrow> (Err (OsError e), w\<lparr>dk_flags := fl1\<rparr>)
           | (Exited ok1 out1 err1, fl1) \<Rightarrow>
               (case sg prog (attr_args target_index ''set'') fl1 of
                  (SpawnErr e, fl2) \<Rightarrow> (Err (OsError e), w\<lparr>dk_flags := fl2\<rparr>)
                | (Exited ok2 out2 err2, fl2) \<Rightarrow>
                    (let w2 = w\<lparr>dk_flags := fl2\<rparr> in
                     if \<not> ok2
                     then (Err (OtherError (''Failed to set boot flag on partition '' @
                             show_word target_index @ '': '' @ err2)), w2)
                     else (Ok (), w2\<lparr>dk_fs :=
                             snd (fs_write ''/tmp/boot.next'' (show_word target_index) (dk_fs w2))\<rparr>)))))"

section \<open>Rollback record and boot counter\<close>

definition ROLLBACK_STATE_FILE :: string where
  "ROLLBACK_STATE_FILE = ''/var/lib/keel/rollback_state.json''"

record rollback_state =
  previous_partition :: "u32 option"
  boot_counter :: u32
  last_update_time :: "string option"

definition default_rollback_state :: rollback_state where
  "default_rollback_state =
     \<lparr>previous_partition = None, boot_counter = 0, last_update_time = None\<rparr>"

definition load_rollback_state :: "rollback_state json \<Rightarrow> disks \<Rightarrow> rollback_state" where
  "load_rollback_state js w =
     (case read_to_string ROLLBACK_STATE_FILE (dk_fs w) of
        Inr json \<Rightarrow> (case from_json js json of Inr s \<Rightarrow> s | Inl e \<Rightarrow> default_rollback_state)
      | Inl e \<Rightarrow> default_rollback_state)"

definition save_rollback_state ::
  "rollback_state json \<Rightarrow> rollback_state \<Rightarrow> disks \<Rightarrow> (io_error + unit) \<times> disks" where
  "save_rollback_state js s w =
     (case (case path_parent ROLLBACK_STATE_FILE of
              None \<Rightarrow> (Ok (), dk_fs w)
            | Some parent \<Rightarrow> create_dir_all parent (dk_fs w)) of
        (Inl e, fs1) \<Rightarrow> (Err (OsError e), w\<lparr>dk_fs := fs1\<rparr>)
      | (Inr _, fs1) \<Rightarrow>
          (case to_json js s of
             Inl e \<Rightarrow> (Err (InvalidData e), w\<lparr>dk_fs := fs1\<rparr>)
           | Inr json \<Rightarrow>
               (case fs_write ROLLBACK_STATE_FILE json fs1 of
                  (Inl e, fs2) \<Rightarrow> (Err (OsError e), w\<lparr>dk_fs := fs2\<rparr>)
                | (Inr _, fs2) \<Rightarrow> (Ok (), w\<lparr>dk_fs := fs2\<rparr>))))"

definition record_active_partition_for_rollback ::
  "rollback_state json \<Rightarrow> string \<Rightarrow> disks \<Rightarrow> (io_error + unit) \<times> disks" where
  "record_active_partition_for_rollback js stamp w =
     (case get_active_partition w of
        Inl e \<Rightarrow> (Err e, w)
      | Inr active \<Rightarrow>
          save_rollback_state js
            ((load_rollback_state js w)\<lparr>previous_partition := Some (part_index active),
               last_update_time := Some stamp\<rparr>) w)"

definition rollback_to_previous_partition ::
  "rollback_state json \<Rightarrow> (string \<Rightarrow> sgdisk) \<Rightarrow> disks \<Rightarrow> (io_error + unit) \<times> disks" where
  "rollback_to_previous_partition js sg w =
     (case previous_partition (load_rollback_state js w) of
        None \<Rightarrow> (Err (NotFound ''No previous partition recorded for rollback''), w)
      | Some previous_index \<Rightarrow>
          (case switch_boot_partition sg previous_index w of
             (Inl e, w1) \<Rightarrow> (Err e, w1)
           | (Inr _, w1) \<Rightarrow>
               save_rollback_state js
                 ((load_rollback_state js w1)\<lparr>previous_partition := None, boot_counter := 0\<rparr>) w1))"

definition get_boot_counter :: "rollback_state json \<Rightarrow> disks \<Rightarrow> u32" where
  "get_boot_counter js w = boot_counter (load_rollback_state js w)"

definition increment_boot_counter ::
  "rollback_state json \<Rightarrow> disks \<Rightarrow> (io_error + unit) \<times> disks" where
  "increment_boot_counter js w =
     (let s = load_rollback_state js w in
      save_rollback_state js (s\<lparr>boot_counter := boot_counter s + 1\<rparr>) w)"

definition clear_boot_counter ::
  "rollback_state json \<Rightarrow> disks \<Rightarrow> (io_error + unit) \<times> disks" where
  "clear_boot_counter js w =
     save_rollback_state js ((load_rollback_state js w)\<lparr>boot_counter := 0\<rparr>) w"

definition MAX_BOOT_ATTEMPTS :: u32 where
  "MAX_BOOT_ATTEMPTS = 3"

definition is_boot_loop :: "rollback_state json \<Rightarrow> disks \<Rightarrow> bool" where
  "is_boot_loop js w \<longleftrightarrow> MAX_BOOT_ATTEMPTS \<le> get_boot_counter js w"

section \<open>Partition numbers\<close>

lemma is_digit_show_word: "c \<in> set (show_word n) \<Longrightarrow> is_digit c"
  using show_nat_digits [of "unat n"] by (auto simp: show_word_def list_all_iff)

lemma trailing_digits_append:
  assumes "\<forall>c\<in>set base. \<not> is_digit c" and "\<forall>c\<in>set ds. is_digit c"
  shows "trailing_digits (base @ ds) = ds"
proof -
  have "takeWhile is_digit (rev ds @ rev base) = rev ds @ takeWhile is_digit (rev base)"
    by (rule takeWhile_append2) (use assms(2) in simp)
  moreover have "takeWhile is_digit (rev base) = []"
    using assms(1) by (cases "base = []") (auto simp: takeWhile_eq_Nil_iff hd_rev)
  ultimately show ?thesis by (simp add: trailing_digits_def)
qed

lemma parse_device_path_Ok:
  "parse_device_path dev = Ok p \<longleftrightarrow>
     part_device p = dev \<and> parse_u32 (trailing_digits dev) = Some (part_index p)"
  by (cases p) (auto simp: parse_device_path_def split: option.splits)

lemma slot_a_parse: "parse_device_path (part_device slot_a) = Ok slot_a"
proof -
  have "trailing_digits (''/dev/sda'' @ show_word (2 :: u32)) = show_word (2 :: u32)"
    by (rule trailing_digits_append) (simp add: is_digit_def, simp add: is_digit_show_word)
  then show ?thesis
    by (simp add: parse_device_path_Ok slot_a_def DEFAULT_DISK_def SLOT_A_INDEX_def del: append.simps)
qed

lemma resolve_partuuid_Ok:
  "resolve_partuuid u w = Ok p \<Longrightarrow> parse_device_path (part_device p) = Ok p"
  using slot_a_parse
  by (auto simp: resolve_partuuid_def Let_def parse_device_path_Ok split: sum.splits list.splits)

lemma root_param_Ok: "root_param w ps = Some (Ok p) \<Longrightarrow> parse_device_path (part_device p) = Ok p"
  by (induction w ps rule: root_param.induct)
    (auto simp: parse_device_path_Ok dest!: resolve_partuuid_Ok split: option.splits if_splits)

lemma root_mount_Ok: "root_mount ls = Some (Ok p) \<Longrightarrow> parse_device_path (part_device p) = Ok p"
  by (induction ls rule: root_mount.induct)
    (auto simp: parse_device_path_Ok split: list.splits if_splits)

text \<open>Whatever the source of the active partition, its number is read off its device path.\<close>

lemma active_partition_parsed:
  "get_active_partition w = Ok p \<Longrightarrow> parse_device_path (part_device p) = Ok p"
  by (auto simp: get_active_partition_def and_then_eq_Ok slot_a_parse
      dest: root_param_Ok root_mount_Ok split: option.splits sum.splits)

lemma other_slot_neq [simp]: "other_slot i \<noteq> i"
  by (simp add: other_slot_def SLOT_A_INDEX_def SLOT_B_INDEX_def)

lemma other_slot_range: "other_slot i = 2 \<or> other_slot i = 3"
  by (simp add: other_slot_def SLOT_A_INDEX_def SLOT_B_INDEX_def)

lemma other_slot_other: "i = 2 \<or> i = 3 \<Longrightarrow> other_slot (other_slot i) = i"
  by (auto simp: other_slot_def SLOT_A_INDEX_def SLOT_B_INDEX_def)

lemma takeWhile_no_digit: "\<forall>c\<in>set (takeWhile (\<lambda>c. \<not> is_digit c) s). \<not> is_digit c"
  by (auto dest: set_takeWhileD)

lemma inactive_device_neq:
  assumes "get_active_partition w = Ok a" and "get_inactive_partition w = Ok p"
  shows "part_device p \<noteq> part_device a"
proof
  assume eq: "part_device p = part_device a"
  let ?n = "other_slot (part_index a)"
  have "part_device p = takeWhile (\<lambda>c. \<not> is_digit c) (part_device a) @ show_word ?n"
    using assms(2) by (auto simp: get_inactive_partition_def assms(1) Let_def)
  then have "trailing_digits (part_device p) = show_word ?n"
    by (simp add: trailing_digits_append takeWhile_no_digit is_digit_show_word)
  then have "trailing_digits (part_device a) = show_word ?n"
    by (simp only: eq)
  with active_partition_parsed [OF assms(1)] have "?n = part_index a"
    by (simp add: parse_device_path_Ok)
  then show False by simp
qed

section \<open>What a writer of the inactive slot promises\<close>

text \<open>
  The contract between the flashing routines and the update executor: whatever happens, a
  writer touches nothing but its target device and its temporary file.
\<close>

locale slot_writer =
  fixes put :: "disks \<Rightarrow> (io_error + u64) \<times> disks"
    and target :: string and tmp :: "string + string"
  assumes write_flags: "dk_flags (snd (put w)) = dk_flags w"
    and write_links: "dk_links (snd (put w)) = dk_links w"
    and write_other: "p \<noteq> target \<Longrightarrow> dk_dev (snd (put w)) p = dk_dev w p"
    and write_files: "Inr f \<noteq> tmp \<Longrightarrow> fs_files (dk_fs (snd (put w))) f = fs_files (dk_fs w) f"
    and write_reads: "fs_read_err (dk_fs (snd (put w))) = fs_read_err (dk_fs w)"
    and write_faults: "fs_write_err (dk_fs (snd (put w))) = fs_write_err (dk_fs w) \<and>
      fs_mkdir_err (dk_fs (snd (put w))) = fs_mkdir_err (dk_fs w)"
begin

lemma reads_kept: "Inr f \<noteq> tmp \<Longrightarrow> read_to_string f (dk_fs (snd (put w))) = read_to_string f (dk_fs w)"
  by (simp add: read_to_string_def write_files write_reads split: option.splits)

lemma root_param_kept: "root_param (snd (put w)) ps = root_param w ps"
  by (induction ps) (simp_all add: resolve_partuuid_def write_links split: option.splits)

lemma active_kept:
  "tmp \<noteq> Inr ''/proc/cmdline'' \<Longrightarrow> tmp \<noteq> Inr ''/proc/mounts'' \<Longrightarrow>
     get_active_partition (snd (put w)) = get_active_partition w"
  unfolding get_active_partition_def root_param_kept
  using reads_kept [of "''/proc/cmdline''" w] reads_kept [of "''/proc/mounts''" w] by (metis (no_types))

end

text \<open>
  A verified writer also promises that success means the target starts with an image
  that passed the digest check.
\<close>

definition holds_image :: "(string \<Rightarrow> string) \<Rightarrow> string option \<Rightarrow> string \<Rightarrow> disks \<Rightarrow> bool" where
  "holds_image sha256 expected p w \<longleftrightarrow>
     (\<exists>d img. dk_dev w p = Some d \<and> take (length img) (dev_bytes d) = img \<and>
        verify_sha256 sha256 expected img = Ok ())"

locale verified_writer = slot_writer +
  fixes sha256 :: "string \<Rightarrow> string" and expected :: "string option"
  assumes write_verified: "put w = (Ok n, w') \<Longrightarrow> holds_image sha256 expected target w'"
begin

lemma write_verified_snd: "fst (put w) = Ok n \<Longrightarrow> holds_image sha256 expected target (snd (put w))"
  by (rule write_verified [of w n]) (simp add: prod_eq_iff)

lemma write_digest:
  assumes "put w = (Ok n, w')" and "expected = Some e" and "e \<noteq> []"
  shows "\<exists>d img. dk_dev w' target = Some d \<and> take (length img) (dev_bytes d) = img \<and>
    sha256 img = to_lowercase e"
  using write_verified [OF assms(1)] assms(2,3)
  by (fastforce simp: holds_image_def verify_sha256_def Let_def split: if_splits)

end

lemma flash_stream_writes:
  assumes "flash_stream is hashed off n d = (r, d')"
    and "take off (dev_bytes d) = hashed" and "off = length hashed"
  shows "dev_sync_err d' = dev_sync_err d \<and> (case r of
      Inl e \<Rightarrow> True
    | Inr (h, m) \<Rightarrow> take (length h) (dev_bytes d') = h \<and>
        (\<exists>cs. is = List.map Inr cs \<and> h = hashed @ concat cs \<and> m = n + of_nat (length (concat cs))))"
  using assms
proof (induction "is" hashed off n d rule: flash_stream.induct)
  case (3 chunk "is" hashed off n d)
  show ?case
  proof (cases "dev_write_all off chunk d")
    case (Pair w d1)
    show ?thesis
    proof (cases w)
      case (Inl e)
      with 3 Pair show ?thesis
        by (auto simp: dev_write_all_def split: if_splits)
    next
      case (Inr u)
      with Pair have d1: "d1 = d\<lparr>dev_bytes := overwrite off chunk (dev_bytes d)\<rparr>"
        by (auto simp: dev_write_all_def split: if_splits)
      have "length (take off (dev_bytes d)) = off"
        using "3.prems"(2,3) by simp
      then have "take (off + length chunk) (dev_bytes d1) = hashed @ chunk"
        using "3.prems"(2) by (simp add: d1 overwrite_def)
      moreover have rest: "flash_stream is (hashed @ chunk) (off + length chunk)
          (n + of_nat (length chunk)) d1 = (r, d')"
        using "3.prems"(1) Pair Inr by simp
      ultimately have IH: "dev_sync_err d' = dev_sync_err d1 \<and> (case r of
          Inl e \<Rightarrow> True
        | Inr (h, m) \<Rightarrow> take (length h) (dev_bytes d') = h \<and>
            (\<exists>cs. is = List.map Inr cs \<and> h = (hashed @ chunk) @ concat cs \<and>
               m = (n + of_nat (length chunk)) + of_nat (length (concat cs))))"
        using "3.prems"(3) by (intro "3.IH" [OF Pair [symmetric] Inr]) simp_all
      show ?thesis
      proof (cases r)
        case (Inl e)
        with IH d1 show ?thesis by simp
      next
        case (Inr hm)
        obtain h m where hm: "hm = (h, m)" by (cases hm)
        with IH Inr obtain cs where "is = List.map Inr cs" "h = (hashed @ chunk) @ concat cs"
          "m = (n + of_nat (length chunk)) + of_nat (length (concat cs))"
          by auto
        then have "Inr chunk # is = List.map Inr (chunk # cs) \<and> h = hashed @ concat (chunk # cs) \<and>
            m = n + of_nat (length (concat (chunk # cs)))"
          by (simp add: add.assoc)
        then have "\<exists>cs. Inr chunk # is = List.map Inr cs \<and> h = hashed @ concat cs \<and>
            m = n + of_nat (length (concat cs))"
          by (rule exI)
        moreover from IH Inr hm d1 have "take (length h) (dev_bytes d') = h"
          "dev_sync_err d' = dev_sync_err d"
          by simp_all
        ultimately show ?thesis by (simp only: Inr hm sum.case prod.case simp_thms)
      qed
    qed
  qed
qed auto

section \<open>The flashing routines meet the contract\<close>

lemma put_dev_simps [simp]:
  "dk_flags (put_dev p d w) = dk_flags w" "dk_links (put_dev p d w) = dk_links w"
  "dk_fs (put_dev p d w) = dk_fs w" "dk_dev (put_dev p d w) = (dk_dev w)(p \<mapsto> d)"
  by (simp_all add: put_dev_def)

lemma flash_full_image_shape:
  "(\<exists>e. flash_full_image get sha256 url p expected w = (Err e, w)) \<or>
   (\<exists>d st len items r d'. dev_open p w = Ok d \<and> get url = Response True st len items \<and>
      flash_stream items [] 0 0 d = (r, d') \<and>
      flash_full_image get sha256 url p expected w =
        ((case r of Inl e \<Rightarrow> Err e
          | Inr (h, n) \<Rightarrow> and_then (dev_sync d') (\<lambda>_. and_then (verify_sha256 sha256 expected h) (\<lambda>_. Ok 0))),
         put_dev p d' w))"
proof (cases "get url")
  case (Response ok st len items)
  show ?thesis
  proof (cases "ok \<and> (\<exists>d. dev_open p w = Ok d)")
    case True
    then obtain d where d: "dev_open p w = Ok d" by blast
    obtain r d' where run: "flash_stream items [] 0 0 d = (r, d')"
      by (cases "flash_stream items [] 0 0 d")
    have "flash_full_image get sha256 url p expected w =
        ((case r of Inl e \<Rightarrow> Err e
          | Inr (h, n) \<Rightarrow> and_then (dev_sync d') (\<lambda>_. and_then (verify_sha256 sha256 expected h) (\<lambda>_. Ok 0))),
         put_dev p d' w)"
      using True d Response run
      by (cases r; cases "dev_sync d'")
        (auto simp: flash_full_image_def Let_def split: sum.splits)
    with True d Response run show ?thesis by auto
  next
    case False
    with Response show ?thesis
      by (cases "dev_open p w") (auto simp: flash_full_image_def)
  qed
qed (simp add: flash_full_image_def)

lemma flash_full_image_verified:
  assumes "flash_full_image get sha256 url p expected w = (Ok n, w')"
  shows "n = 0 \<and> holds_image sha256 expected p w' \<and>
    (\<exists>st len cs d. get url = Response True st len (List.map Inr cs) \<and> dk_dev w' p = Some d \<and>
       take (length (concat cs)) (dev_bytes d) = concat cs)"
proof -
  from flash_full_image_shape [of get sha256 url p expected w] assms
  obtain d st len items h m d' where get: "get url = Response True st len items"
    and run: "flash_stream items [] 0 0 d = (Ok (h, m), d')"
    and w': "w' = put_dev p d' w" and n: "n = 0" and ver: "verify_sha256 sha256 expected h = Ok ()"
    by (fastforce simp: and_then_eq_Ok split: sum.splits prod.splits)
  from flash_stream_writes [OF run] obtain cs where "items = List.map Inr cs" "h = concat cs"
    "take (length h) (dev_bytes d') = h"
    by auto
  with get w' n ver show ?thesis
    by (auto simp: holds_image_def)
qed

lemma delta_download_frame:
  "delta_download get url f w = (r, w') \<Longrightarrow>
     dk_flags w' = dk_flags w \<and> dk_links w' = dk_links w \<and> dk_dev w' = dk_dev w \<and>
     fs_read_err (dk_fs w') = fs_read_err (dk_fs w) \<and>
     fs_write_err (dk_fs w') = fs_write_err (dk_fs w) \<and>
     fs_mkdir_err (dk_fs w') = fs_mkdir_err (dk_fs w) \<and>
     (\<forall>g. g \<noteq> f \<longrightarrow> fs_files (dk_fs w') g = fs_files (dk_fs w) g)"
  by (auto simp: delta_download_def dest!: fs_write_frameD
      split: http_reply.splits if_splits sum.splits prod.splits)

lemma write_patched_frame:
  "write_patched p img w = (r, w') \<Longrightarrow> w' = w \<or> (\<exists>d. w' = put_dev p d w)"
  by (auto simp: write_patched_def split: sum.splits prod.splits)

lemma write_patched_holds:
  assumes "write_patched p img w = (Ok u, w')" and "verify_sha256 sha256 expected img = Ok ()"
  shows "holds_image sha256 expected p w'"
  using assms
  by (auto simp: write_patched_def dev_write_all_def holds_image_def overwrite_def
      split: sum.splits prod.splits if_splits intro!: exI [of _ img])

lemma drop_tmp_simps [simp]:
  "fs_files (remove_file f fs) = (fs_files fs)(f := None)"
  "fs_read_err (remove_file f fs) = fs_read_err fs"
  "fs_dirs (remove_file f fs) = fs_dirs fs"
  "fs_write_err (remove_file f fs) = fs_write_err fs"
  "fs_mkdir_err (remove_file f fs) = fs_mkdir_err fs"
  by (simp_all add: remove_file_def)

lemma holds_image_fs [simp]: "holds_image sha256 e p (w\<lparr>dk_fs := fs\<rparr>) = holds_image sha256 e p w"
  by (simp add: holds_image_def)

text \<open>
  The three stages of a delta update: everything up to the check of the digest leaves the
  devices alone.
\<close>

lemma apply_delta_update_shape:
  fixes get sha256 bspatch url p expected w f
  defines "out \<equiv> apply_delta_update get sha256 bspatch (Inr f) url p expected w"
  obtains (early) e w1 where "out = (Err e, w1\<lparr>dk_fs := remove_file f (dk_fs w1)\<rparr>)"
      "\<exists>r. delta_download get url f w = (r, w1)"
  | (written) size delta img w1 r w2 where
      "delta_download get url f w = (Ok (size, delta), w1)"
      "patched_image sha256 bspatch expected delta w1 = Ok img"
      "write_patched p img w1 = (r, w2)"
      "out = (and_then r (\<lambda>_. Ok (of_nat (length img) - size)), w2\<lparr>dk_fs := remove_file f (dk_fs w2)\<rparr>)"
proof -
  obtain r w1 where dl: "delta_download get url f w = (r, w1)"
    by (cases "delta_download get url f w")
  show ?thesis
  proof (cases "\<exists>size delta img. r = Ok (size, delta) \<and> patched_image sha256 bspatch expected delta w1 = Ok img")
    case True
    then obtain size delta img where ok: "r = Ok (size, delta)"
      "patched_image sha256 bspatch expected delta w1 = Ok img"
      by blast
    obtain v w2 where wp: "write_patched p img w1 = (v, w2)"
      by (cases "write_patched p img w1")
    show ?thesis
      by (rule written [of size delta w1 img v w2])
        (use dl ok wp in \<open>cases v; simp add: out_def apply_delta_update_def\<close>)+
  next
    case False
    then have "\<exists>e. out = (Err e, w1\<lparr>dk_fs := remove_file f (dk_fs w1)\<rparr>)"
      using dl by (cases r) (auto simp: out_def apply_delta_update_def split: sum.splits)
    then obtain e where "out = (Err e, w1\<lparr>dk_fs := remove_file f (dk_fs w1)\<rparr>)" ..
    then show ?thesis by (rule early) (use dl in blast)
  qed
qed

interpretation full_writer: verified_writer
  "flash_full_image get sha256 url p expected" p "Inl e" sha256 expected
  for get sha256 url p expected e
proof
  fix w :: disks and q and f :: string and n w'
  note shape = flash_full_image_shape [of get sha256 url p expected w]
  show "dk_flags (snd (flash_full_image get sha256 url p expected w)) = dk_flags w"
    "dk_links (snd (flash_full_image get sha256 url p expected w)) = dk_links w"
    "fs_files (dk_fs (snd (flash_full_image get sha256 url p expected w))) f = fs_files (dk_fs w) f"
    "fs_read_err (dk_fs (snd (flash_full_image get sha256 url p expected w))) = fs_read_err (dk_fs w)"
    "fs_write_err (dk_fs (snd (flash_full_image get sha256 url p expected w))) = fs_write_err (dk_fs w) \<and>
     fs_mkdir_err (dk_fs (snd (flash_full_image get sha256 url p expected w))) = fs_mkdir_err (dk_fs w)"
    "q \<noteq> p \<Longrightarrow> dk_dev (snd (flash_full_image get sha256 url p expected w)) q = dk_dev w q"
    using shape by auto
  show "flash_full_image get sha256 url p expected w = (Ok n, w') \<Longrightarrow> holds_image sha256 expected p w'"
    by (simp add: flash_full_image_verified)
qed

lemma patched_image_verified:
  "patched_image sha256 bspatch expected delta w = Ok img \<Longrightarrow> verify_sha256 sha256 expected img = Ok ()"
  by (auto simp: patched_image_def and_then_eq_Ok)

interpretation delta_writer: verified_writer
  "apply_delta_update get sha256 bspatch tmp url p expected" p tmp sha256 expected
  for get sha256 bspatch tmp url p expected
proof
  fix w :: disks and q f and n w'
  let ?out = "apply_delta_update get sha256 bspatch tmp url p expected w"
  have "dk_flags (snd ?out) = dk_flags w \<and> dk_links (snd ?out) = dk_links w \<and>
    fs_read_err (dk_fs (snd ?out)) = fs_read_err (dk_fs w) \<and>
    (fs_write_err (dk_fs (snd ?out)) = fs_write_err (dk_fs w) \<and>
     fs_mkdir_err (dk_fs (snd ?out)) = fs_mkdir_err (dk_fs w)) \<and>
    (q \<noteq> p \<longrightarrow> dk_dev (snd ?out) q = dk_dev w q) \<and>
    (Inr f \<noteq> tmp \<longrightarrow> fs_files (dk_fs (snd ?out)) f = fs_files (dk_fs w) f) \<and>
    (?out = (Ok n, w') \<longrightarrow> holds_image sha256 expected p w')"
  proof (cases tmp)
    case (Inl e)
    then show ?thesis by (simp add: apply_delta_update_def)
  next
    case (Inr g)
    show ?thesis
    proof (cases rule: apply_delta_update_shape [of get sha256 bspatch g url p expected w])
      case (early e w1)
      with Inr delta_download_frame [of get url g w] show ?thesis by auto
    next
      case (written size delta img w1 r w2)
      note fr = delta_download_frame [OF written(1)] and wr = write_patched_frame [OF written(3)]
      have "r = Ok () \<Longrightarrow> holds_image sha256 expected p w2"
        using write_patched_holds [of p img w1 "()" w2] written(3) patched_image_verified [OF written(2)]
        by simp
      with Inr fr wr written(4) show ?thesis by (auto simp: and_then_eq_Ok)
    qed
  qed
  then show "dk_flags (snd ?out) = dk_flags w" "dk_links (snd ?out) = dk_links w"
    "fs_read_err (dk_fs (snd ?out)) = fs_read_err (dk_fs w)"
    "fs_write_err (dk_fs (snd ?out)) = fs_write_err (dk_fs w) \<and>
     fs_mkdir_err (dk_fs (snd ?out)) = fs_mkdir_err (dk_fs w)"
    "q \<noteq> p \<Longrightarrow> dk_dev (snd ?out) q = dk_dev w q"
    "Inr f \<noteq> tmp \<Longrightarrow> fs_files (dk_fs (snd ?out)) f = fs_files (dk_fs w) f"
    "?out = (Ok n, w') \<Longrightarrow> holds_image sha256 expected p w'"
    by simp_all
qed

lemma flash_image_cases:
  obtains (full) "flash_image http sha256 bspatch tmp url p expected delta fb w =
      flash_full_image (http 0) sha256 url p expected w" "\<not> delta"
  | (delta) r where "flash_image http sha256 bspatch tmp url p expected delta fb w =
      (r, snd (apply_delta_update (http 0) sha256 bspatch tmp url p expected w))"
      "\<And>n. r = Ok n \<Longrightarrow> fst (apply_delta_update (http 0) sha256 bspatch tmp url p expected w) = Ok n"
  | (fallback) full_url where "flash_image http sha256 bspatch tmp url p expected delta fb w =
      flash_full_image (http 1) sha256 full_url p expected
        (snd (apply_delta_update (http 0) sha256 bspatch tmp url p expected w))"
proof (cases "apply_delta_update (http 0) sha256 bspatch tmp url p expected w")
  case (Pair r w')
  then show thesis
    by (cases delta; cases r; cases fb) (auto simp: flash_image_def intro: that)
qed

interpretation image_writer: verified_writer
  "flash_image http sha256 bspatch tmp url p expected delta fb" p tmp sha256 expected
  for http sha256 bspatch tmp url p expected delta fb
proof
  fix w :: disks and q f and n w'
  let ?out = "flash_image http sha256 bspatch tmp url p expected delta fb w"
  have "dk_flags (snd ?out) = dk_flags w \<and> dk_links (snd ?out) = dk_links w \<and>
    fs_read_err (dk_fs (snd ?out)) = fs_read_err (dk_fs w) \<and>
    (fs_write_err (dk_fs (snd ?out)) = fs_write_err (dk_fs w) \<and>
     fs_mkdir_err (dk_fs (snd ?out)) = fs_mkdir_err (dk_fs w)) \<and>
    (q \<noteq> p \<longrightarrow> dk_dev (snd ?out) q = dk_dev w q) \<and>
    (Inr f \<noteq> tmp \<longrightarrow> fs_files (dk_fs (snd ?out)) f = fs_files (dk_fs w) f) \<and>
    (?out = (Ok n, w') \<longrightarrow> holds_image sha256 expected p w')"
  proof (cases rule: flash_image_cases [of http sha256 bspatch tmp url p expected delta fb w])
    case full
    then show ?thesis
      by (simp add: full_writer.write_flags full_writer.write_links full_writer.write_other
          full_writer.write_files [of _ "[]"] full_writer.write_reads full_writer.write_faults full_writer.write_verified)
  next
    case (delta r)
    then show ?thesis
      by (auto simp: delta_writer.write_flags delta_writer.write_links delta_writer.write_other
          delta_writer.write_files delta_writer.write_reads delta_writer.write_faults intro: delta_writer.write_verified_snd)
  next
    case (fallback full_url)
    then show ?thesis
      by (simp add: full_writer.write_flags full_writer.write_links full_writer.write_other
          full_writer.write_files [of _ "[]"] full_writer.write_reads full_writer.write_faults full_writer.write_verified
          delta_writer.write_flags delta_writer.write_links delta_writer.write_other
          delta_writer.write_files delta_writer.write_reads delta_writer.write_faults)
  qed
  then show "dk_flags (snd ?out) = dk_flags w" "dk_links (snd ?out) = dk_links w"
    "fs_read_err (dk_fs (snd ?out)) = fs_read_err (dk_fs w)"
    "fs_write_err (dk_fs (snd ?out)) = fs_write_err (dk_fs w) \<and>
     fs_mkdir_err (dk_fs (snd ?out)) = fs_mkdir_err (dk_fs w)"
    "q \<noteq> p \<Longrightarrow> dk_dev (snd ?out) q = dk_dev w q"
    "Inr f \<noteq> tmp \<Longrightarrow> fs_files (dk_fs (snd ?out)) f = fs_files (dk_fs w) f"
    "?out = (Ok n, w') \<Longrightarrow> holds_image sha256 expected p w'"
    by simp_all
qed

section \<open>Boot flags\<close>

text \<open>
  What the manual page of \<open>sgdisk\<close> promises for \<open>--attributes=N:set:2\<close> and
  \<open>--attributes=N:clear:2\<close>: a run that reports success has changed that bit of that
  partition and nothing else, a run that reports failure has changed nothing.
\<close>

definition sgdisk_doc :: "(string \<Rightarrow> sgdisk) \<Rightarrow> bool" where
  "sgdisk_doc sg \<longleftrightarrow> (\<forall>prog n fl.
     snd (sg prog (attr_args n ''set'') fl) =
       (if cmd_success (fst (sg prog (attr_args n ''set'') fl)) then fl(n := True) else fl) \<and>
     snd (sg prog (attr_args n ''clear'') fl) =
       (if cmd_success (fst (sg prog (attr_args n ''clear'') fl)) then fl(n := False) else fl))"

lemma sgdisk_docD:
  assumes "sgdisk_doc sg"
  shows "sg prog (attr_args n ''set'') fl = (c, fl') \<Longrightarrow> fl' = (if cmd_success c then fl(n := True) else fl)"
    and "sg prog (attr_args n ''clear'') fl = (c, fl') \<Longrightarrow> fl' = (if cmd_success c then fl(n := False) else fl)"
  using assms unfolding sgdisk_doc_def by (metis fst_conv snd_conv)+

lemma switch_frame:
  assumes "switch_boot_partition sg i w = (r, w')"
  shows "dk_dev w' = dk_dev w \<and> dk_links w' = dk_links w \<and>
    fs_read_err (dk_fs w') = fs_read_err (dk_fs w) \<and> fs_write_err (dk_fs w') = fs_write_err (dk_fs w) \<and>
    fs_mkdir_err (dk_fs w') = fs_mkdir_err (dk_fs w) \<and>
    (\<forall>f. f \<noteq> ''/tmp/boot.next'' \<longrightarrow> fs_files (dk_fs w') f = fs_files (dk_fs w) f)"
  using assms
  by (auto simp: switch_boot_partition_def Let_def fs_write_files_other
      split: option.splits prod.splits cmd_outcome.splits if_splits)

lemma switch_flags:
  assumes "sgdisk_doc sg" and "switch_boot_partition sg i w = (r, w')"
  shows "(\<exists>e. r = Err e \<and> (dk_flags w' = dk_flags w \<or> dk_flags w' = (dk_flags w)(other_slot i := False))) \<or>
    r = Ok () \<and> (\<exists>prog c. sgdisk_path w = Some prog \<and>
      c = fst (sg prog (attr_args (other_slot i) ''clear'') (dk_flags w)) \<and>
      dk_flags w' = (if cmd_success c then (dk_flags w)(other_slot i := False) else dk_flags w)(i := True))"
proof (cases "sgdisk_path w")
  case None
  with assms(2) show ?thesis by (auto simp: switch_boot_partition_def)
next
  case (Some prog)
  obtain c1 fl1 where s1: "sg prog (attr_args (other_slot i) ''clear'') (dk_flags w) = (c1, fl1)"
    by (cases "sg prog (attr_args (other_slot i) ''clear'') (dk_flags w)")
  obtain c2 fl2 where s2: "sg prog (attr_args i ''set'') fl1 = (c2, fl2)"
    by (cases "sg prog (attr_args i ''set'') fl1")
  have fl1: "fl1 = (if cmd_success c1 then (dk_flags w)(other_slot i := False) else dk_flags w)"
    using assms(1) s1 by (rule sgdisk_docD(2))
  have fl2: "fl2 = (if cmd_success c2 then fl1(i := True) else fl1)"
    using assms(1) s2 by (rule sgdisk_docD(1))
  have run: "(r, w') = (case c1 of SpawnErr e \<Rightarrow> (Err (OsError e), w\<lparr>dk_flags := fl1\<rparr>)
      | Exited _ _ _ \<Rightarrow> (case c2 of SpawnErr e \<Rightarrow> (Err (OsError e), w\<lparr>dk_flags := fl2\<rparr>)
         | Exited ok2 _ err2 \<Rightarrow> (let w2 = w\<lparr>dk_flags := fl2\<rparr> in
             if \<not> ok2 then (Err (OtherError (''Failed to set boot flag on partition '' @
                             show_word i @ '': '' @ err2)), w2)
             else (Ok (), w2\<lparr>dk_fs := snd (fs_write ''/tmp/boot.next'' (show_word i) (dk_fs w2))\<rparr>))))"
    unfolding assms(2) [symmetric] switch_boot_partition_def Some option.case s1 prod.case
    using s2 by (auto split: cmd_outcome.split)
  show ?thesis
  proof (cases c1)
    case (SpawnErr e)
    with run fl1 show ?thesis by simp
  next
    case (Exited ok1 out1 err1)
    with run fl1 fl2 Some s1 show ?thesis
      by (cases c2) (auto simp: Let_def split: if_splits)
  qed
qed

section \<open>The rollback record on disk\<close>

lemma path_parent_rollback_state: "path_parent ROLLBACK_STATE_FILE = Some ''/var/lib/keel''"
  by (simp add: path_parent_def ROLLBACK_STATE_FILE_def strip_slashes_def trim_end_matches_def Let_def)

lemma save_rollback_state_Ok:
  assumes "save_rollback_state js s w = (Ok u, w')"
    and "json_ok js s" and "fs_read_err (dk_fs w) ROLLBACK_STATE_FILE = None"
  shows "load_rollback_state js w' = s"
  using assms
  by (auto simp: save_rollback_state_def path_parent_rollback_state load_rollback_state_def
      create_dir_all_def fs_write_ok read_to_string_def json_ok_def
      split: option.splits prod.splits sum.splits)

lemma save_rollback_state_succeeds:
  assumes "fs_mkdir_err (dk_fs w) = Map.empty" and "fs_write_err (dk_fs w) = Map.empty"
    and "to_json js s = Ok d"
  shows "save_rollback_state js s w = (Ok (), w\<lparr>dk_fs := (dk_fs w)
    \<lparr>fs_dirs := fs_dirs (dk_fs w) \<union> set (path_prefixes ''/var/lib/keel''),
      fs_files := (fs_files (dk_fs w))(ROLLBACK_STATE_FILE \<mapsto> d)\<rparr>\<rparr>)"
  using assms
  by (simp add: save_rollback_state_def path_parent_rollback_state create_dir_all_def fs_write_def)

lemma save_rollback_state_frame:
  assumes "save_rollback_state js s w = (r, w')"
  shows "dk_dev w' = dk_dev w \<and> dk_links w' = dk_links w \<and> dk_flags w' = dk_flags w \<and>
    fs_read_err (dk_fs w') = fs_read_err (dk_fs w) \<and> fs_write_err (dk_fs w') = fs_write_err (dk_fs w) \<and>
    fs_mkdir_err (dk_fs w') = fs_mkdir_err (dk_fs w) \<and>
    (\<forall>f. f \<noteq> ROLLBACK_STATE_FILE \<longrightarrow> fs_files (dk_fs w') f = fs_files (dk_fs w) f)"
  using assms
  by (auto simp: save_rollback_state_def path_parent_rollback_state
      dest!: create_dir_all_frameD fs_write_frameD split: sum.splits prod.splits)

lemma load_rollback_state_cong:
  "fs_files (dk_fs w') ROLLBACK_STATE_FILE = fs_files (dk_fs w) ROLLBACK_STATE_FILE \<Longrightarrow>
   fs_read_err (dk_fs w') = fs_read_err (dk_fs w) \<Longrightarrow>
     load_rollback_state js w' = load_rollback_state js w"
  by (simp add: load_rollback_state_def read_to_string_cong [of "dk_fs w'" _ "dk_fs w"])

lemma boot_next_not_state: "ROLLBACK_STATE_FILE \<noteq> ''/tmp/boot.next''"
  by (simp add: ROLLBACK_STATE_FILE_def)

lemma switch_keeps_rollback_state:
  "switch_boot_partition sg i w = (r, w') \<Longrightarrow> load_rollback_state js w' = load_rollback_state js w"
  using switch_frame [of sg i w r w'] boot_next_not_state by (auto intro!: load_rollback_state_cong)

lemma record_active_Ok:
  assumes "record_active_partition_for_rollback js stamp w = (Ok u, w')"
    and "\<forall>s. json_ok js s" and "fs_read_err (dk_fs w) ROLLBACK_STATE_FILE = None"
  shows "\<exists>a. get_active_partition w = Ok a \<and>
    load_rollback_state js w' = (load_rollback_state js w)
      \<lparr>previous_partition := Some (part_index a), last_update_time := Some stamp\<rparr>"
  using assms save_rollback_state_Ok
  by (fastforce simp: record_active_partition_for_rollback_def split: sum.splits)

lemma rollback_Ok:
  assumes "rollback_to_previous_partition js sg w = (Ok u, w')" and "sgdisk_doc sg"
    and "\<forall>s. json_ok js s" and "fs_read_err (dk_fs w) ROLLBACK_STATE_FILE = None"
  shows "\<exists>i prog c. previous_partition (load_rollback_state js w) = Some i \<and>
    sgdisk_path w = Some prog \<and>
    c = fst (sg prog (attr_args (other_slot i) ''clear'') (dk_flags w)) \<and>
    dk_flags w' = (if cmd_success c then (dk_flags w)(other_slot i := False) else dk_flags w)(i := True) \<and>
    load_rollback_state js w' =
      (load_rollback_state js w)\<lparr>previous_partition := None, boot_counter := 0\<rparr> \<and>
    dk_dev w' = dk_dev w"
proof -
  from assms(1) obtain i w1 where i: "previous_partition (load_rollback_state js w) = Some i"
    and sw: "switch_boot_partition sg i w = (Ok (), w1)"
    and sv: "save_rollback_state js
      ((load_rollback_state js w1)\<lparr>previous_partition := None, boot_counter := 0\<rparr>) w1 = (Ok u, w')"
    by (auto simp: rollback_to_previous_partition_def split: option.splits prod.splits sum.splits)
  note fr = switch_frame [OF sw] and st = switch_keeps_rollback_state [OF sw, of js]
  have "load_rollback_state js w' =
      (load_rollback_state js w)\<lparr>previous_partition := None, boot_counter := 0\<rparr>"
    using save_rollback_state_Ok [OF sv] assms(3,4) fr st by simp
  with i switch_flags [OF assms(2) sw] save_rollback_state_frame [OF sv] fr show ?thesis
    by auto
qed

section \<open>A node without faults\<close>

text \<open>
  What it takes for the boot flags to be switched: \<open>sgdisk\<close> is installed, does what its
  manual says and reports success, and the file system has no faults.
\<close>

definition healthy_fs :: "fsys \<Rightarrow> bool" where
  "healthy_fs fs \<longleftrightarrow> fs_read_err fs = Map.empty \<and> fs_write_err fs = Map.empty \<and> fs_mkdir_err fs = Map.empty"

definition sgdisk_runs :: "(string \<Rightarrow> sgdisk) \<Rightarrow> bool" where
  "sgdisk_runs sg \<longleftrightarrow> sgdisk_doc sg \<and>
     (\<forall>prog n verb fl. verb \<in> {''set'', ''clear''} \<longrightarrow> cmd_success (fst (sg prog (attr_args n verb) fl)))"

definition has_sgdisk :: "fsys \<Rightarrow> bool" where
  "has_sgdisk fs \<longleftrightarrow> fs_files fs ''/usr/sbin/sgdisk'' \<noteq> None \<or> fs_files fs ''/sbin/sgdisk'' \<noteq> None"

lemma switch_runs:
  assumes "sgdisk_runs sg" "has_sgdisk (dk_fs w)"
  obtains w' where "switch_boot_partition sg i w = (Ok (), w')" "dk_flags w' = ((dk_flags w)(other_slot i := False))(i := True)"
proof -
  have "sgdisk_path w \<noteq> None" using assms(2) by (auto simp: sgdisk_path_def has_sgdisk_def path_exists_def)
  then obtain prog where p: "sgdisk_path w = Some prog" by blast
  have ok: "\<exists>out err. fst (sg prog (attr_args n verb) fl) = Exited True out err" if "verb \<in> {''set'', ''clear''}" for n verb fl
  proof (cases "fst (sg prog (attr_args n verb) fl)")
    case (Exited ok out err)
    then have "ok" using assms(1) that by (metis cmd_success.simps(1) sgdisk_runs_def)
    then show ?thesis using Exited by simp
  next
    case (SpawnErr e)
    then show ?thesis using assms(1) that by (metis cmd_success.simps(2) sgdisk_runs_def)
  qed
  obtain o1 e1 fl1 where c1: "sg prog (attr_args (other_slot i) ''clear'') (dk_flags w) = (Exited True o1 e1, fl1)"
    using ok [of "''clear''" "other_slot i" "dk_flags w"] by (cases "sg prog (attr_args (other_slot i) ''clear'') (dk_flags w)") auto
  obtain o2 e2 fl2 where c2: "sg prog (attr_args i ''set'') fl1 = (Exited True o2 e2, fl2)"
    using ok [of "''set''" i fl1] by (cases "sg prog (attr_args i ''set'') fl1") auto
  obtain w' where sw: "switch_boot_partition sg i w = (Ok (), w')"
    using p c1 c2 by (simp add: switch_boot_partition_def Let_def)
  have doc: "sgdisk_doc sg" using assms(1) by (simp add: sgdisk_runs_def)
  have "dk_flags w' = ((dk_flags w)(other_slot i := False))(i := True)"
    using switch_flags [OF doc sw] p c1 by auto
  then show thesis using that sw by blast
qed

lemma rollback_runs:
  assumes "sgdisk_runs sg" "has_sgdisk (dk_fs w)" "healthy_fs (dk_fs w)" "\<forall>st. json_ok js st"
    and "previous_partition (load_rollback_state js w) = Some i"
  obtains w' where "rollback_to_previous_partition js sg w = (Ok (), w')" "dk_flags w' i" "\<not> dk_flags w' (other_slot i)"
    "dk_dev w' = dk_dev w" "previous_partition (load_rollback_state js w') = None"
proof -
  obtain w1 where sw: "switch_boot_partition sg i w = (Ok (), w1)" "dk_flags w1 = ((dk_flags w)(other_slot i := False))(i := True)"
    by (rule switch_runs [OF assms(1,2)])
  note fr = switch_frame [OF sw(1)]
  let ?st = "(load_rollback_state js w1)\<lparr>previous_partition := None, boot_counter := 0\<rparr>"
  have "json_ok js ?st" using assms(4) by blast
  then obtain d where d: "to_json js ?st = Ok d" by (auto simp: json_ok_def split: sum.splits)
  obtain w' where sv: "save_rollback_state js ?st w1 = (Ok (), w')"
    using save_rollback_state_succeeds [OF _ _ d, of w1] fr assms(3) by (simp add: healthy_fs_def)
  have st: "load_rollback_state js w' = ?st"
    using save_rollback_state_Ok [OF sv \<open>json_ok js ?st\<close>] assms(3) fr by (simp add: healthy_fs_def)
  note fr' = save_rollback_state_frame [OF sv]
  show thesis
  proof (rule that)
    show "rollback_to_previous_partition js sg w = (Ok (), w')" using sw(1) sv assms(5) by (simp add: rollback_to_previous_partition_def)
    show "dk_flags w' i" "\<not> dk_flags w' (other_slot i)" using sw(2) fr' by simp_all
    show "dk_dev w' = dk_dev w" using fr fr' by simp
    show "previous_partition (load_rollback_state js w') = None" using st by simp
  qed
qed

section \<open>A node for the witnesses\<close>

text \<open>
  A node booted from slot A of \<open>/dev/sda\<close>, with an \<open>sgdisk\<close> that reads its arguments
  the way the manual page describes.
\<close>

definition demo_device :: "string \<Rightarrow> device" where
  "demo_device b = \<lparr>dev_bytes = b, dev_limit = 4, dev_limit_err = ''No space left on device'',
     dev_open_err = None, dev_read_err = None, dev_sync_err = None\<rparr>"

definition demo_disks :: disks where
  "demo_disks =
     \<lparr>dk_fs = \<lparr>fs_files = [''/proc/cmdline'' \<mapsto> ''quiet root=/dev/sda2'', ''/sbin/sgdisk'' \<mapsto> []],
        fs_dirs = {}, fs_read_err = Map.empty, fs_write_err = Map.empty, fs_mkdir_err = Map.empty\<rparr>,
      dk_links = (\<lambda>_. Err enoent),
      dk_dev = [''/dev/sda2'' \<mapsto> demo_device ''AAAA'', ''/dev/sda3'' \<mapsto> demo_device ''BBBB''],
      dk_flags = (\<lambda>n. n = 2)\<rparr>"

definition demo_sgdisk :: "string \<Rightarrow> sgdisk" where
  "demo_sgdisk prog args fl =
     (case args of
        [a, disk] \<Rightarrow>
          (case split_on CHR '':'' a of
             [n, verb, attr] \<Rightarrow>
               (case map_option parse_u32 (strip_prefix ''--attributes='' n) of
                  Some (Some k) \<Rightarrow> (Exited True [] [], fl(k := verb = ''set''))
                | _ \<Rightarrow> (Exited False [] ''bad partition'', fl))
           | _ \<Rightarrow> (Exited False [] ''bad attribute'', fl))
      | _ \<Rightarrow> (Exited False [] ''usage'', fl))"

lemma split_on_first: "d \<notin> set a \<Longrightarrow> split_on d (a @ d # b) = a # split_on d b"
  by (induction a) auto

lemma colon_not_in_show_word: "CHR '':'' \<notin> set (show_word n)"
  using is_digit_show_word [of "CHR '':''" n] by (auto simp: is_digit_def)

lemma demo_sgdisk_run:
  "CHR '':'' \<notin> set verb \<Longrightarrow>
     demo_sgdisk prog (attr_args n verb) fl = (Exited True [] [], fl(n := verb = ''set''))"
proof -
  assume v: "CHR '':'' \<notin> set verb"
  let ?a = "''--attributes='' @ show_word n"
  have "CHR '':'' \<notin> set ?a"
    using colon_not_in_show_word by simp
  then have "split_on CHR '':'' (?a @ CHR '':'' # verb @ CHR '':'' # ''2'') = ?a # split_on CHR '':'' (verb @ CHR '':'' # ''2'')"
    by (rule split_on_first)
  also have "split_on CHR '':'' (verb @ CHR '':'' # ''2'') = [verb, ''2'']"
    using split_on_first [OF v, of "''2''"] by simp
  finally have "split_on CHR '':'' (?a @ CHR '':'' # verb @ CHR '':'' # ''2'') = [?a, verb, ''2'']" .
  then show ?thesis
    by (simp add: demo_sgdisk_def attr_args_def)
qed

lemma demo_sgdisk_doc: "sgdisk_doc demo_sgdisk"
  by (simp add: sgdisk_doc_def demo_sgdisk_run)

lemma demo_sgdisk_runs: "sgdisk_runs demo_sgdisk"
  by (auto simp: sgdisk_runs_def demo_sgdisk_doc demo_sgdisk_run)

lemmas disk_eval = demo_disks_def demo_device_def get_active_partition_def read_to_string_def
  split_whitespace_def is_ws_def parse_device_path_def trailing_digits_def is_digit_def
  starts_with_def parse_u32_def parse_uint_def digits_val_def digit_val_def

lemma demo_active: "get_active_partition demo_disks = Ok \<lparr>part_device = ''/dev/sda2'', part_index = 2\<rparr>"
  by (simp add: disk_eval)

section \<open>Properties\<close>

text \<open>
  The partition chosen for writing is slot 2 or 3, never the partition the node runs
  from, neither by number nor by device path; on a disk whose name has no digits it is
  the other slot of the same disk.
\<close>

lemma inactive_partition:
  assumes "get_active_partition w = Ok a"
  shows "\<exists>p. get_inactive_partition w = Ok p \<and> part_index p \<in> {2, 3} \<and>
    part_index p \<noteq> part_index a \<and> part_device p \<noteq> part_device a \<and>
    (\<forall>disk. part_device a = disk @ show_word (part_index a) \<and> (\<forall>c\<in>set disk. \<not> is_digit c) \<longrightarrow>
       part_device p = disk @ show_word (part_index p))"
proof -
  let ?base = "takeWhile (\<lambda>c. \<not> is_digit c) (part_device a)"
  let ?p = "\<lparr>part_device = ?base @ show_word (other_slot (part_index a)),
    part_index = other_slot (part_index a)\<rparr>"
  have p: "get_inactive_partition w = Ok ?p"
    by (simp add: get_inactive_partition_def assms Let_def)
  have "part_device ?p \<noteq> part_device a"
    using inactive_device_neq [OF assms p] .
  moreover have "?base = disk"
    if "part_device a = disk @ show_word (part_index a)" "\<forall>c\<in>set disk. \<not> is_digit c" for disk
  proof -
    have "takeWhile (\<lambda>c. \<not> is_digit c) (show_word (part_index a)) = []"
      using is_digit_show_word [of _ "part_index a"] by (cases "show_word (part_index a)") auto
    then show ?thesis
      unfolding that(1) using that(2) by (simp add: takeWhile_append2)
  qed
  ultimately show ?thesis
    using p other_slot_range [of "part_index a"] by (intro exI [of _ ?p]) auto
qed

lemma inactive_partition_witness:
  "\<exists>p. get_inactive_partition demo_disks = Ok p \<and> part_index p \<noteq> 2 \<and> part_device p \<noteq> ''/dev/sda2''"
  using inactive_partition [OF demo_active] by auto

text \<open>
  On a disk whose name itself contains digits the chosen path is not a partition of
  that disk: booted from \<open>/dev/nvme0n1p2\<close>, the node would write to \<open>/dev/nvme3\<close>.
\<close>

lemma inactive_partition_nvme:
  "get_inactive_partition (demo_disks\<lparr>dk_fs := (dk_fs demo_disks)
     \<lparr>fs_files := [''/proc/cmdline'' \<mapsto> ''root=/dev/nvme0n1p2'']\<rparr>\<rparr>) =
     Ok \<lparr>part_device = ''/dev/nvme3'', part_index = 3\<rparr>"
  by (simp add: disk_eval get_inactive_partition_def other_slot_def SLOT_A_INDEX_def SLOT_B_INDEX_def
      show_word_def show_nat.simps digit_char_def Let_def)

text \<open>
  C7. Flashing, by a full image, by a delta or by a delta with fallback, and whatever goes
  wrong: no device but the target and no file but the temporary one changes, and the boot
  flags stay. When it reports success and a digest was asked for, the target begins with
  an image that has this digest.
\<close>

theorem flash_image_safe:
  assumes "flash_image http sha256 bspatch tmp url p expected delta fb w = (r, w')"
  shows "dk_flags w' = dk_flags w \<and> (\<forall>q. q \<noteq> p \<longrightarrow> dk_dev w' q = dk_dev w q) \<and>
    (\<forall>f. tmp \<noteq> Inr f \<longrightarrow> fs_files (dk_fs w') f = fs_files (dk_fs w) f) \<and>
    (\<forall>n e. r = Ok n \<and> expected = Some e \<and> e \<noteq> [] \<longrightarrow>
       (\<exists>d img. dk_dev w' p = Some d \<and> take (length img) (dev_bytes d) = img \<and>
          sha256 img = to_lowercase e))"
proof -
  note assms' = arg_cong [where f = snd, OF assms, simplified]
  have "dk_flags w' = dk_flags w" "\<forall>q. q \<noteq> p \<longrightarrow> dk_dev w' q = dk_dev w q"
    "\<forall>f. tmp \<noteq> Inr f \<longrightarrow> fs_files (dk_fs w') f = fs_files (dk_fs w) f"
    using image_writer.write_flags image_writer.write_other image_writer.write_files
    unfolding assms' [symmetric] by metis+
  moreover have "\<exists>d img. dk_dev w' p = Some d \<and> take (length img) (dev_bytes d) = img \<and>
      sha256 img = to_lowercase e" if "r = Ok n" "expected = Some e" "e \<noteq> []" for n e
    using image_writer.write_digest [OF assms [unfolded that(1)] that(2,3)] .
  ultimately show ?thesis by blast
qed

theorem flash_image_safe_witness:
  "let out = flash_image (\<lambda>_ _. Response True ''200 OK'' (Some 2) [Ok ''C'', Ok ''D'']) (\<lambda>b. ''0'' @ show_nat (length b))
     (\<lambda>_ _. Err []) (Err []) ''http://img'' ''/dev/sda3'' (Some ''02'') False None demo_disks
   in fst out = Ok 0 \<and> dk_dev (snd out) ''/dev/sda2'' = Some (demo_device ''AAAA'') \<and>
      (\<exists>d img. dk_dev (snd out) ''/dev/sda3'' = Some d \<and> take (length img) (dev_bytes d) = img \<and> length img = 2)"
proof -
  let ?out = "flash_image (\<lambda>_ _. Response True ''200 OK'' (Some 2) [Ok ''C'', Ok ''D'']) (\<lambda>b. ''0'' @ show_nat (length b))
     (\<lambda>_ _. Err []) (Err []) ''http://img'' ''/dev/sda3'' (Some ''02'') False None demo_disks"
  have two: "''2'' = show_nat 2"
    by (simp add: show_nat.simps digit_char_def)
  have low: "to_lowercase ''02'' = ''02''"
    by (simp add: to_lowercase_def to_lower_char_def)
  have ok: "fst ?out = Ok 0"
    by (simp add: flash_image_def flash_full_image_def dev_open_def demo_disks_def demo_device_def
        dev_write_all_def overwrite_def dev_sync_def verify_sha256_def low show_nat.simps digit_char_def Let_def)
  note safe = flash_image_safe [OF prod.collapse [symmetric], of "\<lambda>_ _. Response True ''200 OK'' (Some 2) [Ok ''C'', Ok ''D'']"
      "\<lambda>b. ''0'' @ show_nat (length b)" "\<lambda>_ _. Err []" "Err []" "''http://img''" "''/dev/sda3''" "Some ''02''" False None demo_disks]
  have "dk_dev (snd ?out) ''/dev/sda2'' = dk_dev demo_disks ''/dev/sda2''"
    using safe by simp
  moreover obtain d img where "dk_dev (snd ?out) ''/dev/sda3'' = Some d" "take (length img) (dev_bytes d) = img"
    "''0'' @ show_nat (length img) = to_lowercase ''02''"
    using safe ok by fastforce
  moreover from this(3) have "show_nat (length img) = show_nat 2"
    by (simp add: low two [symmetric])
  then have "length img = 2"
    by simp
  moreover have "dk_dev demo_disks ''/dev/sda2'' = Some (demo_device ''AAAA'')"
    by (simp add: demo_disks_def)
  ultimately show ?thesis
    unfolding Let_def using ok by metis
qed

text \<open>
  A delta update that reports invalid data (a digest mismatch, or an active partition
  that cannot be identified) has written to no device: the patched image is verified
  before the first byte is written.
\<close>

lemma delta_mismatch_writes_nothing:
  assumes "apply_delta_update get sha256 bspatch tmp url p expected w = (Err (InvalidData m), w')"
  shows "dk_dev w' = dk_dev w"
proof (cases tmp)
  case (Inl e)
  with assms show ?thesis by (simp add: apply_delta_update_def)
next
  case (Inr f)
  show ?thesis
  proof (cases rule: apply_delta_update_shape [of get sha256 bspatch f url p expected w])
    case (early e w1)
    with assms Inr delta_download_frame [of get url f w] show ?thesis by auto
  next
    case (written size delta img w1 r w2)
    with assms Inr have "r = Err (InvalidData m)"
      by (cases r) simp_all
    with written(3) show ?thesis
      by (auto simp: write_patched_def dev_open_def dev_write_all_def dev_sync_def
          split: sum.splits option.splits if_splits)
  qed
qed

lemma delta_mismatch_writes_nothing_witness:
  "let out = apply_delta_update (\<lambda>_. Response True ''200 OK'' (Some 1) [Ok ''x'']) (\<lambda>b. ''1'')
     (\<lambda>old delta. Ok (old @ delta)) (Ok ''/tmp/d'') ''http://delta'' ''/dev/sda3'' (Some ''2'') demo_disks
   in fst out = Err (InvalidData ''SHA256 mismatch: expected 2, got 1'') \<and>
      dk_dev (snd out) = dk_dev demo_disks"
proof -
  let ?out = "apply_delta_update (\<lambda>_. Response True ''200 OK'' (Some 1) [Ok ''x'']) (\<lambda>b. ''1'')
     (\<lambda>old delta. Ok (old @ delta)) (Ok ''/tmp/d'') ''http://delta'' ''/dev/sda3'' (Some ''2'') demo_disks"
  have err: "fst ?out = Err (InvalidData ''SHA256 mismatch: expected 2, got 1'')"
    by (simp add: apply_delta_update_def delta_download_def fs_write_def patched_image_def dev_read_def
        verify_sha256_def to_lowercase_def to_lower_char_def disk_eval Let_def)
  then have "?out = (Err (InvalidData ''SHA256 mismatch: expected 2, got 1''), snd ?out)"
    by (metis prod.collapse)
  from delta_mismatch_writes_nothing [OF this] err show ?thesis
    by (simp add: Let_def)
qed

text \<open>
  The number of bytes a successful delta update reports as saved is the difference
  between the new image and the announced length of the delta, reduced modulo \<open>2 ^ 64\<close>:
  it is the true saving only when the delta is not the longer of the two.
\<close>

lemma delta_saving_wraps:
  assumes "apply_delta_update get sha256 bspatch (Ok f) url p expected w = (Ok n, w')"
  shows "\<exists>st len items delta old img. get url = Response True st len items \<and>
    body_bytes items = Ok delta \<and> bspatch old delta = Ok img \<and>
    uint n = (int (length img) - uint (unwrap_or 0 len)) mod 2 ^ 64"
proof (cases rule: apply_delta_update_shape [of get sha256 bspatch f url p expected w])
  case (early e w1)
  with assms show ?thesis by simp
next
  case (written size delta img w1 r w2)
  from written(1) obtain st len items where "get url = Response True st len items"
    "body_bytes items = Ok delta" "size = unwrap_or 0 len"
    by (auto simp: delta_download_def split: http_reply.splits if_splits sum.splits prod.splits)
  moreover from written(2) obtain old where "bspatch old delta = Ok img"
    by (auto simp: patched_image_def and_then_eq_Ok)
  moreover from written(4) assms have "n = of_nat (length img) - size"
    by (cases r) auto
  then have "uint n = (int (length img) - uint size) mod 2 ^ 64"
    by (simp add: uint_word_ariths unsigned_of_nat take_bit_eq_mod zmod_int mod_diff_left_eq)
  ultimately show ?thesis by blast
qed

lemma delta_saving_wraps_witness:
  "\<exists>(n :: u64) w'. apply_delta_update (\<lambda>_. Response True ''200 OK'' (Some 9) [Ok ''123456789'']) (\<lambda>b. b)
     (\<lambda>old delta. Ok ''DDDD'') (Ok ''/tmp/d'') ''http://delta'' ''/dev/sda3'' None demo_disks = (Ok n, w') \<and>
     uint n = 2 ^ 64 - 5"
proof -
  let ?get = "\<lambda>_. Response True ''200 OK'' (Some 9) [Ok ''123456789'']"
  let ?out = "apply_delta_update ?get (\<lambda>b. b)
     (\<lambda>old delta. Ok ''DDDD'') (Ok ''/tmp/d'') ''http://delta'' ''/dev/sda3'' None demo_disks"
  have "\<exists>n. fst ?out = Ok n"
    by (simp add: apply_delta_update_def delta_download_def fs_write_def patched_image_def dev_read_def
        verify_sha256_def write_patched_def dev_open_def dev_write_all_def dev_sync_def disk_eval Let_def)
  then obtain n where "?out = (Ok n, snd ?out)"
    by (metis prod.collapse)
  with delta_saving_wraps [OF this] show ?thesis
    by auto
qed

text \<open>
  C8. A successful switch flags the target slot for boot. It also removes the flag from
  the other slot, provided that run of \<open>sgdisk\<close> succeeded (its failure is only logged);
  no other partition's flag, no device and no file but the boot marker changes.
\<close>

theorem switch_boot_partition_effect:
  assumes "sgdisk_doc sg" and "switch_boot_partition sg i w = (Ok u, w')"
  shows "\<exists>prog. sgdisk_path w = Some prog \<and> dk_flags w' i \<and>
    (cmd_success (fst (sg prog (attr_args (other_slot i) ''clear'') (dk_flags w))) \<longrightarrow>
       \<not> dk_flags w' (other_slot i)) \<and>
    (\<forall>n. n \<noteq> i \<and> n \<noteq> other_slot i \<longrightarrow> dk_flags w' n = dk_flags w n) \<and>
    dk_dev w' = dk_dev w \<and>
    (\<forall>f. f \<noteq> ''/tmp/boot.next'' \<longrightarrow> fs_files (dk_fs w') f = fs_files (dk_fs w) f)"
  using switch_flags [OF assms] switch_frame [OF assms(2)] by auto

lemma demo_switch_Ok: "fst (switch_boot_partition demo_sgdisk i demo_disks) = Ok ()"
  by (simp add: switch_boot_partition_def sgdisk_path_def path_exists_def demo_disks_def
      demo_sgdisk_run Let_def)

theorem switch_boot_partition_effect_witness:
  "dk_flags (snd (switch_boot_partition demo_sgdisk 3 demo_disks)) 3 \<and>
   \<not> dk_flags (snd (switch_boot_partition demo_sgdisk 3 demo_disks)) 2"
proof -
  have "switch_boot_partition demo_sgdisk 3 demo_disks =
      (Ok (), snd (switch_boot_partition demo_sgdisk 3 demo_disks))"
    by (metis demo_switch_Ok prod.collapse)
  from switch_boot_partition_effect [OF demo_sgdisk_doc this] show ?thesis
    by (auto simp: demo_sgdisk_run other_slot_def SLOT_A_INDEX_def)
qed

text \<open>
  The switch clears the old slot before it flags the new one: when the second run of
  \<open>sgdisk\<close> fails after the first succeeded, the call reports an error and neither slot is
  flagged for boot.
\<close>

lemma switch_failure_leaves_no_boot_flag:
  assumes "sgdisk_doc sg" and "i \<in> {2, 3}" and "sgdisk_path w = Some prog"
    and "\<not> dk_flags w i"
    and "sg prog (attr_args (other_slot i) ''clear'') (dk_flags w) = (Exited True o1 e1, fl)"
    and "\<not> cmd_success (fst (sg prog (attr_args i ''set'') fl))"
  shows "\<exists>e w'. switch_boot_partition sg i w = (Err e, w') \<and> \<not> dk_flags w' 2 \<and> \<not> dk_flags w' 3"
proof -
  obtain c fl2 where set: "sg prog (attr_args i ''set'') fl = (c, fl2)"
    by (cases "sg prog (attr_args i ''set'') fl")
  have fl: "fl = (dk_flags w)(other_slot i := False)"
    using sgdisk_docD(2) [OF assms(1), OF assms(5)] by simp
  moreover have "\<not> cmd_success c"
    using assms(6) unfolding set by simp
  with sgdisk_docD(1) [OF assms(1), OF set] have "fl2 = fl"
    by simp
  ultimately have no: "\<not> fl2 2 \<and> \<not> fl2 3"
    using assms(2,4) by (auto simp: other_slot_def SLOT_A_INDEX_def SLOT_B_INDEX_def)
  show ?thesis
  proof (cases c)
    case (SpawnErr e)
    with no show ?thesis by (simp add: switch_boot_partition_def assms(3,5) set)
  next
    case (Exited ok out err)
    with \<open>\<not> cmd_success c\<close> no show ?thesis
      by (simp add: switch_boot_partition_def assms(3,5) set Let_def)
  qed
qed

lemma switch_failure_leaves_no_boot_flag_witness:
  "\<exists>sg e w'. switch_boot_partition sg 3 demo_disks = (Err e, w') \<and> \<not> dk_flags w' 2 \<and> \<not> dk_flags w' 3"
proof -
  define sg :: "string \<Rightarrow> sgdisk" where
    "sg = (\<lambda>prog args fl. if args = attr_args 3 ''set'' then (Exited False [] ''locked'', fl)
       else demo_sgdisk prog args fl)"
  have "attr_args n ''clear'' \<noteq> attr_args 3 ''set''" for n
  proof
    assume "attr_args n ''clear'' = attr_args 3 ''set''"
    then have "(\<lambda>_. True)(n := False) = (\<lambda>_. True)(3 := True)"
      using demo_sgdisk_run [of "''clear''" "[]" n "\<lambda>_. True"]
        demo_sgdisk_run [of "''set''" "[]" 3 "\<lambda>_. True"] by simp
    from fun_cong [OF this, of n] show False by (simp split: if_splits)
  qed
  then have clear: "sg p (attr_args n ''clear'') fl = (Exited True [] [], fl(n := False))" for p n fl
    by (simp add: sg_def demo_sgdisk_run)
  have set: "sg p (attr_args n ''set'') fl =
      (if attr_args n ''set'' = attr_args 3 ''set'' then (Exited False [] ''locked'', fl)
       else (Exited True [] [], fl(n := True)))" for p n fl
    by (simp add: sg_def demo_sgdisk_run)
  have doc: "sgdisk_doc sg"
    by (simp add: sgdisk_doc_def clear set)
  have "sgdisk_path demo_disks = Some ''/sbin/sgdisk''" "\<not> dk_flags demo_disks 3"
    by (simp_all add: sgdisk_path_def path_exists_def demo_disks_def)
  then show ?thesis
    using switch_failure_leaves_no_boot_flag [OF doc, of 3 demo_disks "''/sbin/sgdisk''"] clear set
    by (intro exI [of _ sg]) simp
qed

text \<open>
  Rolling back returns to the partition recorded before the update: after a recorded
  active slot, and as long as nobody else writes the rollback record, a successful
  rollback flags that slot for boot, clears the record and the boot counter, and a second
  rollback is refused.
\<close>

lemma rollback_restores_recorded:
  assumes "record_active_partition_for_rollback js stamp w = (Ok u, w1)"
    and "get_active_partition w = Ok a"
    and "load_rollback_state js w2 = load_rollback_state js w1"
    and "rollback_to_previous_partition js sg w2 = (Ok v, w3)"
    and "sgdisk_doc sg" and "\<forall>s. json_ok js s"
    and "fs_read_err (dk_fs w) ROLLBACK_STATE_FILE = None"
    and "fs_read_err (dk_fs w2) ROLLBACK_STATE_FILE = None"
  shows "dk_flags w3 (part_index a) \<and> dk_dev w3 = dk_dev w2 \<and> \<not> is_boot_loop js w3 \<and>
    rollback_to_previous_partition js sg w3 =
      (Err (NotFound ''No previous partition recorded for rollback''), w3)"
proof -
  have "previous_partition (load_rollback_state js w2) = Some (part_index a)"
    using record_active_Ok [OF assms(1,6,7)] assms(2,3) by auto
  with rollback_Ok [OF assms(4-6,8)] show ?thesis
    by (auto simp: rollback_to_previous_partition_def is_boot_loop_def get_boot_counter_def
        MAX_BOOT_ATTEMPTS_def)
qed

text \<open>A JSON codec for the rollback record that round-trips, for the witness.\<close>

fun enc_opt :: "string option \<Rightarrow> string" where
  "enc_opt None = ''n''"
| "enc_opt (Some s) = ''s'' @ s"

definition demo_rollback_json :: "rollback_state json" where
  "demo_rollback_json =
     \<lparr>to_json = \<lambda>s. Ok (enc_opt (map_option show_word (previous_partition s)) @ '':'' @
        show_word (boot_counter s) @ '':'' @ enc_opt (last_update_time s)),
      from_json = \<lambda>d. (case split_once '':'' d of
          None \<Rightarrow> Err ''e''
        | Some (a, r) \<Rightarrow> (case split_once '':'' r of
            None \<Rightarrow> Err ''e''
          | Some (b, c) \<Rightarrow> Ok
              \<lparr>previous_partition = (if a = ''n'' then None else parse_u32 (tl a)),
               boot_counter = the (parse_u32 b),
               last_update_time = (if c = ''n'' then None else Some (tl c))\<rparr>))\<rparr>"

lemma split_once_char: "d \<notin> set a \<Longrightarrow> split_once [d] (a @ d # b) = Some (a, b)"
  by (induction a) auto

lemma enc_opt_n [simp]: "enc_opt x = ''n'' \<longleftrightarrow> x = None"
  by (cases x) auto

lemma demo_rollback_json_ok: "json_ok demo_rollback_json s"
proof -
  let ?a = "enc_opt (map_option show_word (previous_partition s))"
  have a: "CHR '':'' \<notin> set ?a"
    using colon_not_in_show_word by (cases "previous_partition s") auto
  have "split_once '':'' (?a @ CHR '':'' # x) = Some (?a, x)" for x
    using a by (rule split_once_char)
  moreover have "split_once '':'' (show_word (boot_counter s) @ CHR '':'' # x) = Some (show_word (boot_counter s), x)" for x
    using colon_not_in_show_word by (rule split_once_char)
  ultimately show ?thesis
    by (cases s; cases "previous_partition s"; cases "last_update_time s")
      (auto simp: json_ok_def demo_rollback_json_def)
qed

text \<open>Without faults the demo node records, switches and rolls back.\<close>

definition fault_free :: "disks \<Rightarrow> bool" where
  "fault_free w \<longleftrightarrow> fs_write_err (dk_fs w) = Map.empty \<and> fs_mkdir_err (dk_fs w) = Map.empty \<and>
     fs_read_err (dk_fs w) = Map.empty \<and> path_exists ''/sbin/sgdisk'' (dk_fs w)"

lemma demo_save_runs:
  assumes "fault_free w"
  shows "\<exists>w'. save_rollback_state demo_rollback_json s w = (Ok (), w') \<and> fault_free w' \<and> dk_flags w' = dk_flags w"
proof -
  obtain d where d: "to_json demo_rollback_json s = Ok d"
    by (simp add: demo_rollback_json_def)
  with assms show ?thesis
    using save_rollback_state_succeeds [OF _ _ d, of w] by (auto simp: fault_free_def path_exists_def)
qed

lemma demo_switch_runs:
  "fault_free w \<Longrightarrow> \<exists>w'. switch_boot_partition demo_sgdisk i w = (Ok (), w') \<and> fault_free w' \<and>
     dk_flags w' = ((dk_flags w)(other_slot i := False))(i := True)"
  by (simp add: fault_free_def switch_boot_partition_def sgdisk_path_def demo_sgdisk_run Let_def
      fs_write_def path_exists_def)

lemma demo_rollback_runs:
  assumes "fault_free w" and "previous_partition (load_rollback_state demo_rollback_json w) = Some i"
  shows "\<exists>w'. rollback_to_previous_partition demo_rollback_json demo_sgdisk w = (Ok (), w')"
proof -
  obtain w1 where w1: "switch_boot_partition demo_sgdisk i w = (Ok (), w1)" "fault_free w1"
    using demo_switch_runs [OF assms(1), of i] by blast
  with demo_save_runs [OF w1(2)] show ?thesis
    by (simp add: rollback_to_previous_partition_def assms(2)) blast
qed

lemma rollback_restores_recorded_witness:
  "\<exists>w1 w2 w3. record_active_partition_for_rollback demo_rollback_json ''now'' demo_disks = (Ok (), w1) \<and>
     switch_boot_partition demo_sgdisk 3 w1 = (Ok (), w2) \<and> \<not> dk_flags w2 2 \<and>
     rollback_to_previous_partition demo_rollback_json demo_sgdisk w2 = (Ok (), w3) \<and> dk_flags w3 2"
proof -
  let ?js = demo_rollback_json
  have "fault_free demo_disks"
    by (simp add: fault_free_def demo_disks_def path_exists_def)
  from demo_save_runs [OF this] obtain w1 where
    rec: "record_active_partition_for_rollback ?js ''now'' demo_disks = (Ok (), w1)" and ff1: "fault_free w1"
    by (simp add: record_active_partition_for_rollback_def demo_active) blast
  obtain w2 where w2: "switch_boot_partition demo_sgdisk 3 w1 = (Ok (), w2)" "fault_free w2"
    "dk_flags w2 = ((dk_flags w1)(2 := False))(3 := True)"
    using demo_switch_runs [OF ff1, of 3] by (auto simp: other_slot_def SLOT_A_INDEX_def)
  have st: "load_rollback_state ?js w2 = load_rollback_state ?js w1"
    using w2(1) by (rule switch_keeps_rollback_state)
  have prev: "previous_partition (load_rollback_state ?js w2) = Some 2"
    using record_active_Ok [OF rec] demo_rollback_json_ok demo_active st by (auto simp: demo_disks_def)
  obtain w3 where rb: "rollback_to_previous_partition ?js demo_sgdisk w2 = (Ok (), w3)"
    using demo_rollback_runs [OF w2(2) prev] by blast
  have "fs_read_err (dk_fs w2) ROLLBACK_STATE_FILE = None"
    using w2(2) by (simp add: fault_free_def)
  with rollback_restores_recorded [OF rec demo_active st rb demo_sgdisk_doc] demo_rollback_json_ok
  have "dk_flags w3 2" by (simp add: demo_disks_def)
  with rec w2 rb show ?thesis by auto
qed

end
