(* ===== verification/Health_Check.thy ===== *)
theory Health_Check
  imports Keel_Prelude
begin

text \<open>
  The health checks that decide about a rollback
  (\<open>cmd/keel-agent/src/health_check.rs\<close>): the single checks, the orchestrator that runs
  them all and grades the node, and the retry loop. What a check can observe of the node
  is a \<open>probe\<close>: the files under \<open>/proc\<close>, the outcome of \<open>pgrep\<close> and of a TCP connection.
  A Rust panic is the value \<open>None\<close>.
\<close>

section \<open>Data\<close>

datatype health_check_result = Pass | Fail string | Unknown string

fun is_passing :: "health_check_result \<Rightarrow> bool" where
  "is_passing Pass = True"
| "is_passing (Fail m) = False"
| "is_passing (Unknown m) = False"

fun check_message :: "health_check_result \<Rightarrow> string" where
  "check_message Pass = ''OK''"
| "check_message (Fail m) = m"
| "check_message (Unknown m) = m"

datatype health_status = Healthy | Degraded | Unhealthy

fun health_status_str :: "health_status \<Rightarrow> string" where
  "health_status_str Healthy = ''healthy''"
| "health_status_str Degraded = ''degraded''"
| "health_status_str Unhealthy = ''unhealthy''"

record check_execution =
  exec_name :: string
  exec_result :: health_check_result
  duration_ms :: u64

datatype health_check = BootCheck | ServiceCheck string | NetworkCheck | ApiCheck u16

record probe =
  pr_fs :: fsys
  pr_pgrep :: "string list \<Rightarrow> cmd_outcome"
  pr_connect :: "string \<Rightarrow> string + unit"

section \<open>Comparing a decimal literal with 10.0\<close>

text \<open>
  \<open>str::parse::<f64>\<close> accepts an optional sign and \<open>inf\<close>, \<open>infinity\<close>, \<open>nan\<close> or a decimal
  number with optional fraction and exponent. The nearest double of a number is greater
  than 10.0 exactly when the number is greater than \<open>10 + 2 ^ -50\<close>: the spacing of the
  doubles above 10 is \<open>2 ^ -49\<close> and the midpoint rounds to 10.
\<close>

datatype f64_lit = Nan | Infinity bool | Decimal bool nat int

definition opt_sign :: "string \<Rightarrow> bool \<times> string" where
  "opt_sign s =
     (case s of
        [] \<Rightarrow> (False, s)
      | c # cs \<Rightarrow> if c = CHR ''-'' then (True, cs) else if c = CHR ''+'' then (False, cs) else (False, s))"

definition parse_exponent :: "string \<Rightarrow> int option" where
  "parse_exponent s =
     (case s of
        [] \<Rightarrow> Some 0
      | c # cs \<Rightarrow>
          if c = CHR ''e'' \<or> c = CHR ''E'' then
            (case opt_sign cs of (neg, ds) \<Rightarrow>
               if ds \<noteq> [] \<and> list_all is_digit ds
               then Some (if neg then - int (digits_val ds) else int (digits_val ds)) else None)
          else None)"

definition parse_number :: "bool \<Rightarrow> string \<Rightarrow> f64_lit option" where
  "parse_number neg s =
     (let ip = takeWhile is_digit s; r = dropWhile is_digit s;
          has_dot = (case r of [] \<Rightarrow> False | c # _ \<Rightarrow> c = CHR ''.'');
          fr = (if has_dot then takeWhile is_digit (tl r) else []);
          r2 = (if has_dot then dropWhile is_digit (tl r) else r)
      in if ip = [] \<and> fr = [] then None
         else map_option (\<lambda>e. Decimal neg (digits_val (ip @ fr)) (e - int (length fr))) (parse_exponent r2))"

definition parse_f64 :: "string \<Rightarrow> f64_lit option" where
  "parse_f64 s =
     (case opt_sign s of (neg, r) \<Rightarrow>
        let l = to_lowercase r in
        if l = ''inf'' \<or> l = ''infinity'' then Some (Infinity neg)
        else if l = ''nan'' then Some Nan
        else parse_number neg r)"

fun f64_gt_10 :: "f64_lit \<Rightarrow> bool" where
  "f64_gt_10 Nan = False"
| "f64_gt_10 (Infinity neg) = (\<not> neg)"
| "f64_gt_10 (Decimal neg m e) =
     (\<not> neg \<and>
      (if 0 \<le> e then 10 * 2 ^ 50 + 1 < m * 10 ^ nat e * 2 ^ 50
       else (10 * 2 ^ 50 + 1) * 10 ^ nat (- e) < m * 2 ^ 50))"

section \<open>The checks\<close>

definition boot_check :: "probe \<Rightarrow> health_check_result" where
  "boot_check pr =
     (case read_to_string ''/proc/uptime'' (pr_fs pr) of
        Inl e \<Rightarrow> Fail (''Cannot read uptime: '' @ e)
      | Inr uptime \<Rightarrow>
          (case split_whitespace uptime of
             uptime_str # _ \<Rightarrow>
               (case parse_f64 uptime_str of
                  Some uptime_secs \<Rightarrow>
                    if f64_gt_10 uptime_secs then Pass else Fail ''System uptime too low''
                | None \<Rightarrow> Fail ''System uptime too low'')
           | [] \<Rightarrow> Fail ''System uptime too low''))"

definition service_check :: "string \<Rightarrow> probe \<Rightarrow> health_check_result" where
  "service_check service_name pr =
     (case pr_pgrep pr [''-x'', service_name] of
        Exited ok out err \<Rightarrow>
          if ok then Pass else Fail (''Service '' @ service_name @ '' not running'')
      | SpawnErr e \<Rightarrow> Fail (''Cannot check service: '' @ e))"

fun scan_interfaces :: "string list \<Rightarrow> health_check_result" where
  "scan_interfaces [] = Fail ''No active network interfaces''"
| "scan_interfaces (line # ls) =
     (case split_whitespace line of
        iface # _ \<Rightarrow>
          if trim_end_matches CHR '':'' iface \<noteq> ''lo'' \<and> \<not> contains line ''0       0       0''
          then Pass else scan_interfaces ls
      | [] \<Rightarrow> scan_interfaces ls)"

text \<open>\<open>&lines[2..]\<close> panics on fewer than two lines.\<close>

definition network_check :: "probe \<Rightarrow> health_check_result option" where
  "network_check pr =
     (case read_to_string ''/proc/net/dev'' (pr_fs pr) of
        Inl e \<Rightarrow> Some (Fail (''Cannot read network interfaces: '' @ e))
      | Inr content \<Rightarrow>
          (let ls = lines content in
           if length ls < 2 then None else Some (scan_interfaces (drop 2 ls))))"

definition api_check :: "u16 \<Rightarrow> probe \<Rightarrow> health_check_result" where
  "api_check port pr =
     (case pr_connect pr (''127.0.0.1:'' @ show_word port) of
        Inr _ \<Rightarrow> Pass
      | Inl e \<Rightarrow> Fail (''API port '' @ show_word port @ '' not reachable: '' @ e))"

fun perform_check :: "health_check \<Rightarrow> probe \<Rightarrow> health_check_result option" where
  "perform_check BootCheck pr = Some (boot_check pr)"
| "perform_check (ServiceCheck n) pr = Some (service_check n pr)"
| "perform_check NetworkCheck pr = network_check pr"
| "perform_check (ApiCheck port) pr = Some (api_check port pr)"

fun check_name :: "health_check \<Rightarrow> string" where
  "check_name BootCheck = ''boot''"
| "check_name (ServiceCheck n) = ''service:'' @ n"
| "check_name NetworkCheck = ''network''"
| "check_name (ApiCheck port) = ''api''"

fun is_critical :: "health_check \<Rightarrow> bool" where
  "is_critical NetworkCheck = False"
| "is_critical BootCheck = True"
| "is_critical (ServiceCheck n) = True"
| "is_critical (ApiCheck port) = True"

section \<open>The orchestrator\<close>

record health_checker_config =
  timeout_secs :: u32
  retry_interval_secs :: u32
  max_retries :: u32

definition default_health_config :: health_checker_config where
  "default_health_config = \<lparr>timeout_secs = 300, retry_interval_secs = 10, max_retries = 30\<rparr>"

record health_checker =
  hc_checks :: "string \<rightharpoonup> health_check"
  hc_config :: health_checker_config
  hc_last_results :: "check_execution list"

definition new_health_checker :: "health_checker_config \<Rightarrow> health_checker" where
  "new_health_checker config =
     \<lparr>hc_checks = [''boot'' \<mapsto> BootCheck, ''network'' \<mapsto> NetworkCheck, ''api'' \<mapsto> ApiCheck 50051],
      hc_config = config, hc_last_results = []\<rparr>"

definition register_check :: "health_check \<Rightarrow> health_checker \<Rightarrow> health_checker" where
  "register_check c hc = hc\<lparr>hc_checks := (hc_checks hc)(check_name c \<mapsto> c)\<rparr>"

text \<open>
  The loop over the registered checks in the order \<open>ks\<close>. \<open>env name\<close> is what the check
  registered under that name observes and how long it takes. The accumulator holds the
  executions so far and the two failure counters.
\<close>

fun run_checks ::
  "(string \<Rightarrow> probe \<times> u64) \<Rightarrow> (string \<rightharpoonup> health_check) \<Rightarrow> string list \<Rightarrow>
   check_execution list \<times> nat \<times> nat \<Rightarrow> (check_execution list \<times> nat \<times> nat) option" where
  "run_checks env cs [] acc = Some acc"
| "run_checks env cs (name # ks) (exs, crit, noncrit) =
     (case cs name of
        None \<Rightarrow> run_checks env cs ks (exs, crit, noncrit)
      | Some c \<Rightarrow>
          (case perform_check c (fst (env name)) of
             None \<Rightarrow> None
           | Some result \<Rightarrow>
               (let execution = \<lparr>exec_name = name, exec_result = result, duration_ms = snd (env name)\<rparr>;
                    failed = (case result of Fail _ \<Rightarrow> True | _ \<Rightarrow> False)
                in run_checks env cs ks
                     (exs @ [execution],
                      if failed \<and> is_critical c then crit + 1 else crit,
                      if failed \<and> \<not> is_critical c then noncrit + 1 else noncrit))))"

definition run_all_checks ::
  "(string \<Rightarrow> probe \<times> u64) \<Rightarrow> string list \<Rightarrow> health_checker \<Rightarrow>
   (health_status \<times> check_execution list) option \<times> health_checker" where
  "run_all_checks env ks hc =
     (case run_checks env (hc_checks hc) ks ([], 0, 0) of
        None \<Rightarrow> (None, hc)
      | Some (executions, critical_failures, non_critical_failures) \<Rightarrow>
          (Some (if 0 < critical_failures then Unhealthy
                 else if 0 < non_critical_failures then Degraded else Healthy, executions),
           hc\<lparr>hc_last_results := executions\<rparr>))"

definition get_last_results :: "health_checker \<Rightarrow> check_execution list" where
  "get_last_results hc = hc_last_results hc"

lemma word_gap_decreases:
  fixes a m :: u32
  assumes "a < m"
  shows "unat (m - (a + 1)) < unat (m - a)"
proof -
  have "m - a \<noteq> 0" using assms by auto
  moreover have "m - (a + 1) = (m - a) - 1" by simp
  ultimately show ?thesis
    by (metis measure_unat)
qed

lemma retry_gap_decreases:
  fixes a m :: u32
  shows "a + 1 < m \<Longrightarrow> unat (m - (2 + a)) < unat (m - (a + 1))"
  using word_gap_decreases [of "a + 1" m] by (simp add: algebra_simps)

text \<open>
  The retry loop. \<open>envs a\<close> and \<open>ks a\<close> belong to attempt \<open>a\<close>; \<open>elapsed a\<close> is the time in
  milliseconds since the start, read after that attempt.
\<close>

function retry_loop ::
  "(nat \<Rightarrow> string \<Rightarrow> probe \<times> u64) \<Rightarrow> (nat \<Rightarrow> string list) \<Rightarrow> (nat \<Rightarrow> nat) \<Rightarrow>
   u32 \<Rightarrow> u32 \<Rightarrow> u32 \<Rightarrow> health_checker \<Rightarrow> (health_status \<times> u32) option \<times> health_checker" where
  "retry_loop envs ks elapsed timeout max_att attempt hc =
     (let a = attempt + 1 in
      case run_all_checks (envs (unat a)) (ks (unat a)) hc of
        (None, hc') \<Rightarrow> (None, hc')
      | (Some (status, _), hc') \<Rightarrow>
          if status = Healthy then (Some (status, a), hc')
          else if unat timeout * 1000 \<le> elapsed (unat a) then (Some (status, a), hc')
          else if max_att \<le> a then (Some (status, a), hc')
          else retry_loop envs ks elapsed timeout max_att a hc')"
  by pat_completeness auto

termination
proof (relation "measure (\<lambda>(envs, ks, elapsed, timeout, m, attempt, hc). unat (m - (attempt + 1)))")
qed (auto intro!: retry_gap_decreases simp: not_le)

declare retry_loop.simps [simp del]

definition run_with_retry ::
  "(nat \<Rightarrow> string \<Rightarrow> probe \<times> u64) \<Rightarrow> (nat \<Rightarrow> string list) \<Rightarrow> (nat \<Rightarrow> nat) \<Rightarrow>
   health_checker \<Rightarrow> (health_status \<times> u32) option \<times> health_checker" where
  "run_with_retry envs ks elapsed hc =
     retry_loop envs ks elapsed (timeout_secs (hc_config hc)) (max_retries (hc_config hc)) 0 hc"

section \<open>Grading\<close>

text \<open>What the grade means, without counters: a critical check failed, or another one did.\<close>

definition check_failed :: "(string \<Rightarrow> probe \<times> u64) \<Rightarrow> string \<Rightarrow> health_check \<Rightarrow> bool" where
  "check_failed env n c \<longleftrightarrow> (\<exists>m. perform_check c (fst (env n)) = Some (Fail m))"

definition grade :: "(string \<Rightarrow> probe \<times> u64) \<Rightarrow> (string \<rightharpoonup> health_check) \<Rightarrow> health_status" where
  "grade env cs =
     (if \<exists>n c. cs n = Some c \<and> is_critical c \<and> check_failed env n c then Unhealthy
      else if \<exists>n c. cs n = Some c \<and> check_failed env n c then Degraded else Healthy)"

lemma run_checks_counts:
  assumes "run_checks env cs ks (exs, k, l) = Some (exs', k', l')" and "set ks \<subseteq> dom cs"
  shows "k' = k + length (filter (\<lambda>n. is_critical (the (cs n)) \<and> check_failed env n (the (cs n))) ks) \<and>
    l' = l + length (filter (\<lambda>n. \<not> is_critical (the (cs n)) \<and> check_failed env n (the (cs n))) ks) \<and>
    List.map exec_name exs' = List.map exec_name exs @ ks"
  using assms
proof (induction ks arbitrary: exs k l)
  case (Cons n ks)
  then obtain c r where c: "cs n = Some c" "perform_check c (fst (env n)) = Some r"
    by (cases "cs n"; cases "perform_check (the (cs n)) (fst (env n))") auto
  let ?f = "check_failed env n c"
  have f: "(case r of Fail _ \<Rightarrow> True | _ \<Rightarrow> False) = ?f"
    using c by (cases r) (auto simp: check_failed_def)
  have "run_checks env cs ks
      (exs @ [\<lparr>exec_name = n, exec_result = r, duration_ms = snd (env n)\<rparr>],
       if ?f \<and> is_critical c then k + 1 else k, if ?f \<and> \<not> is_critical c then l + 1 else l) =
      Some (exs', k', l')"
    using Cons.prems(1) c by (simp add: f Let_def)
  from Cons.IH [OF this] Cons.prems(2) c(1) show ?case
    by (auto split: if_splits)
qed simp

lemma run_checks_total:
  assumes "\<forall>n c. n \<in> set ks \<and> cs n = Some c \<longrightarrow> perform_check c (fst (env n)) \<noteq> None"
  shows "\<exists>r. run_checks env cs ks acc = Some r"
  using assms
proof (induction ks arbitrary: acc)
  case (Cons n ks)
  obtain exs k l where acc: "acc = (exs, k, l)" by (cases acc)
  show ?case
  proof (cases "cs n")
    case None
    with Cons show ?thesis by (simp add: acc)
  next
    case (Some c)
    with Cons.prems obtain r where r: "perform_check c (fst (env n)) = Some r"
      by fastforce
    have "\<forall>n c. n \<in> set ks \<and> cs n = Some c \<longrightarrow> perform_check c (fst (env n)) \<noteq> None"
      using Cons.prems by simp
    from Cons.IH [OF this] show ?thesis
      by (simp only: acc run_checks.simps Some r option.case Let_def)
  qed
next
  case Nil
  show ?case by (rule exI [of _ acc]) simp
qed

lemma run_all_checks_grade:
  assumes "iter_order ks (hc_checks hc)" and "run_all_checks env ks hc = (Some (st, exs), hc')"
  shows "st = grade env (hc_checks hc) \<and> List.map exec_name exs = ks \<and> get_last_results hc' = exs \<and>
    hc_checks hc' = hc_checks hc \<and> hc_config hc' = hc_config hc"
proof -
  let ?cs = "hc_checks hc"
  from assms(2) obtain k l where run: "run_checks env ?cs ks ([], 0, 0) = Some (exs, k, l)"
    and st: "st = (if 0 < k then Unhealthy else if 0 < l then Degraded else Healthy)"
    and hc': "hc' = hc\<lparr>hc_last_results := exs\<rparr>"
    by (auto simp: run_all_checks_def split: option.splits)
  have ks: "set ks = dom ?cs"
    using assms(1) by (simp add: iter_order_def)
  note counts = run_checks_counts [OF run eq_refl [OF ks]]
  have "0 < k \<longleftrightarrow> (\<exists>n\<in>set ks. is_critical (the (?cs n)) \<and> check_failed env n (the (?cs n)))"
    "0 < l \<longleftrightarrow> (\<exists>n\<in>set ks. \<not> is_critical (the (?cs n)) \<and> check_failed env n (the (?cs n)))"
    using counts by (auto simp: length_greater_0_conv filter_empty_conv)
  then have "st = grade env ?cs"
    unfolding st grade_def ks by (force split: if_splits)
  with counts hc' show ?thesis
    by (simp add: get_last_results_def)
qed

section \<open>The retry loop\<close>

text \<open>What one attempt reports.\<close>

definition attempt_status ::
  "(nat \<Rightarrow> string \<Rightarrow> probe \<times> u64) \<Rightarrow> (nat \<Rightarrow> string list) \<Rightarrow> health_checker \<Rightarrow> nat \<Rightarrow> health_status option" where
  "attempt_status envs ks hc a = map_option fst (fst (run_all_checks (envs a) (ks a) hc))"

lemma attempt_status_cong:
  "hc_checks hc = hc_checks hc' \<Longrightarrow> attempt_status envs ks hc a = attempt_status envs ks hc' a"
  by (simp add: attempt_status_def run_all_checks_def split: option.splits prod.splits)

lemma run_all_checks_frame:
  "hc_checks (snd (run_all_checks env ks hc)) = hc_checks hc"
  by (simp add: run_all_checks_def split: option.splits prod.splits)

lemma retry_loop_result:
  assumes "retry_loop envs ks elapsed timeout m attempt hc = (Some (st, n), hc')"
    and "unat attempt < max 1 (unat m)" and "attempt = 0 \<or> attempt < m"
  shows "unat attempt < unat n \<and> unat n \<le> max 1 (unat m) \<and>
    attempt_status envs ks hc (unat n) = Some st \<and>
    (st = Healthy \<or> unat timeout * 1000 \<le> elapsed (unat n) \<or> unat m \<le> unat n) \<and>
    (\<forall>k. unat attempt < k \<and> k < unat n \<longrightarrow>
       attempt_status envs ks hc k \<noteq> Some Healthy \<and> elapsed k < unat timeout * 1000)"
  using assms
proof (induction envs ks elapsed timeout m attempt hc rule: retry_loop.induct)
  case (1 envs ks elapsed timeout m attempt hc)
  have no_wrap: "unat (attempt + 1) = unat attempt + 1"
  proof -
    have "unat attempt < 2 ^ 32 - 1"
      using "1.prems"(3) unsigned_less [where 'a = nat and w = m] by (auto simp: word_less_nat_alt)
    then show ?thesis by (simp add: unat_word_ariths)
  qed
  let ?a = "attempt + 1"
  obtain o1 hc1 where run: "run_all_checks (envs (unat ?a)) (ks (unat ?a)) hc = (o1, hc1)"
    by fastforce
  with "1.prems"(1) obtain s exs where o1: "o1 = Some (s, exs)"
    by (cases o1) (auto simp: retry_loop.simps [of envs])
  have st: "attempt_status envs ks hc (unat ?a) = Some s"
    by (simp add: attempt_status_def run o1)
  let ?stop = "s = Healthy \<or> unat timeout * 1000 \<le> elapsed (unat ?a) \<or> m \<le> ?a"
  show ?case
  proof (cases ?stop)
    case True
    with "1.prems"(1) run o1 have "st = s" "n = ?a"
      by (auto simp: retry_loop.simps [of envs] Let_def split: if_splits)
    with True st no_wrap "1.prems"(2) show ?thesis
      by (auto simp: word_le_nat_alt)
  next
    case False
    then have lt: "?a < m" and go: "s \<noteq> Healthy" "elapsed (unat ?a) < unat timeout * 1000"
      by auto
    have rest: "retry_loop envs ks elapsed timeout m ?a hc1 = (Some (st, n), hc')"
      using "1.prems"(1) run o1 False by (simp add: retry_loop.simps [of envs _ _ _ _ attempt] Let_def)
    have same: "attempt_status envs ks hc1 k = attempt_status envs ks hc k" for k
      using run_all_checks_frame [of "envs (unat ?a)" "ks (unat ?a)" hc] run
      by (intro attempt_status_cong) simp
    have IH: "unat ?a < unat n \<and> unat n \<le> max 1 (unat m) \<and>
      attempt_status envs ks hc1 (unat n) = Some st \<and>
      (st = Healthy \<or> unat timeout * 1000 \<le> elapsed (unat n) \<or> unat m \<le> unat n) \<and>
      (\<forall>k. unat ?a < k \<and> k < unat n \<longrightarrow>
         attempt_status envs ks hc1 k \<noteq> Some Healthy \<and> elapsed k < unat timeout * 1000)"
      by (rule "1.IH" [OF refl run [symmetric] o1 refl]) (use False rest lt in \<open>auto simp: word_less_nat_alt\<close>)
    have "attempt_status envs ks hc k \<noteq> Some Healthy \<and> elapsed k < unat timeout * 1000"
      if "unat attempt < k" "k < unat n" for k
      using that IH st go no_wrap same by (cases "k = unat ?a") auto
    with IH no_wrap same show ?thesis by auto
  qed
qed

lemma retry_loop_panic:
  assumes "retry_loop envs ks elapsed timeout m attempt hc = (None, hc')"
  shows "\<exists>k. attempt_status envs ks hc k = None"
  using assms
proof (induction envs ks elapsed timeout m attempt hc rule: retry_loop.induct)
  case (1 envs ks elapsed timeout m attempt hc)
  let ?a = "attempt + 1"
  obtain o1 hc1 where run: "run_all_checks (envs (unat ?a)) (ks (unat ?a)) hc = (o1, hc1)"
    by fastforce
  show ?case
  proof (cases o1)
    case None
    then show ?thesis using run by (intro exI [of _ "unat ?a"]) (simp add: attempt_status_def)
  next
    case (Some x)
    obtain s exs where x: "x = (s, exs)" by (cases x)
    have "\<exists>k. attempt_status envs ks hc1 k = None"
      by (rule "1.IH" [OF refl run [symmetric] Some x [symmetric]])
        (use "1.prems" run Some x in \<open>auto simp: retry_loop.simps [of envs _ _ _ _ attempt] Let_def split: if_splits\<close>)
    moreover have "attempt_status envs ks hc1 k = attempt_status envs ks hc k" for k
      using run_all_checks_frame [of "envs (unat ?a)" "ks (unat ?a)" hc] run
      by (intro attempt_status_cong) simp
    ultimately show ?thesis by simp
  qed
qed

section \<open>Properties\<close>

text \<open>
  C23. When no check panics, running all checks visits each registered check once and
  grades the node by what they report, whatever the order of the hash map: unhealthy
  exactly when a critical check failed, degraded exactly when only others failed. A check
  whose answer is unknown counts as passed.
\<close>

theorem health_status_meaning:
  assumes "iter_order ks (hc_checks hc)"
    and "\<forall>n c. hc_checks hc n = Some c \<longrightarrow> perform_check c (fst (env n)) \<noteq> None"
  shows "\<exists>st exs. run_all_checks env ks hc = (Some (st, exs), hc\<lparr>hc_last_results := exs\<rparr>) \<and>
    List.map exec_name exs = ks \<and>
    (st = Unhealthy \<longleftrightarrow> (\<exists>n c m. hc_checks hc n = Some c \<and> is_critical c \<and>
       perform_check c (fst (env n)) = Some (Fail m))) \<and>
    (st = Healthy \<longleftrightarrow> (\<forall>n c m. hc_checks hc n = Some c \<longrightarrow> perform_check c (fst (env n)) \<noteq> Some (Fail m)))"
proof -
  have "\<exists>r. run_checks env (hc_checks hc) ks ([], 0, 0) = Some r"
    by (rule run_checks_total) (use assms(2) in blast)
  then obtain st exs where run: "run_all_checks env ks hc = (Some (st, exs), hc\<lparr>hc_last_results := exs\<rparr>)"
    by (auto simp: run_all_checks_def)
  from run_all_checks_grade [OF assms(1) this] have "st = grade env (hc_checks hc)"
    "List.map exec_name exs = ks"
    by simp_all
  then show ?thesis
    using run by (intro exI [of _ st] exI [of _ exs]) (auto simp: grade_def check_failed_def)
qed

definition demo_probe :: probe where
  "demo_probe = \<lparr>pr_fs = \<lparr>fs_files = [''/proc/uptime'' \<mapsto> ''10.25 40.00''], fs_dirs = {},
       fs_read_err = Map.empty, fs_write_err = Map.empty, fs_mkdir_err = Map.empty\<rparr>,
     pr_pgrep = (\<lambda>_. SpawnErr []), pr_connect = (\<lambda>_. Ok ())\<rparr>"

lemma demo_checks:
  "perform_check BootCheck demo_probe = Some Pass"
  "perform_check NetworkCheck demo_probe = Some (Fail (''Cannot read network interfaces: '' @ enoent))"
  "perform_check (ApiCheck 50051) demo_probe = Some Pass"
  by (simp_all add: demo_probe_def boot_check_def network_check_def api_check_def read_to_string_def
      split_whitespace_def is_ws_def parse_f64_def opt_sign_def parse_number_def parse_exponent_def
      is_digit_def digits_val_def digit_val_def to_lowercase_def to_lower_char_def Let_def)

theorem health_status_meaning_witness:
  "\<exists>exs. run_all_checks (\<lambda>_. (demo_probe, 1)) [''network'', ''api'', ''boot'']
     (new_health_checker default_health_config) =
     (Some (Degraded, exs), (new_health_checker default_health_config)\<lparr>hc_last_results := exs\<rparr>)"
proof -
  let ?hc = "new_health_checker default_health_config"
  have o: "iter_order [''network'', ''api'', ''boot''] (hc_checks ?hc)"
    by (auto simp: iter_order_def new_health_checker_def)
  have cs: "hc_checks ?hc n = Some c \<longleftrightarrow> n = ''boot'' \<and> c = BootCheck \<or> n = ''network'' \<and> c = NetworkCheck \<or>
      n = ''api'' \<and> c = ApiCheck 50051" for n c
    by (auto simp: new_health_checker_def)
  have "\<forall>n c. hc_checks ?hc n = Some c \<longrightarrow> perform_check c (fst (demo_probe, 1 :: u64)) \<noteq> None"
    by (auto simp: cs demo_checks simp del: perform_check.simps)
  from health_status_meaning [OF o this] obtain st exs
    where r: "run_all_checks (\<lambda>_. (demo_probe, 1)) [''network'', ''api'', ''boot''] ?hc =
        (Some (st, exs), ?hc\<lparr>hc_last_results := exs\<rparr>)"
      and u: "st = Unhealthy \<longleftrightarrow> (\<exists>n c m. hc_checks ?hc n = Some c \<and> is_critical c \<and>
         perform_check c (fst (demo_probe, 1 :: u64)) = Some (Fail m))"
      and h: "st = Healthy \<longleftrightarrow> (\<forall>n c m. hc_checks ?hc n = Some c \<longrightarrow>
         perform_check c (fst (demo_probe, 1 :: u64)) \<noteq> Some (Fail m))"
    by blast
  have "st \<noteq> Unhealthy"
    unfolding u by (auto simp: cs demo_checks simp del: perform_check.simps)
  moreover have "st \<noteq> Healthy"
    unfolding h cs using demo_checks(2) by (metis fst_conv)
  ultimately show ?thesis
    using r by (cases st) auto
qed

text \<open>
  C24. The retry loop ends: when no check panics it returns after at least one and at most
  \<open>max_retries\<close> attempts (one, if that is zero). It stops at the first attempt that is
  healthy, that ends after the timeout, or that is the last one allowed, and it returns
  the status of that attempt.
\<close>

theorem run_with_retry_returns:
  assumes "\<forall>a. attempt_status envs ks hc a \<noteq> None"
  shows "\<exists>st n hc'. run_with_retry envs ks elapsed hc = (Some (st, n), hc') \<and>
    1 \<le> unat n \<and> unat n \<le> max 1 (unat (max_retries (hc_config hc))) \<and>
    attempt_status envs ks hc (unat n) = Some st \<and>
    (st = Healthy \<or> unat (timeout_secs (hc_config hc)) * 1000 \<le> elapsed (unat n) \<or>
       unat (max_retries (hc_config hc)) \<le> unat n) \<and>
    (\<forall>k. 1 \<le> k \<and> k < unat n \<longrightarrow> attempt_status envs ks hc k \<noteq> Some Healthy \<and>
       elapsed k < unat (timeout_secs (hc_config hc)) * 1000)"
proof -
  obtain r hc' where run: "run_with_retry envs ks elapsed hc = (r, hc')"
    by fastforce
  have "r \<noteq> None"
    using retry_loop_panic [of envs ks elapsed _ _ 0 hc hc'] run assms
    by (metis run_with_retry_def)
  then obtain st n where "r = Some (st, n)" by (cases r) auto
  with run retry_loop_result [of envs ks elapsed _ _ 0 hc st n hc'] show ?thesis
    by (fastforce simp: run_with_retry_def Suc_le_eq)
qed

theorem run_with_retry_returns_witness:
  "\<exists>st n hc'. run_with_retry (\<lambda>_ _. (demo_probe, 1)) (\<lambda>_. [''boot'']) (\<lambda>a. a)
     (new_health_checker default_health_config) = (Some (st, n), hc') \<and> unat n \<le> 30"
proof -
  let ?hc = "new_health_checker default_health_config"
  have "\<forall>a. attempt_status (\<lambda>_ _. (demo_probe, 1)) (\<lambda>_. [''boot'']) ?hc a \<noteq> None"
    using demo_checks(1)
    by (simp add: attempt_status_def run_all_checks_def new_health_checker_def Let_def del: perform_check.simps)
  from run_with_retry_returns [OF this, of "\<lambda>a. a"] show ?thesis
    by (auto simp: new_health_checker_def default_health_config_def)
qed

end
