(* ===== verification/Executor.thy ===== *)
theory Executor
  imports Scheduler Disk Health_Check
begin

text \<open>
  The agent's background tasks (\<open>cmd/keel-agent/src/main.rs\<close>) and the hooks they run
  (\<open>cmd/keel-agent/src/hooks.rs\<close>): the executor that polls for due schedules and installs
  them, and the supervisor that rolls back an unhealthy node. The node is the scheduler's
  memory together with the disks of the theory Disk, whose file system also holds the
  schedule file. A hook is any program, so it may change the disks; \<open>show_int\<close> prints the
  exit code.
\<close>

section \<open>Hooks\<close>

text \<open>What \<open>Command::status\<close> gives: no process, an exit code, or death by a signal.\<close>

datatype exit_status = CannotRun string | ExitCode int | Signalled

type_synonym program = "string list \<Rightarrow> disks \<Rightarrow> exit_status \<times> disks"

definition show_int :: "int \<Rightarrow> string" where
  "show_int n = (if n < 0 then ''-'' @ show_nat (nat (- n)) else show_nat (nat n))"

fun hook_result :: "exit_status \<Rightarrow> string + unit" where
  "hook_result (CannotRun e) = Err (''Failed to execute hook: '' @ e)"
| "hook_result (ExitCode n) =
     (if n = 0 then Ok () else Err (''Hook failed with exit code: Some('' @ show_int n @ '')''))"
| "hook_result Signalled = Err ''Hook failed with exit code: None''"

definition execute_hook :: "program \<Rightarrow> string \<Rightarrow> disks \<Rightarrow> (string + unit) \<times> disks" where
  "execute_hook prog command w =
     (if command = [] then (Ok (), w)
      else let parts = split_whitespace command in
        if parts = [] then (Ok (), w)
        else case prog parts w of (st, w') \<Rightarrow> (hook_result st, w'))"

definition opt_hook :: "program \<Rightarrow> string option \<Rightarrow> disks \<Rightarrow> (string + unit) \<times> disks" where
  "opt_hook prog h w = (case h of None \<Rightarrow> (Ok (), w) | Some hook \<Rightarrow> execute_hook prog hook w)"

section \<open>Executing one scheduled update\<close>

text \<open>What the outside world answers during one update.\<close>

record update_env =
  ue_http :: "nat \<Rightarrow> string \<Rightarrow> http_reply"
  ue_sha256 :: "string \<Rightarrow> string"
  ue_bspatch :: "string \<Rightarrow> string \<Rightarrow> string + string"
  ue_tmp :: "string + string"
  ue_sgdisk :: "string \<Rightarrow> sgdisk"
  ue_hook :: program
  ue_json :: "rollback_state json"
  ue_stamp :: string

definition fallback_of :: "update_schedule \<Rightarrow> string option" where
  "fallback_of s = (if fallback_to_full s then full_image_url s else None)"

definition flash_schedule ::
  "update_env \<Rightarrow> update_schedule \<Rightarrow> string \<Rightarrow> disks \<Rightarrow> (io_error + u64) \<times> disks" where
  "flash_schedule env s device =
     flash_image (ue_http env) (ue_sha256 env) (ue_bspatch env) (ue_tmp env) (source_url s)
       device (expected_sha256 s) (is_delta s) (fallback_of s)"

definition execute_scheduled_update ::
  "update_env \<Rightarrow> update_schedule \<Rightarrow> disks \<Rightarrow> (string + unit) \<times> disks" where
  "execute_scheduled_update env s w =
     (case get_inactive_partition w of
        Inl e \<Rightarrow> (Err (io_msg e), w)
      | Inr inactive \<Rightarrow>
          (case opt_hook (ue_hook env) (pre_update_hook s) w of
             (Inl e, w1) \<Rightarrow> (Err e, w1)
           | (Inr _, w1) \<Rightarrow>
               (case flash_schedule env s (part_device inactive) w1 of
                  (Inl e, w2) \<Rightarrow> (Err (io_msg e), w2)
                | (Inr _, w2) \<Rightarrow>
                    (case opt_hook (ue_hook env) (post_update_hook s) w2 of
                       (Inl e, w3) \<Rightarrow> (Err e, w3)
                     | (Inr _, w3) \<Rightarrow>
                         (let w4 = snd (record_active_partition_for_rollback
                                          (ue_json env) (ue_stamp env) w3)
                          in case switch_boot_partition (ue_sgdisk env) (part_index inactive) w4 of
                               (Inl e, w5) \<Rightarrow> (Err (io_msg e), w5)
                             | (Inr _, w5) \<Rightarrow> (Ok (), w5))))))"

section \<open>The executor task\<close>

record node =
  nd_sched :: scheduler
  nd_disks :: disks

text \<open>A call of the scheduler from a background task whose result is dropped (\<open>let _ =\<close>).\<close>

definition nd_update_status ::
  "schedule_map json \<Rightarrow> timestamp \<Rightarrow> string \<Rightarrow> schedule_status \<Rightarrow> string option \<Rightarrow> node \<Rightarrow> node" where
  "nd_update_status js now i st err n =
     (case update_status js now i st err (nd_sched n) (dk_fs (nd_disks n)) of
        (_, sch', fs') \<Rightarrow> n\<lparr>nd_sched := sch', nd_disks := (nd_disks n)\<lparr>dk_fs := fs'\<rparr>\<rparr>)"

text \<open>
  One pass of the executor's inner loop, for a schedule \<open>s\<close> of the list it polled:
  \<open>t0\<close>, \<open>t1\<close>, \<open>t2\<close> are the clock readings of the window check and of the two status
  changes.
\<close>

definition run_due ::
  "schedule_map json \<Rightarrow> update_env \<Rightarrow> timestamp \<Rightarrow> timestamp \<Rightarrow> timestamp \<Rightarrow> update_schedule \<Rightarrow> node \<Rightarrow> node" where
  "run_due js env t0 t1 t2 s n =
     (if \<not> is_within_maintenance_window t0 s
      then nd_update_status js t1 (sched_id s) Failed (Some ''Maintenance window expired'') n
      else
        let n1 = nd_update_status js t1 (sched_id s) Running None n in
        case execute_scheduled_update env s (nd_disks n1) of
          (Inr _, w) \<Rightarrow> nd_update_status js t2 (sched_id s) Completed None (n1\<lparr>nd_disks := w\<rparr>)
        | (Inl error_msg, w) \<Rightarrow>
            nd_update_status js t2 (sched_id s) Failed (Some error_msg) (n1\<lparr>nd_disks := w\<rparr>))"

text \<open>
  One round of the loop: the due schedules are polled once and worked through. \<open>envs k\<close>
  and \<open>clk k\<close> belong to the \<open>k\<close>-th schedule of the round.
\<close>

fun run_all_due ::
  "schedule_map json \<Rightarrow> (nat \<Rightarrow> update_env) \<Rightarrow> (nat \<Rightarrow> timestamp \<times> timestamp \<times> timestamp) \<Rightarrow>
   update_schedule list \<Rightarrow> nat \<Rightarrow> node \<Rightarrow> node" where
  "run_all_due js envs clk [] k n = n"
| "run_all_due js envs clk (s # ss) k n =
     (case clk k of (t0, t1, t2) \<Rightarrow>
        run_all_due js envs clk ss (k + 1) (run_due js (envs k) t0 t1 t2 s n))"

definition schedule_executor_tick ::
  "schedule_map json \<Rightarrow> (nat \<Rightarrow> update_env) \<Rightarrow> (nat \<Rightarrow> timestamp \<times> timestamp \<times> timestamp) \<Rightarrow>
   timestamp \<Rightarrow> string list \<Rightarrow> node \<Rightarrow> node" where
  "schedule_executor_tick js envs clk now ks n =
     run_all_due js envs clk (get_due_schedules now ks (nd_sched n)) 0 n"

section \<open>The rollback supervisor\<close>

definition DEFAULT_HEALTH_CHECK_GRACE_SECS :: u64 where
  "DEFAULT_HEALTH_CHECK_GRACE_SECS = 60"

definition grace_secs :: "string list \<Rightarrow> scheduler \<Rightarrow> u64" where
  "grace_secs ks sch =
     (case get_latest_active_schedule ks sch of
        Some s \<Rightarrow> (case health_check_timeout_secs s of
                     Some t \<Rightarrow> ucast t | None \<Rightarrow> DEFAULT_HEALTH_CHECK_GRACE_SECS)
      | None \<Rightarrow> DEFAULT_HEALTH_CHECK_GRACE_SECS)"

text \<open>
  The supervisor after its grace period: the result is whether it asked for a reboot.
  \<open>hks\<close>, \<open>ks1\<close>, \<open>ks2\<close> are the orders in which the hash maps are visited. A panic in a
  health check leaves the node as it is; a release build aborts then, which is a death of
  the agent (Agent_Restart).
\<close>

definition rollback_supervisor ::
  "schedule_map json \<Rightarrow> rollback_state json \<Rightarrow> (string \<Rightarrow> sgdisk) \<Rightarrow> (string \<Rightarrow> probe \<times> u64) \<Rightarrow>
   string list \<Rightarrow> string list \<Rightarrow> string list \<Rightarrow> timestamp \<Rightarrow> health_checker \<Rightarrow> node \<Rightarrow>
   bool \<times> health_checker \<times> node" where
  "rollback_supervisor js rjs sg env hks ks1 ks2 now hc n =
     (case run_all_checks env hks hc of
        (None, hc') \<Rightarrow> (False, hc', n)
      | (Some (status, _), hc') \<Rightarrow>
          if status = Unhealthy then
            (let auto_rollback_enabled =
                   (case get_latest_active_schedule ks1 (nd_sched n) of
                      Some s \<Rightarrow> enable_auto_rollback s | None \<Rightarrow> False)
             in if \<not> auto_rollback_enabled then (False, hc', n)
                else
                  case register_rollback js ks2 now ''Critical health failure at boot''
                         (nd_sched n) (dk_fs (nd_disks n)) of
                    (_, sch', fs') \<Rightarrow>
                      (case rollback_to_previous_partition rjs sg ((nd_disks n)\<lparr>dk_fs := fs'\<rparr>) of
                         (Inr _, w) \<Rightarrow> (True, hc', n\<lparr>nd_sched := sch', nd_disks := w\<rparr>)
                       | (Inl e, w) \<Rightarrow> (False, hc', n\<lparr>nd_sched := sch', nd_disks := w\<rparr>)))
          else (False, hc', n))"

section \<open>Well-behaved hooks\<close>

text \<open>
  A hook that stays clear of the boot path: it may write files, but not block devices,
  boot flags, the kernel's view of the root device, the rollback record or \<open>sgdisk\<close>.
\<close>

definition boot_files :: "string set" where
  "boot_files = {''/proc/cmdline'', ''/proc/mounts'', ''/usr/sbin/sgdisk'', ''/sbin/sgdisk'', ROLLBACK_STATE_FILE}"

definition hook_benign :: "program \<Rightarrow> bool" where
  "hook_benign prog \<longleftrightarrow> (\<forall>parts w. \<exists>files. snd (prog parts w) = w\<lparr>dk_fs := (dk_fs w)\<lparr>fs_files := files\<rparr>\<rparr> \<and>
     (\<forall>f\<in>boot_files. files f = fs_files (dk_fs w) f))"

text \<open>Two states of the disks that the boot path cannot tell apart.\<close>

definition same_boot :: "disks \<Rightarrow> disks \<Rightarrow> bool" where
  "same_boot w w' \<longleftrightarrow> dk_flags w' = dk_flags w \<and> dk_links w' = dk_links w \<and>
     fs_read_err (dk_fs w') = fs_read_err (dk_fs w) \<and> fs_write_err (dk_fs w') = fs_write_err (dk_fs w) \<and>
     fs_mkdir_err (dk_fs w') = fs_mkdir_err (dk_fs w) \<and>
     (\<forall>f\<in>boot_files. fs_files (dk_fs w') f = fs_files (dk_fs w) f)"

lemma same_boot_refl [simp]: "same_boot w w"
  by (simp add: same_boot_def)

lemma same_boot_trans: "same_boot w1 w2 \<Longrightarrow> same_boot w2 w3 \<Longrightarrow> same_boot w1 w3"
  by (simp add: same_boot_def)

lemma same_boot_active: "same_boot w w' \<Longrightarrow> get_active_partition w' = get_active_partition w"
proof -
  assume sb: "same_boot w w'"
  have rp: "root_param w' ps = root_param w ps" for ps
    using sb by (induction ps) (simp_all add: resolve_partuuid_def same_boot_def split: option.splits)
  have "read_to_string f (dk_fs w') = read_to_string f (dk_fs w)" if "f \<in> boot_files" for f
    using sb that by (intro read_to_string_cong) (simp_all add: same_boot_def)
  then have rd: "read_to_string ''/proc/cmdline'' (dk_fs w') = read_to_string ''/proc/cmdline'' (dk_fs w)"
    "read_to_string ''/proc/mounts'' (dk_fs w') = read_to_string ''/proc/mounts'' (dk_fs w)"
    by (simp_all add: boot_files_def)
  show ?thesis
    unfolding get_active_partition_def rp rd ..
qed

lemma same_boot_state: "same_boot w w' \<Longrightarrow> load_rollback_state js w' = load_rollback_state js w"
  by (intro load_rollback_state_cong) (simp_all add: same_boot_def boot_files_def)

lemma opt_hook_benign:
  "hook_benign prog \<Longrightarrow> opt_hook prog h w = (r, w') \<Longrightarrow> same_boot w w' \<and> dk_dev w' = dk_dev w"
proof -
  assume hb: "hook_benign prog" and run: "opt_hook prog h w = (r, w')"
  then have "w' = w \<or> (\<exists>parts. w' = snd (prog parts w))"
    by (auto simp: opt_hook_def execute_hook_def Let_def split: option.splits if_splits prod.splits)
      (metis snd_conv)
  then show ?thesis
  proof
    assume "\<exists>parts. w' = snd (prog parts w)"
    with hb obtain files where "w' = w\<lparr>dk_fs := (dk_fs w)\<lparr>fs_files := files\<rparr>\<rparr>"
      "\<forall>f\<in>boot_files. files f = fs_files (dk_fs w) f"
      unfolding hook_benign_def by blast
    then show ?thesis by (simp add: same_boot_def)
  qed simp
qed

lemma flash_schedule_boot:
  assumes "flash_schedule env s p w = (r, w')" and "\<forall>f\<in>boot_files. ue_tmp env \<noteq> Inr f"
  shows "same_boot w w' \<and> (\<forall>q. q \<noteq> p \<longrightarrow> dk_dev w' q = dk_dev w q)"
proof -
  have w': "w' = snd (flash_schedule env s p w)"
    using assms(1) by simp
  show ?thesis
    unfolding w' flash_schedule_def same_boot_def
    using assms(2)
    by (simp add: image_writer.write_flags image_writer.write_links image_writer.write_reads
        image_writer.write_faults image_writer.write_other) (metis image_writer.write_files)
qed

lemma flash_schedule_verified:
  "flash_schedule env s p w = (Ok n, w') \<Longrightarrow> holds_image (ue_sha256 env) (expected_sha256 s) p w'"
  unfolding flash_schedule_def by (rule image_writer.write_verified)

lemma holds_image_cong: "dk_dev w' = dk_dev w \<Longrightarrow> holds_image sha e p w' = holds_image sha e p w"
  by (simp add: holds_image_def)

lemma record_frame:
  "record_active_partition_for_rollback js stamp w = (r, w') \<Longrightarrow>
     dk_dev w' = dk_dev w \<and> dk_flags w' = dk_flags w \<and> fs_read_err (dk_fs w') = fs_read_err (dk_fs w) \<and>
     fs_write_err (dk_fs w') = fs_write_err (dk_fs w) \<and> fs_mkdir_err (dk_fs w') = fs_mkdir_err (dk_fs w)"
  by (auto simp: record_active_partition_for_rollback_def dest!: save_rollback_state_frame split: sum.splits)

section \<open>The stages of an update\<close>

text \<open>
  How far an update got: it failed before the boot partition was switched, or it reached
  the switch with every earlier stage successful.
\<close>

lemma execute_scheduled_update_stages:
  assumes "hook_benign (ue_hook env)" and "\<forall>f\<in>boot_files. ue_tmp env \<noteq> Inr f"
    and "get_inactive_partition w = Ok p" and "execute_scheduled_update env s w = (r, w')"
  obtains (stopped) e where "r = Err e" "same_boot w w'"
      "\<forall>q. q \<noteq> part_device p \<longrightarrow> dk_dev w' q = dk_dev w q"
  | (switched) w1 w2 w3 w4 n rr rs where
      "opt_hook (ue_hook env) (pre_update_hook s) w = (Ok (), w1)"
      "flash_schedule env s (part_device p) w1 = (Ok n, w2)"
      "opt_hook (ue_hook env) (post_update_hook s) w2 = (Ok (), w3)"
      "record_active_partition_for_rollback (ue_json env) (ue_stamp env) w3 = (rr, w4)"
      "switch_boot_partition (ue_sgdisk env) (part_index p) w4 = (rs, w')"
      "r = map_err io_msg rs" "same_boot w w3"
      "\<forall>q. q \<noteq> part_device p \<longrightarrow> dk_dev w3 q = dk_dev w q"
proof -
  obtain r1 w1 where h1: "opt_hook (ue_hook env) (pre_update_hook s) w = (r1, w1)" by fastforce
  obtain r2 w2 where fl: "flash_schedule env s (part_device p) w1 = (r2, w2)" by fastforce
  obtain r3 w3 where h2: "opt_hook (ue_hook env) (post_update_hook s) w2 = (r3, w3)" by fastforce
  obtain rr w4 where rc: "record_active_partition_for_rollback (ue_json env) (ue_stamp env) w3 = (rr, w4)"
    by fastforce
  obtain rs w5 where sw: "switch_boot_partition (ue_sgdisk env) (part_index p) w4 = (rs, w5)" by fastforce
  note b1 = opt_hook_benign [OF assms(1) h1] and b2 = flash_schedule_boot [OF fl assms(2)]
    and b3 = opt_hook_benign [OF assms(1) h2]
  have sb: "same_boot w w1" "same_boot w w2" "same_boot w w3"
    using b1 b2 b3 by (blast intro: same_boot_trans)+
  note run = assms(4) [unfolded execute_scheduled_update_def assms(3) sum.case h1 prod.case]
  consider (a) e where "r1 = Err e" | (b) e where "r1 = Ok ()" "r2 = Err e"
    | (c) n e where "r1 = Ok ()" "r2 = Ok n" "r3 = Err e" | (d) n where "r1 = Ok ()" "r2 = Ok n" "r3 = Ok ()"
    by (cases r1; cases r2; cases r3) auto
  then show thesis
  proof cases
    case a
    with run sb b1 show ?thesis by (intro stopped [of e]) auto
  next
    case b
    with run sb b1 b2 fl show ?thesis by (intro stopped [of "io_msg e"]) auto
  next
    case c
    with run sb b1 b2 b3 fl h2 show ?thesis by (intro stopped [of e]) auto
  next
    case d
    with run fl h2 rc sw have "r = map_err io_msg rs" "w' = w5"
      by (cases rs; simp)+
    with d sb b1 b2 b3 h1 fl h2 rc sw show ?thesis
      by (intro switched [of w1 n w2 w3 rr w4 rs]) simp_all
  qed
qed

lemma record_succeeds:
  assumes "get_active_partition w = Ok a" and "\<forall>s. json_ok js s"
    and "fs_read_err (dk_fs w) ROLLBACK_STATE_FILE = None"
    and "fs_write_err (dk_fs w) ROLLBACK_STATE_FILE = None"
    and "fs_mkdir_err (dk_fs w) ''/var/lib/keel'' = None"
    and "record_active_partition_for_rollback js stamp w = (r, w')"
  shows "previous_partition (load_rollback_state js w') = Some (part_index a)"
proof -
  have "\<exists>d. to_json js s = Ok d" for s
    using assms(2) [rule_format, of s] by (auto simp: json_ok_def split: sum.splits)
  then have "r = Ok ()"
    using assms(1,4-6)
    by (auto simp: record_active_partition_for_rollback_def save_rollback_state_def
        path_parent_rollback_state create_dir_all_def fs_write_def split: sum.splits) (metis sum.distinct(1))+
  with record_active_Ok [of js stamp w "()" w'] assms(1-3,6) show ?thesis
    by auto
qed

section \<open>A scheduled update for the witnesses\<close>

definition demo_env :: update_env where
  "demo_env = \<lparr>ue_http = (\<lambda>_ _. Response True ''200 OK'' (Some 2) [Ok ''C'', Ok ''D'']),
     ue_sha256 = (\<lambda>b. ''0''), ue_bspatch = (\<lambda>_ _. Err ''no patch''), ue_tmp = Err ''no tmp'',
     ue_sgdisk = demo_sgdisk, ue_hook = (\<lambda>parts w. (if parts = [''false''] then ExitCode 1 else ExitCode 0, w)),
     ue_json = demo_rollback_json, ue_stamp = ''now''\<rparr>"

lemma demo_hook_benign: "hook_benign (ue_hook demo_env)"
  unfolding hook_benign_def
proof (intro allI)
  fix parts w
  show "\<exists>files. snd (ue_hook demo_env parts w) = w\<lparr>dk_fs := (dk_fs w)\<lparr>fs_files := files\<rparr>\<rparr> \<and>
      (\<forall>f\<in>boot_files. files f = fs_files (dk_fs w) f)"
    by (rule exI [of _ "fs_files (dk_fs w)"]) (simp add: demo_env_def)
qed

lemma demo_tmp: "\<forall>f\<in>boot_files. ue_tmp demo_env \<noteq> Inr f"
  by (simp add: demo_env_def)

lemma demo_inactive: "get_inactive_partition demo_disks = Ok \<lparr>part_device = ''/dev/sda3'', part_index = 3\<rparr>"
  by (simp add: get_inactive_partition_def demo_active Let_def other_slot_def SLOT_A_INDEX_def
      SLOT_B_INDEX_def is_digit_def show_word_def show_nat.simps digit_char_def)

section \<open>The table during a round of the executor\<close>

abbreviation nd_table :: "node \<Rightarrow> schedule_map" where
  "nd_table n \<equiv> schedules (nd_sched n)"

lemma nd_update_status_table:
  "nd_table (nd_update_status js now i st err n) =
     (case nd_table n i of None \<Rightarrow> nd_table n | Some s \<Rightarrow> (nd_table n)(i \<mapsto> set_status now st err s))"
  by (simp add: nd_update_status_def update_status_def persist_then_def split: option.splits prod.splits sum.splits)

lemma nd_update_status_frame [simp]:
  "dk_dev (nd_disks (nd_update_status js now i st err n)) = dk_dev (nd_disks n)"
  "dk_flags (nd_disks (nd_update_status js now i st err n)) = dk_flags (nd_disks n)"
  "dk_links (nd_disks (nd_update_status js now i st err n)) = dk_links (nd_disks n)"
  by (simp_all add: nd_update_status_def split: prod.splits)

lemma run_due_other:
  "j \<noteq> sched_id s \<Longrightarrow> nd_table (run_due js env t0 t1 t2 s n) j = nd_table n j"
  by (auto simp: run_due_def Let_def nd_update_status_table split: option.splits prod.splits sum.splits)

lemma same_plan_edit_twice: "same_plan u (set_status t st e (set_status t' st' e' u))"
  by (rule same_plan_trans) (rule same_plan_edit)+

lemma run_due_self:
  "nd_table n (sched_id s) = Some u \<Longrightarrow>
     \<exists>v. nd_table (run_due js env t0 t1 t2 s n) (sched_id s) = Some v \<and>
       (sched_status v = Completed \<or> sched_status v = Failed) \<and> same_plan u v"
  by (auto simp: run_due_def Let_def nd_update_status_table split: prod.splits sum.splits
      intro: same_plan_edit_twice)

lemma run_all_due_other:
  "j \<notin> sched_id ` set ss \<Longrightarrow> nd_table (run_all_due js envs clk ss k n) j = nd_table n j"
  by (induction ss arbitrary: k n) (simp_all add: run_due_other split: prod.splits)

lemma run_all_due_self:
  assumes "s \<in> set ss" and "distinct (List.map sched_id ss)" and "nd_table n (sched_id s) = Some u"
  shows "\<exists>v. nd_table (run_all_due js envs clk ss k n) (sched_id s) = Some v \<and>
    (sched_status v = Completed \<or> sched_status v = Failed) \<and> same_plan u v"
  using assms
proof (induction ss arbitrary: k n)
  case (Cons x xs)
  obtain t0 t1 t2 where clk: "clk k = (t0, t1, t2)" by (cases "clk k")
  let ?n = "run_due js (envs k) t0 t1 t2 x n"
  show ?case
  proof (cases "sched_id x = sched_id s")
    case True
    then have "sched_id s \<notin> sched_id ` set xs"
      using Cons.prems(2) by auto
    with run_due_self [of n x u js "envs k" t0 t1 t2] True Cons.prems(3) show ?thesis
      by (simp add: clk run_all_due_other)
  next
    case False
    with Cons.prems have "s \<in> set xs" "distinct (List.map sched_id xs)" "nd_table ?n (sched_id s) = Some u"
      by (auto simp: run_due_other)
    from Cons.IH [OF this] show ?thesis by (simp add: clk)
  qed
qed simp

lemma map_filter_distinct:
  assumes "distinct ks" and "\<And>k v. k \<in> set ks \<Longrightarrow> m k = Some v \<Longrightarrow> f v = k"
  shows "distinct (List.map f (List.map_filter m ks))"
  using assms
proof (induction ks)
  case (Cons k ks)
  have "f ` set (List.map_filter m ks) \<subseteq> set ks"
    using Cons.prems(2) by (auto simp: map_filter_set)
  moreover have "m k = Some a \<Longrightarrow> f a = k" for a
    using Cons.prems(2) by simp
  ultimately show ?case
    using Cons by (cases "m k") (auto simp: List.map_filter_simps)
qed (simp add: List.map_filter_simps)

lemma due_distinct:
  assumes "wf_table (schedules sch)" and "iter_order ks (schedules sch)"
  shows "distinct (List.map sched_id (get_due_schedules now ks sch))"
proof -
  have "distinct (List.map sched_id (hash_values ks (schedules sch)))"
    unfolding hash_values_def
    using assms by (intro map_filter_distinct) (auto simp: iter_order_def wf_table_def)
  then show ?thesis
    unfolding get_due_schedules_def by (rule distinct_map_filter)
qed

lemma due_in_table:
  assumes "wf_table (schedules sch)" and "iter_order ks (schedules sch)"
    and "s \<in> set (get_due_schedules now ks sch)"
  shows "schedules sch (sched_id s) = Some s \<and> sched_status s = Pending"
proof -
  have "s \<in> ran (schedules sch)" "is_due now s"
    using assms(2,3) by (simp_all add: get_due_schedules_def hash_values_set)
  then show ?thesis
    using assms(1) by (auto simp: ran_def wf_table_def is_due_def)
qed

section \<open>Interleaving with other callers\<close>

text \<open>
  The lock of the scheduler is held for one call at a time, so other tasks (request
  handlers, the supervisor) may act between any two calls of the executor. The state adds
  to the node what the executor task has in hand: the rest of the list it polled, and the
  schedule it is installing.
\<close>

record exec_state =
  xs_node :: node
  xs_work :: "update_schedule list"
  xs_cur :: "update_schedule option"

definition nd_run_cmd :: "schedule_map json \<Rightarrow> sched_cmd \<Rightarrow> node \<Rightarrow> node" where
  "nd_run_cmd js c n =
     (case run_cmd js c (nd_sched n) (dk_fs (nd_disks n)) of
        (_, sch', fs') \<Rightarrow> n\<lparr>nd_sched := sch', nd_disks := (nd_disks n)\<lparr>dk_fs := fs'\<rparr>\<rparr>)"

inductive xstep :: "schedule_map json \<Rightarrow> exec_state \<Rightarrow> exec_state \<Rightarrow> bool" for js where
  caller: "created_ids [c] \<inter> dom (nd_table (xs_node x)) = {} \<Longrightarrow>
     xstep js x (x\<lparr>xs_node := nd_run_cmd js c (xs_node x)\<rparr>)"
| poll: "xs_work x = [] \<Longrightarrow> xs_cur x = None \<Longrightarrow> iter_order ks (nd_table (xs_node x)) \<Longrightarrow>
     xstep js x (x\<lparr>xs_work := get_due_schedules now ks (nd_sched (xs_node x))\<rparr>)"
| expire: "xs_work x = s # ss \<Longrightarrow> xs_cur x = None \<Longrightarrow> \<not> is_within_maintenance_window t0 s \<Longrightarrow>
     xstep js x (x\<lparr>xs_node := nd_update_status js t1 (sched_id s) Failed
       (Some ''Maintenance window expired'') (xs_node x), xs_work := ss\<rparr>)"
| start: "xs_work x = s # ss \<Longrightarrow> xs_cur x = None \<Longrightarrow> is_within_maintenance_window t0 s \<Longrightarrow>
     xstep js x (x\<lparr>xs_node := nd_update_status js t1 (sched_id s) Running None (xs_node x),
       xs_work := ss, xs_cur := Some s\<rparr>)"
| finish: "xs_cur x = Some s \<Longrightarrow> execute_scheduled_update env s (nd_disks (xs_node x)) = (r, w) \<Longrightarrow>
     xstep js x (x\<lparr>xs_node := nd_update_status js t2 (sched_id s)
         (case r of Inr _ \<Rightarrow> Completed | Inl _ \<Rightarrow> Failed)
         (case r of Inr _ \<Rightarrow> None | Inl e \<Rightarrow> Some e) ((xs_node x)\<lparr>nd_disks := w\<rparr>), xs_cur := None\<rparr>)"

inductive_cases xstep_elim: "xstep js x y"

text \<open>Every schedule in the executor's hands is in the table, as the operator asked for it.\<close>

definition in_hand :: "exec_state \<Rightarrow> update_schedule set" where
  "in_hand x = set (xs_work x) \<union> set_option (xs_cur x)"

definition hand_ok :: "exec_state \<Rightarrow> bool" where
  "hand_ok x \<longleftrightarrow> wf_table (nd_table (xs_node x)) \<and>
     (\<forall>s\<in>in_hand x. \<exists>t. nd_table (xs_node x) (sched_id s) = Some t \<and> same_plan s t)"

definition table_grows :: "schedule_map \<Rightarrow> schedule_map \<Rightarrow> bool" where
  "table_grows m m' \<longleftrightarrow> (wf_table m \<longrightarrow> wf_table m') \<and>
     (\<forall>i t. m i = Some t \<longrightarrow> (\<exists>u. m' i = Some u \<and> same_plan t u))"

lemma hand_ok_grows:
  assumes "hand_ok x" and "table_grows (nd_table (xs_node x)) (nd_table (xs_node y))"
    and "in_hand y \<subseteq> in_hand x"
  shows "hand_ok y"
  using assms unfolding hand_ok_def table_grows_def by (meson same_plan_trans subsetD)

lemma nd_update_status_grows: "table_grows (nd_table n) (nd_table (nd_update_status js now i st err n))"
  by (auto simp: table_grows_def nd_update_status_table wf_table_def split: option.splits)

lemma nd_run_cmd_grows:
  assumes "created_ids [c] \<inter> dom (nd_table n) = {}"
  shows "table_grows (nd_table n) (nd_table (nd_run_cmd js c n))"
proof -
  have t: "nd_table (nd_run_cmd js c n) =
      schedules (fst (snd (run_cmd js c (nd_sched n) (dk_fs (nd_disks n)))))"
    by (simp add: nd_run_cmd_def split: prod.splits)
  show ?thesis
    unfolding table_grows_def t
    using run_cmd_wf run_cmd_keeps_plan assms by (fastforce simp: disjoint_iff)
qed

lemma xstep_hand_ok: "xstep js x y \<Longrightarrow> hand_ok x \<Longrightarrow> hand_ok y"
proof (induction rule: xstep.induct)
  case (caller c x)
  then show ?case
    by (intro hand_ok_grows [OF caller(2)]) (simp_all add: nd_run_cmd_grows in_hand_def)
next
  case (poll x ks now)
  then have wf: "wf_table (nd_table (xs_node x))"
    by (simp add: hand_ok_def)
  with poll due_in_table [OF wf poll(3)] show ?case
    by (fastforce simp: hand_ok_def in_hand_def)
next
  case (expire x s ss t0 t1)
  then show ?case
    by (intro hand_ok_grows [OF expire(4)]) (auto simp: nd_update_status_grows in_hand_def)
next
  case (start x s ss t0 t1)
  then show ?case
    by (intro hand_ok_grows [OF start(4)]) (auto simp: nd_update_status_grows in_hand_def)
next
  case (finish x s env r w t2)
  have "table_grows (nd_table (xs_node x)) (nd_table (nd_update_status js t2 (sched_id s)
      (case r of Inr _ \<Rightarrow> Completed | Inl _ \<Rightarrow> Failed) (case r of Inr _ \<Rightarrow> None | Inl e \<Rightarrow> Some e)
      ((xs_node x)\<lparr>nd_disks := w\<rparr>)))"
    using nd_update_status_grows [of "(xs_node x)\<lparr>nd_disks := w\<rparr>"] by simp
  then show ?case
    by (intro hand_ok_grows [OF finish(3)]) (auto simp: in_hand_def)
qed

lemma xsteps_hand_ok: "(xstep js)\<^sup>*\<^sup>* x y \<Longrightarrow> hand_ok x \<Longrightarrow> hand_ok y"
  by (induction rule: rtranclp_induct) (auto intro: xstep_hand_ok)

text \<open>A pass of the loop without interference is a run of the step relation.\<close>

lemma run_due_steps:
  assumes "xs_work x = s # ss" and "xs_cur x = None"
  shows "(xstep js)\<^sup>*\<^sup>* x (x\<lparr>xs_node := run_due js env t0 t1 t2 s (xs_node x), xs_work := ss\<rparr>)"
proof (cases "is_within_maintenance_window t0 s")
  case False
  then show ?thesis
    using xstep.expire [OF assms False, of js t1] by (auto simp: run_due_def)
next
  case True
  let ?n1 = "nd_update_status js t1 (sched_id s) Running None (xs_node x)"
  let ?y = "x\<lparr>xs_node := ?n1, xs_work := ss, xs_cur := Some s\<rparr>"
  obtain r w where run: "execute_scheduled_update env s (nd_disks ?n1) = (r, w)"
    by fastforce
  have "xstep js x ?y" by (rule xstep.start [OF assms True])
  moreover have "xstep js ?y (?y\<lparr>xs_node := nd_update_status js t2 (sched_id s)
         (case r of Inr _ \<Rightarrow> Completed | Inl _ \<Rightarrow> Failed)
         (case r of Inr _ \<Rightarrow> None | Inl e \<Rightarrow> Some e) (?n1\<lparr>nd_disks := w\<rparr>), xs_cur := None\<rparr>)"
    using xstep.finish [of ?y s env r w js t2] run by simp
  moreover have "?y\<lparr>xs_node := nd_update_status js t2 (sched_id s)
         (case r of Inr _ \<Rightarrow> Completed | Inl _ \<Rightarrow> Failed)
         (case r of Inr _ \<Rightarrow> None | Inl e \<Rightarrow> Some e) (?n1\<lparr>nd_disks := w\<rparr>), xs_cur := None\<rparr> =
       x\<lparr>xs_node := run_due js env t0 t1 t2 s (xs_node x), xs_work := ss\<rparr>"
    using True run assms(2) by (cases r; cases x) (simp_all add: run_due_def Let_def)
  ultimately show ?thesis
    by (metis (no_types, lifting) converse_rtranclp_into_rtranclp r_into_rtranclp)
qed

lemma run_all_due_steps:
  "xs_cur x = None \<Longrightarrow> xs_work x = ss \<Longrightarrow>
     (xstep js)\<^sup>*\<^sup>* x (x\<lparr>xs_node := run_all_due js envs clk ss k (xs_node x), xs_work := []\<rparr>)"
proof (induction ss arbitrary: x k)
  case Nil
  then have "x\<lparr>xs_node := xs_node x, xs_work := []\<rparr> = x" by (cases x) simp
  then show ?case by simp
next
  case (Cons s ss)
  obtain t0 t1 t2 where clk: "clk k = (t0, t1, t2)" by (cases "clk k")
  let ?y = "x\<lparr>xs_node := run_due js (envs k) t0 t1 t2 s (xs_node x), xs_work := ss\<rparr>"
  have "(xstep js)\<^sup>*\<^sup>* x ?y"
    by (rule run_due_steps [OF Cons.prems(2,1)])
  moreover have "(xstep js)\<^sup>*\<^sup>* ?y (?y\<lparr>xs_node := run_all_due js envs clk ss (k + 1) (xs_node ?y), xs_work := []\<rparr>)"
    by (rule Cons.IH) (use Cons.prems in simp_all)
  ultimately show ?case
    by (simp add: clk)
qed

section \<open>Properties\<close>

text \<open>
  C4. An update never points the node at an image that was not completely written and
  verified: the boot flags change only when both hooks succeeded and the inactive device
  holds an image with the expected digest. Whatever happens, only the inactive device is
  written, and a successful update has flagged the inactive slot.
\<close>

theorem update_boots_only_verified:
  assumes "hook_benign (ue_hook env)" and "\<forall>f\<in>boot_files. ue_tmp env \<noteq> Inr f"
    and "sgdisk_doc (ue_sgdisk env)"
    and "get_inactive_partition w = Ok p" and "execute_scheduled_update env s w = (r, w')"
  shows "(\<forall>q. q \<noteq> part_device p \<longrightarrow> dk_dev w' q = dk_dev w q) \<and>
    (dk_flags w' \<noteq> dk_flags w \<longrightarrow>
       holds_image (ue_sha256 env) (expected_sha256 s) (part_device p) w' \<and>
       (\<exists>w1 n w2 w3. opt_hook (ue_hook env) (pre_update_hook s) w = (Ok (), w1) \<and>
          flash_schedule env s (part_device p) w1 = (Ok n, w2) \<and>
          opt_hook (ue_hook env) (post_update_hook s) w2 = (Ok (), w3))) \<and>
    (r = Ok () \<longrightarrow> dk_flags w' (part_index p))"
  using assms(1,2,4,5)
proof (cases rule: execute_scheduled_update_stages)
  case (stopped e)
  then show ?thesis by (simp add: same_boot_def)
next
  case (switched w1 w2 w3 w4 n rr rs)
  have dev: "dk_dev w' = dk_dev w3" "dk_dev w3 = dk_dev w2"
    using switch_frame [OF switched(5)] record_frame [OF switched(4)]
      opt_hook_benign [OF assms(1) switched(3)] by simp_all
  then have "holds_image (ue_sha256 env) (expected_sha256 s) (part_device p) w'"
    using flash_schedule_verified [OF switched(2)] holds_image_cong [of w' w2] by simp
  moreover have "r = Ok () \<Longrightarrow> dk_flags w' (part_index p)"
    using switch_flags [OF assms(3) switched(5)] switched(6) by (auto simp: map_err_eq_Ok [symmetric])
  ultimately show ?thesis
    using switched(1,2,3,8) dev by auto
qed

theorem update_boots_only_verified_witness:
  "\<exists>w'. execute_scheduled_update demo_env ((demo_schedule ''a'' (Some 0))\<lparr>pre_update_hook := Some ''false''\<rparr>)
     demo_disks = (Err ''Hook failed with exit code: Some(1)'', w') \<and> dk_flags w' = dk_flags demo_disks"
proof -
  let ?s = "(demo_schedule ''a'' (Some 0))\<lparr>pre_update_hook := Some ''false''\<rparr>"
  have h: "fst (opt_hook (ue_hook demo_env) (pre_update_hook ?s) demo_disks) = Err ''Hook failed with exit code: Some(1)''"
    by (simp add: opt_hook_def execute_hook_def split_whitespace_def is_ws_def demo_env_def
        show_int_def show_nat.simps digit_char_def)
  obtain w' where run: "execute_scheduled_update demo_env ?s demo_disks = (Err ''Hook failed with exit code: Some(1)'', w')"
    using h by (cases "opt_hook (ue_hook demo_env) (pre_update_hook ?s) demo_disks")
      (simp add: execute_scheduled_update_def demo_inactive)
  have "sgdisk_doc (ue_sgdisk demo_env)"
    by (simp add: demo_env_def demo_sgdisk_doc)
  from update_boots_only_verified [OF demo_hook_benign demo_tmp this demo_inactive run] h run
  show ?thesis by auto
qed

text \<open>What a successful update leaves behind, when the rollback record could be written.\<close>

lemma update_records_previous:
  assumes "hook_benign (ue_hook env)" and "\<forall>f\<in>boot_files. ue_tmp env \<noteq> Inr f"
    and "sgdisk_doc (ue_sgdisk env)" and "\<forall>st. json_ok (ue_json env) st"
    and "fs_read_err (dk_fs w) ROLLBACK_STATE_FILE = None"
    and "fs_write_err (dk_fs w) ROLLBACK_STATE_FILE = None"
    and "fs_mkdir_err (dk_fs w) ''/var/lib/keel'' = None"
    and "get_active_partition w = Ok a"
    and "execute_scheduled_update env s w = (Ok (), w1)"
  shows "dk_flags w1 (other_slot (part_index a)) \<and> dk_dev w1 (part_device a) = dk_dev w (part_device a) \<and>
    previous_partition (load_rollback_state (ue_json env) w1) = Some (part_index a) \<and>
    fs_read_err (dk_fs w1) = fs_read_err (dk_fs w) \<and> fs_write_err (dk_fs w1) = fs_write_err (dk_fs w) \<and>
    fs_mkdir_err (dk_fs w1) = fs_mkdir_err (dk_fs w)"
proof -
  obtain p where p: "get_inactive_partition w = Ok p" "part_index p = other_slot (part_index a)"
    "part_device p \<noteq> part_device a"
  proof -
    have "\<exists>p. get_inactive_partition w = Ok p \<and> part_index p = other_slot (part_index a)"
      by (simp add: get_inactive_partition_def assms(8) Let_def)
    moreover have "part_device p \<noteq> part_device a" if "get_inactive_partition w = Ok p" for p
      using inactive_device_neq [OF assms(8) that] .
    ultimately show thesis using that by blast
  qed
  show ?thesis
    using assms(1,2) p(1) assms(9)
  proof (cases rule: execute_scheduled_update_stages)
    case (stopped e)
    then show ?thesis by simp
  next
    case (switched v1 v2 v3 v4 n rr rs)
    have act: "get_active_partition v3 = Ok a"
      using same_boot_active [OF switched(7)] assms(8) by simp
    have "previous_partition (load_rollback_state (ue_json env) v4) = Some (part_index a)"
      by (rule record_succeeds [OF act assms(4) _ _ _ switched(4)])
        (use switched(7) assms(5-7) in \<open>simp_all add: same_boot_def\<close>)
    moreover have "rs = Ok ()"
      using switched(6) by (cases rs) auto
    ultimately show ?thesis
      using switch_flags [OF assms(3) switched(5)] switch_frame [OF switched(5)]
        switch_keeps_rollback_state [OF switched(5)] record_frame [OF switched(4)] switched(7,8) p(2,3)
      by (auto simp: same_boot_def)
  qed
qed

text \<open>
  An update followed by a rollback restores the old system: the slot that was active
  before is flagged for boot again and its device still holds the same bytes, provided
  the rollback record could be written.
\<close>

lemma update_then_rollback:
  assumes "hook_benign (ue_hook env)" and "\<forall>f\<in>boot_files. ue_tmp env \<noteq> Inr f"
    and "sgdisk_doc (ue_sgdisk env)" and "\<forall>st. json_ok (ue_json env) st"
    and "fs_read_err (dk_fs w) ROLLBACK_STATE_FILE = None"
    and "fs_write_err (dk_fs w) ROLLBACK_STATE_FILE = None"
    and "fs_mkdir_err (dk_fs w) ''/var/lib/keel'' = None"
    and "get_active_partition w = Ok a"
    and "execute_scheduled_update env s w = (Ok (), w1)"
    and "rollback_to_previous_partition (ue_json env) (ue_sgdisk env) w1 = (Ok (), w2)"
  shows "dk_flags w1 (other_slot (part_index a)) \<and> dk_flags w2 (part_index a) \<and>
    dk_dev w2 (part_device a) = dk_dev w (part_device a)"
  using update_records_previous [OF assms(1-9)] rollback_Ok [OF assms(10,3,4)] assms(5) by auto

lemma demo_execute_on:
  assumes w: "same_boot demo_disks w" "dk_dev w = dk_dev demo_disks" "fault_free w"
  shows "\<exists>w1. execute_scheduled_update demo_env (demo_schedule ''a'' (Some 0)) w = (Ok (), w1) \<and> fault_free w1"
proof -
  let ?s = "demo_schedule ''a'' (Some 0)"
  have s: "pre_update_hook ?s = None" "post_update_hook ?s = None" "is_delta ?s = False" "expected_sha256 ?s = None"
    by (simp_all add: demo_schedule_def make_schedule_def)
  let ?w2 = "put_dev ''/dev/sda3'' (demo_device ''CDBB'') w"
  have fl: "flash_schedule demo_env ?s ''/dev/sda3'' w = (Ok 0, ?w2)"
    using w(2) by (simp add: flash_schedule_def flash_image_def s flash_full_image_def demo_env_def dev_open_def
        demo_disks_def demo_device_def dev_write_all_def overwrite_def dev_sync_def verify_sha256_def Let_def)
  have act: "get_active_partition w = Ok \<lparr>part_device = ''/dev/sda2'', part_index = 2\<rparr>"
    "get_active_partition ?w2 = Ok \<lparr>part_device = ''/dev/sda2'', part_index = 2\<rparr>"
    using same_boot_active [OF w(1)] same_boot_active [of w ?w2] demo_active by (simp_all add: same_boot_def)
  have inact: "get_inactive_partition w = Ok \<lparr>part_device = ''/dev/sda3'', part_index = 3\<rparr>"
    using demo_inactive demo_active act(1) by (simp add: get_inactive_partition_def)
  have ff: "fault_free ?w2" using w(3) by (simp add: fault_free_def)
  have "\<exists>w4. record_active_partition_for_rollback demo_rollback_json ''now'' ?w2 = (Ok (), w4) \<and> fault_free w4"
    using demo_save_runs [OF ff] by (simp add: record_active_partition_for_rollback_def act(2)) blast
  then obtain w4 where rc: "record_active_partition_for_rollback demo_rollback_json ''now'' ?w2 = (Ok (), w4)"
    and ff4: "fault_free w4" by blast
  obtain w5 where "switch_boot_partition demo_sgdisk 3 w4 = (Ok (), w5)" "fault_free w5"
    using demo_switch_runs [OF ff4, of 3] by blast
  moreover have "ue_json demo_env = demo_rollback_json" "ue_stamp demo_env = ''now''" "ue_sgdisk demo_env = demo_sgdisk"
    by (simp_all add: demo_env_def)
  ultimately show ?thesis
    using fl rc by (simp add: execute_scheduled_update_def inact opt_hook_def s)
qed

lemma demo_execute:
  "\<exists>w1. execute_scheduled_update demo_env (demo_schedule ''a'' (Some 0)) demo_disks = (Ok (), w1) \<and> fault_free w1"
  by (rule demo_execute_on) (simp_all add: fault_free_def demo_disks_def path_exists_def)

lemma update_then_rollback_witness:
  "\<exists>w1 w2. execute_scheduled_update demo_env (demo_schedule ''a'' (Some 0)) demo_disks = (Ok (), w1) \<and>
     rollback_to_previous_partition demo_rollback_json demo_sgdisk w1 = (Ok (), w2) \<and>
     dk_flags w1 3 \<and> dk_flags w2 2"
proof -
  let ?s = "demo_schedule ''a'' (Some 0)"
  obtain w1 where run: "execute_scheduled_update demo_env ?s demo_disks = (Ok (), w1)" and ff: "fault_free w1"
    using demo_execute by blast
  have env: "ue_json demo_env = demo_rollback_json" "ue_sgdisk demo_env = demo_sgdisk"
    by (simp_all add: demo_env_def)
  have doc: "sgdisk_doc (ue_sgdisk demo_env)" "\<forall>st. json_ok (ue_json demo_env) st"
    by (simp_all add: env demo_sgdisk_doc demo_rollback_json_ok)
  have clean: "fs_read_err (dk_fs demo_disks) ROLLBACK_STATE_FILE = None"
    "fs_write_err (dk_fs demo_disks) ROLLBACK_STATE_FILE = None"
    "fs_mkdir_err (dk_fs demo_disks) ''/var/lib/keel'' = None"
    by (simp_all add: demo_disks_def)
  have "previous_partition (load_rollback_state demo_rollback_json w1) = Some 2"
    using demo_hook_benign demo_tmp demo_inactive run
  proof (cases rule: execute_scheduled_update_stages)
    case (switched v1 v2 v3 v4 n rr rs)
    have act: "get_active_partition v3 = Ok \<lparr>part_device = ''/dev/sda2'', part_index = 2\<rparr>"
      using same_boot_active [OF switched(7)] demo_active by simp
    have "previous_partition (load_rollback_state (ue_json demo_env) v4) = Some 2"
      using record_succeeds [OF act doc(2) _ _ _ switched(4)] switched(7) clean by (simp add: same_boot_def)
    then show ?thesis
      using switch_keeps_rollback_state [OF switched(5)] env by simp
  qed simp
  then obtain w2 where rb: "rollback_to_previous_partition demo_rollback_json demo_sgdisk w1 = (Ok (), w2)"
    using demo_rollback_runs [OF ff] by blast
  from update_then_rollback [OF demo_hook_benign demo_tmp doc clean demo_active run] rb run show ?thesis
    by (simp add: env other_slot_def SLOT_A_INDEX_def SLOT_B_INDEX_def)
qed

text \<open>
  C18. One round of the executor settles what it polled and nothing else: every schedule
  that was due ends the round completed or failed, with the operator's request intact, and
  every other entry of the table is as before.
\<close>

theorem executor_tick_settles:
  assumes "wf_table (nd_table n)" and "iter_order ks (nd_table n)"
    and "n' = schedule_executor_tick js envs clk now ks n"
  shows "(\<forall>s\<in>set (get_due_schedules now ks (nd_sched n)).
      \<exists>t. nd_table n' (sched_id s) = Some t \<and> same_plan s t \<and>
        (sched_status t = Completed \<or> sched_status t = Failed)) \<and>
    (\<forall>i. (\<forall>s\<in>set (get_due_schedules now ks (nd_sched n)). sched_id s \<noteq> i) \<longrightarrow> nd_table n' i = nd_table n i)"
proof (intro conjI ballI allI impI)
  fix s
  assume s: "s \<in> set (get_due_schedules now ks (nd_sched n))"
  have "nd_table n (sched_id s) = Some s"
    using due_in_table [OF assms(1,2) s] by simp
  from run_all_due_self [OF s due_distinct [OF assms(1,2)] this]
  show "\<exists>t. nd_table n' (sched_id s) = Some t \<and> same_plan s t \<and>
      (sched_status t = Completed \<or> sched_status t = Failed)"
    unfolding assms(3) schedule_executor_tick_def by blast
next
  fix i
  assume "\<forall>s\<in>set (get_due_schedules now ks (nd_sched n)). sched_id s \<noteq> i"
  then show "nd_table n' i = nd_table n i"
    unfolding assms(3) schedule_executor_tick_def by (intro run_all_due_other) auto
qed

definition demo_node :: node where
  "demo_node = \<lparr>nd_sched = demo_scheduler, nd_disks = demo_disks\<rparr>"

definition demo_json :: "schedule_map json" where
  "demo_json = \<lparr>to_json = (\<lambda>_. Ok ''doc''), from_json = (\<lambda>_. Err ''e'')\<rparr>"

lemma demo_due: "demo_schedule ''b'' (Some 10) \<in> set (get_due_schedules 12 [''a'', ''b''] demo_scheduler)"
  by (simp add: get_due_schedules_def hash_values_def List.map_filter_simps demo_scheduler_def
      is_due_def demo_schedule_def make_schedule_def)

lemma demo_node_simps [simp]: "nd_sched demo_node = demo_scheduler"
  by (simp add: demo_node_def)

theorem executor_tick_settles_witness:
  "\<exists>t. nd_table (schedule_executor_tick demo_json (\<lambda>_. demo_env) (\<lambda>_. (12, 13, 14)) 12 [''a'', ''b''] demo_node) ''b'' =
     Some t \<and> (sched_status t = Completed \<or> sched_status t = Failed)"
proof -
  let ?n' = "schedule_executor_tick demo_json (\<lambda>_. demo_env) (\<lambda>_. (12, 13, 14)) 12 [''a'', ''b''] demo_node"
  have "wf_table (nd_table demo_node)" "iter_order [''a'', ''b''] (nd_table demo_node)"
    using demo_scheduler_wf by (auto simp: iter_order_def demo_scheduler_def)
  from executor_tick_settles [OF this refl, where js = demo_json and envs = "\<lambda>_. demo_env"
      and clk = "\<lambda>_. (12, 13, 14)" and now = 12] demo_due
  have "\<exists>t. nd_table ?n' (sched_id (demo_schedule ''b'' (Some 10))) = Some t \<and>
      (sched_status t = Completed \<or> sched_status t = Failed)"
    by (simp only: demo_node_simps) blast
  then show ?thesis
    by (simp add: demo_schedule_def make_schedule_def)
qed

text \<open>
  The round of the executor is one run of the interleaving model in which nobody else
  acts.
\<close>

lemma executor_tick_run:
  assumes "xs_work x = []" and "xs_cur x = None" and "iter_order ks (nd_table (xs_node x))"
  shows "(xstep js)\<^sup>*\<^sup>* x (x\<lparr>xs_node := schedule_executor_tick js envs clk now ks (xs_node x)\<rparr>)"
proof -
  let ?due = "get_due_schedules now ks (nd_sched (xs_node x))"
  let ?y = "x\<lparr>xs_work := ?due\<rparr>"
  have "xstep js x ?y"
    by (rule xstep.poll [OF assms])
  moreover have "(xstep js)\<^sup>*\<^sup>* ?y (?y\<lparr>xs_node := run_all_due js envs clk ?due 0 (xs_node ?y), xs_work := []\<rparr>)"
    by (rule run_all_due_steps) (use assms in simp_all)
  moreover have "?y\<lparr>xs_node := run_all_due js envs clk ?due 0 (xs_node ?y), xs_work := []\<rparr> =
      x\<lparr>xs_node := schedule_executor_tick js envs clk now ks (xs_node x)\<rparr>"
    using assms(1) by (cases x) (simp add: schedule_executor_tick_def)
  ultimately show ?thesis
    by (metis (no_types, lifting) converse_rtranclp_into_rtranclp)
qed

definition demo_exec :: exec_state where
  "demo_exec = \<lparr>xs_node = demo_node, xs_work = [], xs_cur = None\<rparr>"

lemma demo_exec_order: "iter_order [''a'', ''b''] (nd_table (xs_node demo_exec))"
  by (auto simp: demo_exec_def iter_order_def demo_scheduler_def)

text \<open>
  C20. Under any interleaving with other callers that draw fresh identifiers, the table
  stays well-formed, and whatever the executor holds or installs is what the operator
  asked for: its entry is still in the table with the same request.
\<close>

theorem interleaved_executor_invariant:
  assumes "(xstep js)\<^sup>*\<^sup>* x y" and "wf_table (nd_table (xs_node x))"
    and "xs_work x = []" and "xs_cur x = None"
  shows "wf_table (nd_table (xs_node y)) \<and>
    (\<forall>s\<in>in_hand y. \<exists>t. nd_table (xs_node y) (sched_id s) = Some t \<and> same_plan s t)"
proof -
  have "hand_ok x"
    using assms(2-4) by (simp add: hand_ok_def in_hand_def)
  with xsteps_hand_ok [OF assms(1)] show ?thesis
    by (simp add: hand_ok_def)
qed

theorem interleaved_executor_invariant_witness:
  "\<exists>t. nd_table (nd_run_cmd demo_json (CmdCancel ''b'') demo_node) ''b'' = Some t \<and>
     same_plan (demo_schedule ''b'' (Some 10)) t"
proof -
  let ?x1 = "demo_exec\<lparr>xs_work := get_due_schedules 12 [''a'', ''b''] (nd_sched (xs_node demo_exec))\<rparr>"
  let ?x2 = "?x1\<lparr>xs_node := nd_run_cmd demo_json (CmdCancel ''b'') (xs_node ?x1)\<rparr>"
  have s1: "xstep demo_json demo_exec ?x1"
    by (rule xstep.poll [OF _ _ demo_exec_order]) (simp_all add: demo_exec_def)
  have "xstep demo_json ?x1 ?x2"
    by (rule xstep.caller) simp
  with s1 have "(xstep demo_json)\<^sup>*\<^sup>* demo_exec ?x2"
    by (meson converse_rtranclp_into_rtranclp r_into_rtranclp)
  from interleaved_executor_invariant [OF this] demo_scheduler_wf demo_due
  have "\<exists>t. nd_table (xs_node ?x2) (sched_id (demo_schedule ''b'' (Some 10))) = Some t \<and>
      same_plan (demo_schedule ''b'' (Some 10)) t"
    by (simp add: demo_exec_def in_hand_def)
  then show ?thesis
    by (simp add: demo_exec_def demo_schedule_def make_schedule_def)
qed

lemma successful_update:
  assumes "hook_benign (ue_hook env)" and "\<forall>f\<in>boot_files. ue_tmp env \<noteq> Inr f" and "sgdisk_doc (ue_sgdisk env)"
    and "get_inactive_partition w = Ok p" and "execute_scheduled_update env s w = (Ok (), w')"
  shows "dk_flags w' (part_index p) \<and> holds_image (ue_sha256 env) (expected_sha256 s) (part_device p) w'"
  using assms(1,2,4,5)
proof (cases rule: execute_scheduled_update_stages)
  case (switched w1 w2 w3 w4 n rr rs)
  have "dk_dev w' = dk_dev w2"
    using switch_frame [OF switched(5)] record_frame [OF switched(4)] opt_hook_benign [OF assms(1) switched(3)] by simp
  then have "holds_image (ue_sha256 env) (expected_sha256 s) (part_device p) w'"
    using flash_schedule_verified [OF switched(2)] holds_image_cong [of w' w2] by simp
  moreover have "rs = Ok ()"
    using switched(6) by (cases rs) auto
  ultimately show ?thesis
    using switch_flags [OF assms(3) switched(5)] by auto
qed simp

text \<open>
  C21. The poll and the installation are not atomic: a schedule that is cancelled after it was
  polled is installed all the same. From a state in which the executor has the schedule in
  hand and its entry is pending, a cancellation that takes effect, the start of the update
  and its end can follow each other: the entry goes from cancelled to running and on to
  completed or failed as the update ends, the devices and the boot flags are those the
  update leaves, and when it succeeds the inactive slot has the image and the boot flag.
\<close>

theorem cancelled_schedule_still_runs:
  assumes work: "xs_work x = s # ss" "xs_cur x = None" "is_within_maintenance_window t0 s"
    and entry: "nd_table (xs_node x) (sched_id s) = Some s" "sched_status s = Pending"
    and env: "hook_benign (ue_hook env)" "\<forall>f\<in>boot_files. ue_tmp env \<noteq> Inr f" "sgdisk_doc (ue_sgdisk env)"
  shows "\<exists>y z u r w. xstep js x y \<and> xstep js y z \<and> xstep js z u \<and>
    y = x\<lparr>xs_node := nd_run_cmd js (CmdCancel (sched_id s)) (xs_node x)\<rparr> \<and>
    map_option sched_status (nd_table (xs_node y) (sched_id s)) = Some Cancelled \<and>
    map_option sched_status (nd_table (xs_node z) (sched_id s)) = Some Running \<and>
    execute_scheduled_update env s (nd_disks (xs_node z)) = (r, w) \<and>
    map_option sched_status (nd_table (xs_node u) (sched_id s)) = Some (case r of Inr _ \<Rightarrow> Completed | Inl _ \<Rightarrow> Failed) \<and>
    dk_dev (nd_disks (xs_node u)) = dk_dev w \<and> dk_flags (nd_disks (xs_node u)) = dk_flags w \<and>
    (\<forall>p. r = Ok () \<and> get_inactive_partition (nd_disks (xs_node z)) = Ok p \<longrightarrow>
       dk_flags (nd_disks (xs_node u)) (part_index p) \<and>
       holds_image (ue_sha256 env) (expected_sha256 s) (part_device p) (nd_disks (xs_node u)))"
proof -
  let ?y = "x\<lparr>xs_node := nd_run_cmd js (CmdCancel (sched_id s)) (xs_node x)\<rparr>"
  let ?z = "?y\<lparr>xs_node := nd_update_status js t0 (sched_id s) Running None (xs_node ?y),
       xs_work := ss, xs_cur := Some s\<rparr>"
  obtain r w where run: "execute_scheduled_update env s (nd_disks (xs_node ?z)) = (r, w)" by fastforce
  let ?u = "?z\<lparr>xs_node := nd_update_status js t0 (sched_id s) (case r of Inr _ \<Rightarrow> Completed | Inl _ \<Rightarrow> Failed)
      (case r of Inr _ \<Rightarrow> None | Inl e \<Rightarrow> Some e) ((xs_node ?z)\<lparr>nd_disks := w\<rparr>), xs_cur := None\<rparr>"
  have st: "nd_table (xs_node ?y) (sched_id s) = Some (s\<lparr>sched_status := Cancelled\<rparr>)"
    using entry by (simp add: nd_run_cmd_def cancel_schedule_def persist_then_def split: prod.splits sum.splits)
  have "xstep js x ?y"
    by (rule xstep.caller) simp
  moreover have "xstep js ?y ?z"
    by (rule xstep.start [OF _ _ work(3)]) (use work(1,2) in simp_all)
  moreover have "xstep js ?z ?u"
    by (rule xstep.finish [OF _ run]) simp
  moreover have "map_option sched_status (nd_table (xs_node ?z) (sched_id s)) = Some Running"
    "map_option sched_status (nd_table (xs_node ?u) (sched_id s)) = Some (case r of Inr _ \<Rightarrow> Completed | Inl _ \<Rightarrow> Failed)"
    using st by (simp_all add: nd_update_status_table)
  moreover have "dk_flags w (part_index p) \<and> holds_image (ue_sha256 env) (expected_sha256 s) (part_device p) (nd_disks (xs_node ?u))"
    if "r = Ok ()" "get_inactive_partition (nd_disks (xs_node ?z)) = Ok p" for p
    using successful_update [OF env that(2) run [unfolded that(1)]] holds_image_cong [of "nd_disks (xs_node ?u)" w] by simp
  ultimately show ?thesis
    using st run by (intro exI [of _ ?y] exI [of _ ?z] exI [of _ ?u] exI [of _ r] exI [of _ w]) simp
qed

theorem cancelled_schedule_still_runs_witness:
  "\<exists>y z u. (xstep demo_json)\<^sup>*\<^sup>* demo_exec y \<and> xstep demo_json y z \<and> xstep demo_json z u \<and>
     map_option sched_status (nd_table (xs_node y) ''b'') = Some Cancelled \<and>
     map_option sched_status (nd_table (xs_node z) ''b'') = Some Running \<and>
     map_option sched_status (nd_table (xs_node u) ''b'') \<in> {Some Completed, Some Failed}"
proof -
  let ?b = "demo_schedule ''b'' (Some 10)"
  let ?x1 = "demo_exec\<lparr>xs_work := get_due_schedules 12 [''a'', ''b''] (nd_sched (xs_node demo_exec))\<rparr>"
  have s1: "xstep demo_json demo_exec ?x1"
    by (rule xstep.poll [OF _ _ demo_exec_order]) (simp_all add: demo_exec_def)
  have b: "sched_id ?b = ''b''" "sched_status ?b = Pending" "scheduled_at ?b = Some 10"
    "maintenance_window_secs ?b = Some 60"
    by (simp_all add: demo_schedule_def make_schedule_def)
  have due: "get_due_schedules 12 [''a'', ''b''] demo_scheduler = [?b]"
    by (simp add: get_due_schedules_def hash_values_def List.map_filter_simps demo_scheduler_def
        is_due_def b)
  have win: "is_within_maintenance_window 12 ?b"
    by (simp add: is_within_maintenance_window_def b seconds_def)
  have x1: "xs_work ?x1 = [?b]" "xs_cur ?x1 = None" "nd_table (xs_node ?x1) (sched_id ?b) = Some ?b"
    by (simp_all add: demo_exec_def due b) (simp add: demo_scheduler_def)
  have doc: "sgdisk_doc (ue_sgdisk demo_env)"
    by (simp add: demo_env_def demo_sgdisk_doc)
  obtain y z u and r :: "string + unit" where "xstep demo_json ?x1 y" "xstep demo_json y z" "xstep demo_json z u"
    "map_option sched_status (nd_table (xs_node y) ''b'') = Some Cancelled"
    "map_option sched_status (nd_table (xs_node z) ''b'') = Some Running"
    "map_option sched_status (nd_table (xs_node u) ''b'') = Some (case r of Inr _ \<Rightarrow> Completed | Inl _ \<Rightarrow> Failed)"
    using cancelled_schedule_still_runs [OF x1(1,2) win x1(3) b(2) demo_hook_benign demo_tmp doc, of demo_json]
    unfolding b(1) by (elim exE conjE) (rule that)
  with s1 show ?thesis
    by (intro exI [of _ y] exI [of _ z] exI [of _ u]) (cases r; auto intro: converse_rtranclp_into_rtranclp)
qed

text \<open>
  C22. The supervisor acts only on cause: it changes the schedule table or the disks only
  when a critical health check failed and the latest active schedule asked for automatic
  rollback; and it reboots only when, beyond that, the recorded previous partition has
  been flagged for boot. No device is ever written.
\<close>

theorem supervisor_acts_on_cause:
  assumes "rollback_supervisor js rjs sg env hks ks1 ks2 now hc n = (reboot, hc', n')"
    and "iter_order hks (hc_checks hc)" and "sgdisk_doc sg"
    and "load_rollback_state rjs ((nd_disks n)\<lparr>dk_fs := snd (snd (register_rollback js ks2 now
          ''Critical health failure at boot'' (nd_sched n) (dk_fs (nd_disks n))))\<rparr>) =
        load_rollback_state rjs (nd_disks n)"
  shows "dk_dev (nd_disks n') = dk_dev (nd_disks n) \<and>
    (n' \<noteq> n \<longrightarrow> grade env (hc_checks hc) = Unhealthy \<and>
       (\<exists>s. get_latest_active_schedule ks1 (nd_sched n) = Some s \<and> enable_auto_rollback s)) \<and>
    (reboot \<longrightarrow> (\<exists>i. previous_partition (load_rollback_state rjs (nd_disks n)) = Some i \<and>
       dk_flags (nd_disks n') i))"
proof (cases "n' = n \<and> \<not> reboot")
  case False
  obtain o1 hc1 where run: "run_all_checks env hks hc = (o1, hc1)" by fastforce
  obtain r sch' fs' where reg: "register_rollback js ks2 now ''Critical health failure at boot''
      (nd_sched n) (dk_fs (nd_disks n)) = (r, sch', fs')"
    by (metis prod_cases3)
  let ?w = "(nd_disks n)\<lparr>dk_fs := fs'\<rparr>"
  obtain rb w' where rbk: "rollback_to_previous_partition rjs sg ?w = (rb, w')" by fastforce
  note sup = assms(1) [unfolded rollback_supervisor_def run prod.case reg rbk]
  obtain st exs where o1: "o1 = Some (st, exs)"
    using sup False by (cases o1) auto
  have un: "st = Unhealthy"
    using sup False by (auto simp: o1 split: if_splits)
  obtain s where s: "get_latest_active_schedule ks1 (nd_sched n) = Some s" "enable_auto_rollback s"
    using sup False by (cases "get_latest_active_schedule ks1 (nd_sched n)") (auto simp: o1 un split: if_splits)
  have n': "nd_disks n' = w'" "reboot \<longleftrightarrow> rb = Ok ()"
    using sup by (cases rb; simp add: o1 un s; force)+
  have "grade env (hc_checks hc) = Unhealthy"
    using run_all_checks_grade [OF assms(2)] run o1 un by simp
  moreover have "dk_dev w' = dk_dev (nd_disks n)"
    using rbk by (auto simp: rollback_to_previous_partition_def dest!: switch_frame save_rollback_state_frame
        split: option.splits prod.splits sum.splits)
  moreover have "\<exists>i. previous_partition (load_rollback_state rjs (nd_disks n)) = Some i \<and> dk_flags w' i"
    if "rb = Ok ()"
  proof -
    have "load_rollback_state rjs ?w = load_rollback_state rjs (nd_disks n)"
      using assms(4) reg by simp
    with rbk that show ?thesis
      using switch_flags [OF assms(3)]
      by (fastforce simp: rollback_to_previous_partition_def dest!: save_rollback_state_frame
          split: option.splits prod.splits sum.splits)
  qed
  ultimately show ?thesis
    using s n' by auto
qed simp

text \<open>
  The schedule is marked as rolled back before the rollback is tried: with no
  previous partition on record the supervisor still marks the latest active schedule as
  rolled back, while the boot flags stay and no reboot follows.
\<close>

lemma supervisor_registers_without_rollback:
  assumes "iter_order hks (hc_checks hc)" and "fst (run_all_checks env hks hc) = Some (Unhealthy, exs)"
    and "wf_table (nd_table n)" and "iter_order ks (nd_table n)"
    and "get_latest_active_schedule ks (nd_sched n) = Some s" and "enable_auto_rollback s"
    and "previous_partition (load_rollback_state rjs ((nd_disks n)\<lparr>dk_fs := snd (snd
          (register_rollback js ks now ''Critical health failure at boot'' (nd_sched n) (dk_fs (nd_disks n))))\<rparr>)) = None"
  shows "\<exists>hc' n'. rollback_supervisor js rjs sg env hks ks ks now hc n = (False, hc', n') \<and>
    map_option sched_status (nd_table n' (sched_id s)) = Some RolledBack \<and>
    dk_flags (nd_disks n') = dk_flags (nd_disks n)"
proof -
  obtain r sch' fs' where reg: "register_rollback js ks now ''Critical health failure at boot''
      (nd_sched n) (dk_fs (nd_disks n)) = (r, sch', fs')"
    by (metis prod_cases3)
  obtain hc1 where run: "run_all_checks env hks hc = (Some (Unhealthy, exs), hc1)"
    using assms(2) by (cases "run_all_checks env hks hc") simp
  have "nd_table n (sched_id s) = Some s"
    using latest_active_Some [OF assms(4,5)] assms(3) by (auto simp: ran_def wf_table_def)
  then have "schedules sch' (sched_id s) = Some (mark_rolled_back now ''Critical health failure at boot'' s)"
    using reg assms(5) by (simp add: register_rollback_alt latest_active_key_def persist_then_eq)
  moreover have "rollback_to_previous_partition rjs sg ((nd_disks n)\<lparr>dk_fs := fs'\<rparr>) =
      (Err (NotFound ''No previous partition recorded for rollback''), (nd_disks n)\<lparr>dk_fs := fs'\<rparr>)"
    using assms(7) reg by (simp add: rollback_to_previous_partition_def)
  ultimately show ?thesis
    using assms(5,6) run reg by (simp add: rollback_supervisor_def)
qed

definition sick_probe :: probe where
  "sick_probe = demo_probe\<lparr>pr_connect := (\<lambda>_. Err ''refused'')\<rparr>"

lemma sick_run:
  "\<exists>exs. fst (run_all_checks (\<lambda>_. (sick_probe, 1)) [''api'', ''boot'', ''network'']
     (new_health_checker default_health_config)) = Some (Unhealthy, exs)"
proof -
  have "perform_check (ApiCheck 50051) sick_probe = Some (Fail (''API port '' @ show_word (50051 :: u16) @ '' not reachable: refused''))"
    by (simp add: sick_probe_def api_check_def)
  moreover have "perform_check BootCheck sick_probe = Some Pass"
    "perform_check NetworkCheck sick_probe = Some (Fail (''Cannot read network interfaces: '' @ enoent))"
    using demo_checks(1,2) by (simp_all add: sick_probe_def boot_check_def network_check_def)
  ultimately show ?thesis
    by (simp add: run_all_checks_def new_health_checker_def Let_def del: perform_check.simps)
qed

lemma demo_hc_order:
  "iter_order [''api'', ''boot'', ''network''] (hc_checks (new_health_checker default_health_config))"
  by (auto simp: iter_order_def new_health_checker_def)

lemma demo_latest:
  "get_latest_active_schedule [''a'', ''b''] demo_scheduler =
     Some (set_status 5 Running None (demo_schedule ''a'' (Some 0)))"
  by (simp add: get_latest_active_schedule_def hash_values_def List.map_filter_simps demo_scheduler_def
      is_active_def demo_schedule_def make_schedule_def set_status_def max_by_key_def)

lemma demo_register_fs:
  "load_rollback_state demo_rollback_json ((nd_disks demo_node)\<lparr>dk_fs := snd (snd (register_rollback demo_json
     [''a'', ''b''] 9 reason demo_scheduler (dk_fs (nd_disks demo_node))))\<rparr>) = default_rollback_state"
  "load_rollback_state demo_rollback_json (nd_disks demo_node) = default_rollback_state"
proof -
  have "storage_path demo_scheduler \<noteq> ROLLBACK_STATE_FILE"
    by (simp add: demo_scheduler_def ROLLBACK_STATE_FILE_def)
  then show "load_rollback_state demo_rollback_json ((nd_disks demo_node)\<lparr>dk_fs := snd (snd (register_rollback demo_json
     [''a'', ''b''] 9 reason demo_scheduler (dk_fs (nd_disks demo_node))))\<rparr>) = default_rollback_state"
    by (simp add: register_rollback_alt latest_active_key_def demo_latest persist_then_def persist_schedules_def
        demo_json_def load_rollback_state_def read_to_string_def Let_def create_dir_all_def fs_write_def
        demo_node_def demo_disks_def split: option.splits)
      (simp add: ROLLBACK_STATE_FILE_def)
  show "load_rollback_state demo_rollback_json (nd_disks demo_node) = default_rollback_state"
    by (simp add: load_rollback_state_def read_to_string_def demo_node_def demo_disks_def ROLLBACK_STATE_FILE_def)
qed

theorem supervisor_acts_on_cause_witness:
  "dk_dev (nd_disks (snd (snd (rollback_supervisor demo_json demo_rollback_json demo_sgdisk (\<lambda>_. (sick_probe, 1))
     [''api'', ''boot'', ''network''] [''a'', ''b''] [''a'', ''b''] 9 (new_health_checker default_health_config) demo_node)))) =
   dk_dev (nd_disks demo_node)"
proof -
  let ?out = "rollback_supervisor demo_json demo_rollback_json demo_sgdisk (\<lambda>_. (sick_probe, 1))
     [''api'', ''boot'', ''network''] [''a'', ''b''] [''a'', ''b''] 9 (new_health_checker default_health_config) demo_node"
  have "?out = (fst ?out, fst (snd ?out), snd (snd ?out))" by simp
  from supervisor_acts_on_cause [OF this demo_hc_order demo_sgdisk_doc] demo_register_fs
  show ?thesis by (simp only: demo_node_simps simp_thms)
qed

lemma supervisor_registers_without_rollback_witness:
  "\<exists>hc' n'. rollback_supervisor demo_json demo_rollback_json demo_sgdisk (\<lambda>_. (sick_probe, 1))
     [''api'', ''boot'', ''network''] [''a'', ''b''] [''a'', ''b''] 9 (new_health_checker default_health_config) demo_node =
     (False, hc', n') \<and> map_option sched_status (nd_table n' ''a'') = Some RolledBack"
proof -
  let ?a = "set_status 5 Running None (demo_schedule ''a'' (Some 0))"
  obtain exs where sick: "fst (run_all_checks (\<lambda>_. (sick_probe, 1)) [''api'', ''boot'', ''network'']
     (new_health_checker default_health_config)) = Some (Unhealthy, exs)"
    using sick_run by blast
  have a: "sched_id ?a = ''a''" "enable_auto_rollback ?a"
    by (simp_all add: demo_schedule_def make_schedule_def)
  have "wf_table (nd_table demo_node)" "iter_order [''a'', ''b''] (nd_table demo_node)"
    "get_latest_active_schedule [''a'', ''b''] (nd_sched demo_node) = Some ?a"
    using demo_scheduler_wf demo_latest by (auto simp: iter_order_def demo_scheduler_def)
  from supervisor_registers_without_rollback [OF demo_hc_order sick this a(2), of demo_rollback_json demo_json 9 demo_sgdisk]
    demo_register_fs(1) a(1)
  show ?thesis
    by (simp add: default_rollback_state_def) blast
qed

end
