(* ===== verification/Diagnostics.thy ===== *)
theory Diagnostics
  imports Keel_Prelude "HOL-Library.List_Lexorder" "HOL-Library.Char_ord"
begin

text \<open>
  Diagnostics of the agent (\<open>cmd/keel-agent/src/diagnostics.rs\<close>): time-limited debug and
  recovery sessions, crash dumps, system snapshots and the analysis of a dump. \<open>rfc3339\<close>
  is the date formatter, \<open>stamp\<close> a compact time stamp for file names, \<open>uuid\<close> a fresh UUID;
  \<open>dmesg\<close> and \<open>ps\<close> are the outcomes of those programs, their output already decoded.
  Two clock readings of one call are separate arguments.
\<close>

section \<open>Sessions\<close>

definition MAX_SESSION_DURATION_SECS :: u32 where
  "MAX_SESSION_DURATION_SECS = 3600"

definition DEFAULT_SESSION_DURATION_SECS :: u32 where
  "DEFAULT_SESSION_DURATION_SECS = 900"

record debug_session =
  ds_session_id :: string
  ds_reason :: string
  ds_expires_at :: timestamp

record recovery_session =
  rs_reason :: string
  rs_expires_at :: timestamp

record diagnostics_manager =
  debug_slot :: "debug_session option"
  recovery_slot :: "recovery_session option"

definition new_diagnostics_manager :: diagnostics_manager where
  "new_diagnostics_manager = \<lparr>debug_slot = None, recovery_slot = None\<rparr>"

definition clamp_duration :: "u32 \<Rightarrow> u32" where
  "clamp_duration duration_secs =
     (if duration_secs = 0 then DEFAULT_SESSION_DURATION_SECS
      else if MAX_SESSION_DURATION_SECS < duration_secs then MAX_SESSION_DURATION_SECS
      else duration_secs)"

definition enable_debug_mode ::
  "(timestamp \<Rightarrow> string) \<Rightarrow> timestamp \<Rightarrow> timestamp \<Rightarrow> string \<Rightarrow> u32 \<Rightarrow> string \<Rightarrow>
   diagnostics_manager \<Rightarrow> (string + debug_session) \<times> diagnostics_manager" where
  "enable_debug_mode rfc3339 t1 t2 uuid duration_secs reason mgr =
     (let grant =
        (let duration = clamp_duration duration_secs;
             s = \<lparr>ds_session_id = uuid, ds_reason = reason, ds_expires_at = t2 + seconds (uint duration)\<rparr>
         in (Ok s, mgr\<lparr>debug_slot := Some s\<rparr>))
      in case debug_slot mgr of
           Some existing \<Rightarrow>
             if t1 < ds_expires_at existing
             then (Err (''Debug mode already active (session: '' @ ds_session_id existing @
                     '', expires: '' @ rfc3339 (ds_expires_at existing) @ '')''), mgr)
             else grant
         | None \<Rightarrow> grant)"

definition get_debug_status :: "timestamp \<Rightarrow> diagnostics_manager \<Rightarrow> debug_session option" where
  "get_debug_status now mgr =
     (case debug_slot mgr of
        Some s \<Rightarrow> if now < ds_expires_at s then Some s else None
      | None \<Rightarrow> None)"

definition enable_recovery_mode ::
  "(timestamp \<Rightarrow> string) \<Rightarrow> timestamp \<Rightarrow> timestamp \<Rightarrow> u32 \<Rightarrow> string \<Rightarrow>
   diagnostics_manager \<Rightarrow> (string + recovery_session) \<times> diagnostics_manager" where
  "enable_recovery_mode rfc3339 t1 t2 duration_secs reason mgr =
     (let grant =
        (let duration = clamp_duration duration_secs;
             s = \<lparr>rs_reason = reason, rs_expires_at = t2 + seconds (uint duration)\<rparr>
         in (Ok s, mgr\<lparr>recovery_slot := Some s\<rparr>))
      in case recovery_slot mgr of
           Some existing \<Rightarrow>
             if t1 < rs_expires_at existing
             then (Err (''Recovery mode already active (expires: '' @
                     rfc3339 (rs_expires_at existing) @ '')''), mgr)
             else grant
         | None \<Rightarrow> grant)"

section \<open>Crash dumps and snapshots\<close>

definition dump_kernel :: "cmd_outcome \<Rightarrow> string" where
  "dump_kernel dmesg =
     ''--- Kernel Messages (dmesg) ---'' @ nl @
     (case dmesg of
        Exited ok out err \<Rightarrow> out
      | SpawnErr e \<Rightarrow> ''Failed to collect dmesg: '' @ e @ nl) @ nl"

definition dump_userspace :: "cmd_outcome \<Rightarrow> fsys \<Rightarrow> string" where
  "dump_userspace ps fs =
     ''--- Process List ---'' @ nl @
     (case ps of
        Exited ok out err \<Rightarrow> out
      | SpawnErr e \<Rightarrow> ''Failed to collect process list: '' @ e @ nl) @ nl @
     ''--- Memory Info ---'' @ nl @
     (case read_to_string ''/proc/meminfo'' fs of
        Inr meminfo \<Rightarrow> meminfo
      | Inl e \<Rightarrow> ''Failed to read /proc/meminfo: '' @ e @ nl) @ nl"

definition dump_content ::
  "string \<Rightarrow> cmd_outcome \<Rightarrow> cmd_outcome \<Rightarrow> bool \<Rightarrow> bool \<Rightarrow> fsys \<Rightarrow> string" where
  "dump_content created dmesg ps include_kernel include_userspace fs =
     ''=== KeelOS Crash Dump - '' @ created @ '' ==='' @ nl @ nl @
     (if include_kernel then dump_kernel dmesg else []) @
     (if include_userspace then dump_userspace ps fs else [])"

definition collect_crash_dump_to ::
  "string \<Rightarrow> string \<Rightarrow> cmd_outcome \<Rightarrow> cmd_outcome \<Rightarrow> string \<Rightarrow> bool \<Rightarrow> bool \<Rightarrow> fsys \<Rightarrow>
   (string + string \<times> u64) \<times> fsys" where
  "collect_crash_dump_to stamp created dmesg ps dump_dir include_kernel include_userspace fs =
     (case create_dir_all dump_dir fs of
        (Inl e, fs1) \<Rightarrow> (Err (''Failed to create crash dump directory: '' @ e), fs1)
      | (Inr _, fs1) \<Rightarrow>
          (let dump_path = dump_dir @ ''/crash-'' @ stamp @ ''.txt'';
               content = dump_content created dmesg ps include_kernel include_userspace fs1;
               dump_size = of_nat (length content)
           in case fs_write dump_path content fs1 of
                (Inl e, fs2) \<Rightarrow> (Err (''Failed to write crash dump: '' @ e), fs2)
              | (Inr _, fs2) \<Rightarrow> (Ok (dump_path, dump_size), fs2)))"

definition collect_crash_dump ::
  "string \<Rightarrow> string \<Rightarrow> cmd_outcome \<Rightarrow> cmd_outcome \<Rightarrow> bool \<Rightarrow> bool \<Rightarrow> fsys \<Rightarrow>
   (string + string \<times> u64) \<times> fsys" where
  "collect_crash_dump stamp created dmesg ps include_kernel include_userspace fs =
     collect_crash_dump_to stamp created dmesg ps ''/var/lib/keel/crash-dumps''
       include_kernel include_userspace fs"

definition snapshot_config :: "fsys \<Rightarrow> string" where
  "snapshot_config fs =
     ''--- System Configuration ---'' @ nl @
     (case read_to_string ''/etc/hostname'' fs of
        Inr hostname \<Rightarrow> ''Hostname: '' @ trim hostname @ nl
      | Inl e \<Rightarrow> ''Hostname: unavailable'' @ nl) @
     nl @ ''OS Release:'' @ nl @
     (case read_to_string ''/etc/os-release'' fs of
        Inr release \<Rightarrow> release
      | Inl e \<Rightarrow> ''  unavailable'' @ nl) @
     (if path_exists ''/etc/keel/node.yaml'' fs then
        nl @ ''KeelOS Node Config:'' @ nl @
        (case read_to_string ''/etc/keel/node.yaml'' fs of
           Inr cfg \<Rightarrow> cfg
         | Inl e \<Rightarrow> ''  Failed to read: '' @ e @ nl)
      else []) @ nl"

definition snapshot_logs :: "cmd_outcome \<Rightarrow> string" where
  "snapshot_logs dmesg =
     ''--- Recent Kernel Logs ---'' @ nl @
     (case dmesg of
        Exited ok full err \<Rightarrow>
          (let ls = lines full; start = (if 200 < length ls then length ls - 200 else 0)
           in concat (List.map (\<lambda>l. l @ nl) (drop start ls)))
      | SpawnErr e \<Rightarrow> ''Failed to collect dmesg: '' @ e @ nl) @ nl"

definition snapshot_content ::
  "string \<Rightarrow> string \<Rightarrow> string \<Rightarrow> cmd_outcome \<Rightarrow> bool \<Rightarrow> bool \<Rightarrow> fsys \<Rightarrow> string" where
  "snapshot_content snapshot_id label created dmesg include_config include_logs fs =
     ''=== KeelOS System Snapshot ==='' @ nl @ ''ID: '' @ snapshot_id @ nl @
     ''Label: '' @ label @ nl @ ''Created: '' @ created @ nl @ nl @
     (if include_config then snapshot_config fs else []) @
     (if include_logs then snapshot_logs dmesg else [])"

definition create_system_snapshot_to ::
  "string \<Rightarrow> string \<Rightarrow> string \<Rightarrow> cmd_outcome \<Rightarrow> string \<Rightarrow> string \<Rightarrow> bool \<Rightarrow> bool \<Rightarrow> fsys \<Rightarrow>
   (string + string \<times> string \<times> u64) \<times> fsys" where
  "create_system_snapshot_to snapshot_id stamp created dmesg snapshot_dir label include_config include_logs fs =
     (case create_dir_all snapshot_dir fs of
        (Inl e, fs1) \<Rightarrow> (Err (''Failed to create snapshot directory: '' @ e), fs1)
      | (Inr _, fs1) \<Rightarrow>
          (let snapshot_path = snapshot_dir @ ''/snapshot-'' @ stamp @ ''.txt'';
               content = snapshot_content snapshot_id label created dmesg include_config include_logs fs1;
               size = of_nat (length content)
           in case fs_write snapshot_path content fs1 of
                (Inl e, fs2) \<Rightarrow> (Err (''Failed to write snapshot: '' @ e), fs2)
              | (Inr _, fs2) \<Rightarrow> (Ok (snapshot_id, snapshot_path, size), fs2)))"

definition create_system_snapshot ::
  "string \<Rightarrow> string \<Rightarrow> string \<Rightarrow> cmd_outcome \<Rightarrow> string \<Rightarrow> bool \<Rightarrow> bool \<Rightarrow> fsys \<Rightarrow>
   (string + string \<times> string \<times> u64) \<times> fsys" where
  "create_system_snapshot snapshot_id stamp created dmesg label include_config include_logs fs =
     create_system_snapshot_to snapshot_id stamp created dmesg ''/var/lib/keel/snapshots''
       label include_config include_logs fs"

section \<open>Analysis of a dump\<close>

record crash_finding =
  cf_severity :: string
  finding_type :: string
  cf_message :: string

definition line_finding :: "string \<Rightarrow> crash_finding option" where
  "line_finding line =
     (let lower = to_lowercase line;
          mk = (\<lambda>sev ty. Some \<lparr>cf_severity = sev, finding_type = ty, cf_message = trim line\<rparr>)
      in if contains lower ''out of memory'' \<or> contains lower ''oom_kill'' \<or> contains lower ''killed process''
         then mk ''critical'' ''oom_kill''
         else if contains lower ''kernel panic'' \<or> contains lower ''bug:'' \<or> contains lower ''oops:''
         then mk ''critical'' ''kernel_panic''
         else if contains lower ''segfault'' \<or> contains lower ''general protection fault''
         then mk ''error'' ''segfault''
         else if contains lower ''i/o error'' \<or> contains lower ''ext4-fs error'' \<or> contains lower ''buffer i/o error''
         then mk ''error'' ''io_error''
         else if contains lower ''call trace:'' \<or> contains lower ''rip:''
         then mk ''warning'' ''stack_trace''
         else None)"

definition scan_dump :: "string \<Rightarrow> crash_finding list" where
  "scan_dump content = List.map_filter line_finding (lines content)"

definition overall_severity :: "crash_finding list \<Rightarrow> string" where
  "overall_severity findings =
     (if \<exists>f\<in>set findings. cf_severity f = ''critical'' then ''critical''
      else if \<exists>f\<in>set findings. cf_severity f = ''error'' then ''error''
      else if \<exists>f\<in>set findings. cf_severity f = ''warning'' then ''warning''
      else if findings = [] then ''clean'' else ''info'')"

definition findings_summary :: "crash_finding list \<Rightarrow> string" where
  "findings_summary findings =
     (if findings = [] then ''No significant issues found in crash dump.''
      else ''Found '' @ show_nat (length findings) @ '' issue(s): '' @
           join '', '' (sort (remdups (List.map finding_type findings))))"

definition analyze_crash_dump ::
  "string \<Rightarrow> fsys \<Rightarrow> string + string \<times> crash_finding list \<times> string" where
  "analyze_crash_dump dump_path fs =
     (case read_to_string dump_path fs of
        Inl e \<Rightarrow> Err (''Failed to read crash dump '' @ [CHR 0x27] @ dump_path @ [CHR 0x27] @ '': '' @ e)
      | Inr content \<Rightarrow>
          (let findings = scan_dump content
           in Ok (overall_severity findings, findings, findings_summary findings)))"

section \<open>What a session slot promises\<close>

text \<open>
  Both kinds of session share one contract: a request is refused while a session is in
  force, and otherwise replaces the slot with a session of the clamped duration. The
  request's own data is \<open>'x\<close>.
\<close>

locale session_slot =
  fixes enable :: "timestamp \<Rightarrow> timestamp \<Rightarrow> u32 \<Rightarrow> 'x \<Rightarrow> 'm \<Rightarrow> (string + 's) \<times> 'm"
    and slot :: "'m \<Rightarrow> 's option"
    and expires :: "'s \<Rightarrow> timestamp"
  assumes enable_busy: "slot m = Some s \<Longrightarrow> t1 < expires s \<Longrightarrow> \<exists>e. enable t1 t2 d x m = (Err e, m)"
    and enable_free: "\<forall>s. slot m = Some s \<longrightarrow> expires s \<le> t1 \<Longrightarrow>
      \<exists>s m'. enable t1 t2 d x m = (Ok s, m') \<and> slot m' = Some s \<and>
        expires s = t2 + seconds (uint (clamp_duration d))"
begin

lemma session_kept:
  assumes "slot m = Some s" and "\<forall>(t1, t2, d, x)\<in>set rs. t1 < expires s"
  shows "fold (\<lambda>(t1, t2, d, x) m. snd (enable t1 t2 d x m)) rs m = m"
  using assms
proof (induction rs)
  case (Cons r rs)
  obtain t1 t2 d x where r: "r = (t1, t2, d, x)" by (cases r)
  with Cons.prems enable_busy [OF Cons.prems(1), of t1 t2 d x] have "snd (enable t1 t2 d x m) = m"
    by auto
  with Cons r show ?case by simp
qed simp

lemma granted_iff: "(\<exists>s. fst (enable t1 t2 d x m) = Ok s) \<longleftrightarrow> (\<forall>s. slot m = Some s \<longrightarrow> expires s \<le> t1)"
proof (cases "\<forall>s. slot m = Some s \<longrightarrow> expires s \<le> t1")
  case True
  with enable_free [OF True, of t2 d x] show ?thesis by auto
next
  case False
  then obtain s where "slot m = Some s" "t1 < expires s" by auto
  with enable_busy [OF this, of t2 d x] show ?thesis by auto
qed

end

lemma clamp_duration_bounds: "1 \<le> unat (clamp_duration d) \<and> unat (clamp_duration d) \<le> 3600"
proof -
  have "unat d \<noteq> 0" if "d \<noteq> 0"
    using that by (simp add: unat_eq_0)
  then show ?thesis
    by (auto simp: clamp_duration_def DEFAULT_SESSION_DURATION_SECS_def MAX_SESSION_DURATION_SECS_def
        word_less_nat_alt Suc_le_eq not_less)
qed

interpretation debug_sessions: session_slot
  "\<lambda>t1 t2 d (uuid, reason). enable_debug_mode rfc3339 t1 t2 uuid d reason" debug_slot ds_expires_at
  for rfc3339
  by unfold_locales (auto simp: enable_debug_mode_def Let_def split: option.splits)

interpretation recovery_sessions: session_slot
  "\<lambda>t1 t2 d reason. enable_recovery_mode rfc3339 t1 t2 d reason" recovery_slot rs_expires_at
  for rfc3339
  by unfold_locales (auto simp: enable_recovery_mode_def Let_def split: option.splits)

section \<open>Lines of a dump\<close>

lemma lines_append_nl: "lines (a @ nl @ b) = lines (a @ nl) @ lines b"
  using split_on_append [of "CHR 0x0A" a b] split_on_append [of "CHR 0x0A" a "[]"]
  by (simp add: lines_def Let_def butlast_append)

lemma map_filter_append: "List.map_filter f (xs @ ys) = List.map_filter f xs @ List.map_filter f ys"
  by (induction xs) (auto simp: List.map_filter_simps split: option.splits)

lemma scan_dump_append: "scan_dump (a @ nl @ b) = scan_dump (a @ nl) @ scan_dump b"
  by (simp only: scan_dump_def lines_append_nl map_filter_append)

lemma scan_dump_set: "set (scan_dump c) = {f. \<exists>l\<in>set (lines c). line_finding l = Some f}"
  by (auto simp: scan_dump_def map_filter_set)

lemma line_finding_severity:
  "line_finding l = Some f \<Longrightarrow> cf_severity f = ''critical'' \<or> cf_severity f = ''error'' \<or> cf_severity f = ''warning''"
  by (auto simp: line_finding_def Let_def split: if_splits)

lemma kernel_findings_kept:
  "set (scan_dump (out @ nl)) \<subseteq> set (scan_dump (dump_content created (Exited ok out err) ps True u fs))"
proof -
  let ?pre = "''=== KeelOS Crash Dump - '' @ created @ '' ==='' @ nl @ nl @ ''--- Kernel Messages (dmesg) ---''"
  let ?post = "if u then dump_userspace ps fs else []"
  have c: "dump_content created (Exited ok out err) ps True u fs = ?pre @ nl @ (out @ nl @ ?post)"
    by (simp add: dump_content_def dump_kernel_def)
  have "set (scan_dump (?pre @ nl @ (out @ nl @ ?post))) =
      set (scan_dump (?pre @ nl)) \<union> (set (scan_dump (out @ nl)) \<union> set (scan_dump ?post))"
    by (simp only: scan_dump_append [of ?pre "out @ nl @ ?post"] scan_dump_append [of out ?post] set_append)
  then show ?thesis
    unfolding c by blast
qed

section \<open>Properties\<close>

text \<open>
  C34. A granted debug session lasts between one second and one hour from its creation,
  is reported exactly until it expires, and no request made before that can replace or
  extend it; afterwards a new one is granted. Debug sessions leave recovery mode alone.
\<close>

theorem debug_session_exclusive:
  assumes "enable_debug_mode rfc3339 t1 t2 uuid d reason m = (Ok s, m')"
  shows "t2 + seconds 1 \<le> ds_expires_at s \<and> ds_expires_at s \<le> t2 + seconds 3600 \<and>
    recovery_slot m' = recovery_slot m \<and>
    (\<forall>now. get_debug_status now m' = (if now < ds_expires_at s then Some s else None)) \<and>
    (\<forall>rs. (\<forall>(u1, u2, e, id, why)\<in>set rs. u1 < ds_expires_at s) \<longrightarrow>
       fold (\<lambda>(u1, u2, e, id, why) mgr. snd (enable_debug_mode rfc3339 u1 u2 id e why mgr)) rs m' = m') \<and>
    (\<forall>u1 u2 e id why. (\<exists>s'. fst (enable_debug_mode rfc3339 u1 u2 id e why m') = Ok s') \<longleftrightarrow> ds_expires_at s \<le> u1)"
proof -
  have slot: "debug_slot m' = Some s" and ex: "ds_expires_at s = t2 + seconds (uint (clamp_duration d))"
    and rec: "recovery_slot m' = recovery_slot m"
    using assms by (auto simp: enable_debug_mode_def Let_def split: option.splits if_splits)
  have "1 \<le> uint (clamp_duration d) \<and> uint (clamp_duration d) \<le> 3600"
    using clamp_duration_bounds [of d] unfolding uint_nat by linarith
  then have len: "t2 + seconds 1 \<le> ds_expires_at s" "ds_expires_at s \<le> t2 + seconds 3600"
    by (simp_all add: ex seconds_def)
  have kept: "fold (\<lambda>(u1, u2, e, id, why) mgr. snd (enable_debug_mode rfc3339 u1 u2 id e why mgr)) rs m' = m'"
    if "\<forall>(u1, u2, e, id, why)\<in>set rs. u1 < ds_expires_at s" for rs
  proof -
    have "\<forall>(u1, u2, e, x)\<in>set rs. u1 < ds_expires_at s"
      using that by auto
    from debug_sessions.session_kept [OF slot this, of rfc3339] show ?thesis
      by (simp add: case_prod_beta' cong: fold_cong)
  qed
  have again: "(\<exists>s'. fst (enable_debug_mode rfc3339 u1 u2 id e why m') = Ok s') \<longleftrightarrow> ds_expires_at s \<le> u1"
    for u1 u2 e id why
    using debug_sessions.granted_iff [of rfc3339 u1 u2 e "(id, why)" m'] slot by simp
  show ?thesis
    using len rec slot kept again by (simp add: get_debug_status_def)
qed

theorem debug_session_exclusive_witness:
  "\<exists>s m'. enable_debug_mode (\<lambda>_. []) 0 0 ''id'' 7200 ''why'' new_diagnostics_manager = (Ok s, m') \<and>
     ds_expires_at s \<le> seconds 3600 \<and> get_debug_status (seconds 3600) m' = None"
proof -
  obtain s m' where run: "enable_debug_mode (\<lambda>_. []) 0 0 ''id'' 7200 ''why'' new_diagnostics_manager = (Ok s, m')"
    by (simp add: enable_debug_mode_def new_diagnostics_manager_def Let_def)
  from debug_session_exclusive [OF this] run show ?thesis by auto
qed

text \<open>
  The analysis of a dump reports every line that matches a pattern and nothing else,
  and its overall severity is the highest one found: clean exactly without findings, and
  never the level info.
\<close>

definition severity_rank :: "string \<Rightarrow> nat" where
  "severity_rank s = (if s = ''critical'' then 3 else if s = ''error'' then 2 else if s = ''warning'' then 1 else 0)"

lemma analysis_severity:
  assumes "analyze_crash_dump p fs = Ok (sev, findings, summary)"
  shows "\<exists>content. read_to_string p fs = Ok content \<and>
    set findings = {f. \<exists>l\<in>set (lines content). line_finding l = Some f} \<and>
    sev \<noteq> ''info'' \<and> (sev = ''clean'' \<longleftrightarrow> findings = []) \<and>
    (findings \<noteq> [] \<longrightarrow> (\<exists>f\<in>set findings. cf_severity f = sev) \<and>
       (\<forall>f\<in>set findings. severity_rank (cf_severity f) \<le> severity_rank sev))"
proof -
  from assms obtain content where c: "read_to_string p fs = Ok content"
    "findings = scan_dump content" "sev = overall_severity findings"
    by (auto simp: analyze_crash_dump_def Let_def split: sum.splits)
  have cls: "cf_severity f = ''critical'' \<or> cf_severity f = ''error'' \<or> cf_severity f = ''warning''"
    if "f \<in> set findings" for f
    using that line_finding_severity by (auto simp: c(2) scan_dump_set)
  have "(findings \<noteq> [] \<longrightarrow> (\<exists>f\<in>set findings. cf_severity f = sev) \<and>
       (\<forall>f\<in>set findings. severity_rank (cf_severity f) \<le> severity_rank sev)) \<and>
    sev \<noteq> ''info'' \<and> (sev = ''clean'' \<longleftrightarrow> findings = [])"
    using cls unfolding c(3) overall_severity_def severity_rank_def
    by (cases findings) (auto split: if_splits)
  with c show ?thesis
    by (auto simp: scan_dump_set)
qed

definition demo_dump_fs :: fsys where
  "demo_dump_fs = \<lparr>fs_files = [''/d'' \<mapsto> ''eth0: oops: 0001''], fs_dirs = {}, fs_read_err = Map.empty,
     fs_write_err = Map.empty, fs_mkdir_err = Map.empty\<rparr>"

lemma analysis_severity_witness:
  "\<exists>sev findings summary. analyze_crash_dump ''/d'' demo_dump_fs = Ok (sev, findings, summary) \<and>
     sev \<noteq> ''info''"
proof -
  obtain sev findings summary where "analyze_crash_dump ''/d'' demo_dump_fs = Ok (sev, findings, summary)"
    by (simp add: analyze_crash_dump_def read_to_string_def demo_dump_fs_def Let_def)
  with analysis_severity [OF this] show ?thesis by auto
qed

text \<open>
  A crash dump that was collected can be analysed: the reported size is the length of
  the file, no other file changed, and with kernel messages included every suspicious line
  of \<open>dmesg\<close> is among the findings.
\<close>

lemma crash_dump_roundtrip:
  assumes "collect_crash_dump stamp created (Exited ok out err) ps True u fs = (Ok (p, n), fs')"
    and "fs_read_err fs p = None"
  shows "\<exists>content findings sev summary. fs_files fs' p = Some content \<and> n = of_nat (length content) \<and>
    (\<forall>q. q \<noteq> p \<longrightarrow> fs_files fs' q = fs_files fs q) \<and>
    analyze_crash_dump p fs' = Ok (sev, findings, summary) \<and>
    (\<forall>l\<in>set (lines (out @ nl)). \<forall>f. line_finding l = Some f \<longrightarrow> f \<in> set findings)"
proof -
  obtain fs1 where mk: "create_dir_all ''/var/lib/keel/crash-dumps'' fs = (Ok (), fs1)"
    using assms(1) by (auto simp: collect_crash_dump_def collect_crash_dump_to_def split: prod.splits sum.splits)
  let ?c = "dump_content created (Exited ok out err) ps True u fs1"
  from assms(1) mk have wr: "fs_write p ?c fs1 = (Ok (), fs')" and n: "n = of_nat (length ?c)"
    by (auto simp: collect_crash_dump_def collect_crash_dump_to_def Let_def split: prod.splits sum.splits)
  have rd: "read_to_string p fs' = Ok ?c"
    using read_to_string_write [OF wr] create_dir_all_frameD [OF mk] assms(2) by simp
  have "fs_files fs' p = Some ?c" "\<forall>q. q \<noteq> p \<longrightarrow> fs_files fs' q = fs_files fs q"
    using wr create_dir_all_frameD [OF mk] by (auto simp: fs_write_ok)
  moreover have "\<forall>l\<in>set (lines (out @ nl)). \<forall>f. line_finding l = Some f \<longrightarrow> f \<in> set (scan_dump ?c)"
    using kernel_findings_kept [of out created ok err ps u fs1] by (auto simp: scan_dump_set)
  ultimately show ?thesis
    using rd n by (simp add: analyze_crash_dump_def Let_def)
qed

lemma crash_dump_roundtrip_witness:
  "\<exists>p n fs' sev findings summary.
     collect_crash_dump ''20240101-000000'' ''2024'' (Exited True ''x kernel panic'' []) (SpawnErr ''none'') True False demo_dump_fs =
       (Ok (p, n), fs') \<and>
     analyze_crash_dump p fs' = Ok (sev, findings, summary) \<and>
     \<lparr>cf_severity = ''critical'', finding_type = ''kernel_panic'', cf_message = ''x kernel panic''\<rparr> \<in> set findings"
proof -
  let ?out = "collect_crash_dump ''20240101-000000'' ''2024'' (Exited True ''x kernel panic'' []) (SpawnErr ''none'') True False demo_dump_fs"
  obtain p n fs' where run: "?out = (Ok (p, n), fs')"
    by (simp add: collect_crash_dump_def collect_crash_dump_to_def create_dir_all_def fs_write_def demo_dump_fs_def Let_def)
  have "lines (''x kernel panic'' @ nl) = [''x kernel panic'']"
    by (simp add: lines_def strip_cr_def)
  moreover have "line_finding ''x kernel panic'' =
      Some \<lparr>cf_severity = ''critical'', finding_type = ''kernel_panic'', cf_message = ''x kernel panic''\<rparr>"
    by (simp add: line_finding_def to_lowercase_def to_lower_char_def starts_with_def trim_def is_ws_def Let_def)
  moreover have "fs_read_err demo_dump_fs p = None"
    by (simp add: demo_dump_fs_def)
  ultimately show ?thesis
    using crash_dump_roundtrip [OF run] run by fastforce
qed

end
