(* ===== verification/Network_Config.thy ===== *)
theory Network_Config
  imports Keel_Prelude
begin

text \<open>
  Network configuration (\<open>pkg/config/src/network.rs\<close>): the configuration types, their
  validation, and storing them as JSON. The address parsers of Rust's \<open>std::net\<close> are
  modelled; the CIDR parsers of the \<open>ipnetwork\<close> crate are parameters (\<open>cidr\<close>), as is
  \<open>serde_json\<close> (\<open>js\<close>).
\<close>

section \<open>Address parsers of the standard library\<close>

definition read_char :: "char \<Rightarrow> string \<Rightarrow> string option" where
  "read_char c s = (case s of [] \<Rightarrow> None | x # xs \<Rightarrow> if x = c then Some xs else None)"

text \<open>A decimal octet: one to three digits, no leading zero, at most 255.\<close>

definition read_octet :: "string \<Rightarrow> (nat \<times> string) option" where
  "read_octet s =
     (let ds = takeWhile is_digit s in
      if ds = [] \<or> 3 < length ds \<or> (1 < length ds \<and> hd ds = CHR ''0'') \<or> 255 < digits_val ds then None
      else Some (digits_val ds, dropWhile is_digit s))"

definition read_dot_octet :: "string \<Rightarrow> (nat \<times> string) option" where
  "read_dot_octet s = (case read_char CHR ''.'' s of None \<Rightarrow> None | Some r \<Rightarrow> read_octet r)"

definition read_ipv4 :: "string \<Rightarrow> (nat list \<times> string) option" where
  "read_ipv4 s =
     (case read_octet s of None \<Rightarrow> None | Some (a, r1) \<Rightarrow>
     (case read_dot_octet r1 of None \<Rightarrow> None | Some (b, r2) \<Rightarrow>
     (case read_dot_octet r2 of None \<Rightarrow> None | Some (c, r3) \<Rightarrow>
     (case read_dot_octet r3 of None \<Rightarrow> None | Some (d, r4) \<Rightarrow> Some ([a, b, c, d], r4)))))"

definition parse_ipv4 :: "string \<Rightarrow> nat list option" where
  "parse_ipv4 s =
     (if 15 < length s then None
      else case read_ipv4 s of Some (v, []) \<Rightarrow> Some v | _ \<Rightarrow> None)"

definition hex_val :: "char \<Rightarrow> nat option" where
  "hex_val c =
     (let n = (of_char c :: nat) in
      if 48 \<le> n \<and> n \<le> 57 then Some (n - 48)
      else if 97 \<le> n \<and> n \<le> 102 then Some (n - 87)
      else if 65 \<le> n \<and> n \<le> 70 then Some (n - 55)
      else None)"

definition is_hex :: "char \<Rightarrow> bool" where
  "is_hex c \<longleftrightarrow> hex_val c \<noteq> None"

definition read_group :: "string \<Rightarrow> (nat \<times> string) option" where
  "read_group s =
     (let ds = takeWhile is_hex s in
      if ds = [] \<or> 4 < length ds then None
      else Some (foldl (\<lambda>n c. 16 * n + the (hex_val c)) 0 ds, dropWhile is_hex s))"

text \<open>
  Groups of an IPv6 address, at most as many as the first argument, the second says
  whether a separator must come first. With two groups left, an embedded IPv4 address
  ends the sequence.
\<close>

fun read_groups :: "nat \<Rightarrow> bool \<Rightarrow> string \<Rightarrow> nat list \<times> bool \<times> string" where
  "read_groups 0 sep s = ([], False, s)"
| "read_groups (Suc k) sep s =
     (case (if sep then read_char CHR '':'' s else Some s) of
        None \<Rightarrow> ([], False, s)
      | Some s1 \<Rightarrow>
          (case (if 1 \<le> k then read_ipv4 s1 else None) of
             Some (v, r) \<Rightarrow> ([v ! 0 * 256 + v ! 1, v ! 2 * 256 + v ! 3], True, r)
           | None \<Rightarrow>
               (case read_group s1 of
                  None \<Rightarrow> ([], False, s)
                | Some (g, r) \<Rightarrow>
                    (case read_groups k True r of (gs, v4, r') \<Rightarrow> (g # gs, v4, r')))))"

definition parse_ipv6 :: "string \<Rightarrow> nat list option" where
  "parse_ipv6 s =
     (case read_groups 8 False s of (head, head_ipv4, r) \<Rightarrow>
        if length head = 8 then (if r = [] then Some head else None)
        else if head_ipv4 then None
        else case strip_prefix ''::'' r of
          None \<Rightarrow> None
        | Some r2 \<Rightarrow>
            (case read_groups (8 - (length head + 1)) False r2 of (tail, _, r3) \<Rightarrow>
               if r3 = [] then Some (head @ replicate (8 - length head - length tail) 0 @ tail) else None))"

section \<open>Configuration types\<close>

datatype network_config_error =
    InvalidIpAddress string
  | InvalidCidr string
  | InvalidInterfaceName string
  | InvalidVlanId u32
  | InvalidBondingMode string
  | NetIo string
  | NetJson string
  | NetValidation string

fun network_error_str :: "network_config_error \<Rightarrow> string" where
  "network_error_str (InvalidIpAddress s) = ''Invalid IP address: '' @ s"
| "network_error_str (InvalidCidr s) = ''Invalid CIDR notation: '' @ s"
| "network_error_str (InvalidInterfaceName s) = ''Invalid interface name: '' @ s"
| "network_error_str (InvalidVlanId n) = ''Invalid VLAN ID: '' @ show_word n @ '' (must be 1-4094)''"
| "network_error_str (InvalidBondingMode s) = ''Invalid bonding mode: '' @ s"
| "network_error_str (NetIo s) = ''IO error: '' @ s"
| "network_error_str (NetJson s) = ''JSON error: '' @ s"
| "network_error_str (NetValidation s) = ''Configuration validation error: '' @ s"

record static_config =
  ipv4_address :: string
  st_gateway :: "string option"
  mtu :: u32
  ipv6_addresses :: "string list"
  ipv6_gateway :: "string option"
  ipv6_auto :: bool

definition default_mtu :: u32 where
  "default_mtu = 1500"

datatype ip_config = DhcpIp | StaticIp static_config

record vlan_config =
  vlan_parent :: string
  vlan_id :: u32
  vlan_ip_config :: ip_config

datatype bonding_mode = Lacp | ActiveBackup | BalanceRr

fun bonding_mode_str :: "bonding_mode \<Rightarrow> string" where
  "bonding_mode_str Lacp = ''802.3ad''"
| "bonding_mode_str ActiveBackup = ''active-backup''"
| "bonding_mode_str BalanceRr = ''balance-rr''"

definition bonding_mode_from_str :: "string \<Rightarrow> network_config_error + bonding_mode" where
  "bonding_mode_from_str s =
     (if s = ''802.3ad'' then Ok Lacp
      else if s = ''active-backup'' then Ok ActiveBackup
      else if s = ''balance-rr'' then Ok BalanceRr
      else Err (InvalidBondingMode s))"

record bond_config =
  bond_mode :: bonding_mode
  bond_slaves :: "string list"
  bond_ip_config :: ip_config

datatype interface_type = Dhcp | Static static_config | Vlan vlan_config | Bond bond_config

record interface_config =
  if_name :: string
  if_config :: interface_type

record dns_config =
  nameservers :: "string list"
  search_domains :: "string list"

record route_config =
  rt_destination :: string
  rt_gateway :: string
  rt_metric :: "u32 option"

record network_config =
  interfaces :: "interface_config list"
  dns :: "dns_config option"
  routes :: "route_config list"

definition new_network_config :: network_config where
  "new_network_config = \<lparr>interfaces = [], dns = None, routes = []\<rparr>"

text \<open>The CIDR parsers of \<open>ipnetwork\<close>: whether a string parses.\<close>

record cidr =
  cidr4 :: "string \<Rightarrow> bool"
  cidr6 :: "string \<Rightarrow> bool"

section \<open>Validation\<close>

type_synonym 'c validation = "'c \<Rightarrow> network_config_error + unit"

text \<open>\<open>x?;\<close> for a condition, and the loop \<open>for x in xs { x.validate()?; }\<close>.\<close>

definition require :: "bool \<Rightarrow> network_config_error \<Rightarrow> network_config_error + unit" where
  "require b e = (if b then Ok () else Err e)"

fun validate_all :: "'c validation \<Rightarrow> 'c list \<Rightarrow> network_config_error + unit" where
  "validate_all v [] = Ok ()"
| "validate_all v (x # xs) = and_then (v x) (\<lambda>_. validate_all v xs)"

definition validate_static :: "cidr \<Rightarrow> static_config validation" where
  "validate_static ip cfg =
     and_then (require (\<not> (ipv4_address cfg = [] \<and> ipv6_addresses cfg = [] \<and> \<not> ipv6_auto cfg))
       (NetValidation ''Static configuration must have at least one IP address (IPv4 or IPv6) or IPv6 auto-config enabled'')) (\<lambda>_.
     and_then (if ipv4_address cfg \<noteq> []
               then and_then (require (cidr4 ip (ipv4_address cfg)) (InvalidCidr (ipv4_address cfg))) (\<lambda>_.
                      case st_gateway cfg of
                        None \<Rightarrow> Ok ()
                      | Some gw \<Rightarrow> require (parse_ipv4 gw \<noteq> None) (InvalidIpAddress gw))
               else Ok ()) (\<lambda>_.
     and_then (validate_all (\<lambda>a. require (cidr6 ip a) (InvalidCidr a)) (ipv6_addresses cfg)) (\<lambda>_.
     and_then (case ipv6_gateway cfg of
                 None \<Rightarrow> Ok ()
               | Some gw6 \<Rightarrow> require (parse_ipv6 gw6 \<noteq> None) (InvalidIpAddress gw6)) (\<lambda>_.
     require (\<not> (mtu cfg < 68 \<or> 9000 < mtu cfg))
       (NetValidation (''Invalid MTU: '' @ show_word (mtu cfg) @ '' (must be 68-9000)''))))))"

definition validate_ip_config :: "cidr \<Rightarrow> ip_config validation" where
  "validate_ip_config ip c = (case c of DhcpIp \<Rightarrow> Ok () | StaticIp cfg \<Rightarrow> validate_static ip cfg)"

definition validate_vlan :: "cidr \<Rightarrow> vlan_config validation" where
  "validate_vlan ip cfg =
     and_then (require (\<not> (vlan_id cfg < 1 \<or> 4094 < vlan_id cfg)) (InvalidVlanId (vlan_id cfg))) (\<lambda>_.
     and_then (require (vlan_parent cfg \<noteq> []) (InvalidInterfaceName (vlan_parent cfg))) (\<lambda>_.
     validate_ip_config ip (vlan_ip_config cfg)))"

definition validate_bond :: "cidr \<Rightarrow> bond_config validation" where
  "validate_bond ip cfg =
     and_then (require (bond_slaves cfg \<noteq> []) (NetValidation ''Bond must have at least one slave interface'')) (\<lambda>_.
     validate_ip_config ip (bond_ip_config cfg))"

definition validate_interface :: "cidr \<Rightarrow> interface_config validation" where
  "validate_interface ip i =
     and_then (require (\<not> (if_name i = [] \<or> 15 < length (if_name i))) (InvalidInterfaceName (if_name i))) (\<lambda>_.
     case if_config i of
       Dhcp \<Rightarrow> Ok ()
     | Static cfg \<Rightarrow> validate_static ip cfg
     | Vlan cfg \<Rightarrow> validate_vlan ip cfg
     | Bond cfg \<Rightarrow> validate_bond ip cfg)"

definition is_ip_address :: "string \<Rightarrow> bool" where
  "is_ip_address s \<longleftrightarrow> parse_ipv4 s \<noteq> None \<or> parse_ipv6 s \<noteq> None"

definition validate_dns :: "dns_config validation" where
  "validate_dns d =
     and_then (require (nameservers d \<noteq> []) (NetValidation ''DNS configuration must have at least one nameserver'')) (\<lambda>_.
     validate_all (\<lambda>ns. require (is_ip_address ns) (InvalidIpAddress ns)) (nameservers d))"

definition validate_route :: "cidr \<Rightarrow> route_config validation" where
  "validate_route ip r =
     and_then (require (cidr4 ip (rt_destination r) \<or> cidr6 ip (rt_destination r)) (InvalidCidr (rt_destination r))) (\<lambda>_.
     require (is_ip_address (rt_gateway r)) (InvalidIpAddress (rt_gateway r)))"

text \<open>The duplicate check: \<open>names\<close> are the names seen so far.\<close>

fun check_names :: "string set \<Rightarrow> interface_config list \<Rightarrow> network_config_error + unit" where
  "check_names names [] = Ok ()"
| "check_names names (i # is) =
     (if if_name i \<in> names then Err (NetValidation (''Duplicate interface name: '' @ if_name i))
      else check_names (insert (if_name i) names) is)"

definition validate_network :: "cidr \<Rightarrow> network_config validation" where
  "validate_network ip cfg =
     and_then (validate_all (validate_interface ip) (interfaces cfg)) (\<lambda>_.
     and_then (case dns cfg of None \<Rightarrow> Ok () | Some d \<Rightarrow> validate_dns d) (\<lambda>_.
     and_then (validate_all (validate_route ip) (routes cfg)) (\<lambda>_.
     check_names {} (interfaces cfg))))"

section \<open>Storage\<close>

definition CONFIG_PATH :: string where
  "CONFIG_PATH = ''/var/lib/keel/network/config.json''"

definition load_network_from ::
  "cidr \<Rightarrow> network_config json \<Rightarrow> string \<Rightarrow> fsys \<Rightarrow> network_config_error + network_config" where
  "load_network_from ip js path fs =
     and_then (map_err NetIo (read_to_string path fs)) (\<lambda>content.
     and_then (map_err NetJson (from_json js content)) (\<lambda>config.
     and_then (validate_network ip config) (\<lambda>_. Ok config)))"

definition save_network_to ::
  "cidr \<Rightarrow> network_config json \<Rightarrow> network_config \<Rightarrow> string \<Rightarrow> fsys \<Rightarrow> (network_config_error + unit) \<times> fsys" where
  "save_network_to ip js cfg path fs =
     (case validate_network ip cfg of
        Inl e \<Rightarrow> (Err e, fs)
      | Inr _ \<Rightarrow>
          (case (case path_parent path of
                   None \<Rightarrow> (Ok (), fs)
                 | Some parent \<Rightarrow> create_dir_all parent fs) of
             (Inl e, fs1) \<Rightarrow> (Err (NetIo e), fs1)
           | (Inr _, fs1) \<Rightarrow>
               (case to_json js cfg of
                  Inl e \<Rightarrow> (Err (NetJson e), fs1)
                | Inr content \<Rightarrow>
                    (case fs_write path content fs1 of
                       (Inl e, fs2) \<Rightarrow> (Err (NetIo e), fs2)
                     | (Inr _, fs2) \<Rightarrow> (Ok (), fs2)))))"

definition load_network :: "cidr \<Rightarrow> network_config json \<Rightarrow> fsys \<Rightarrow> network_config_error + network_config" where
  "load_network ip js fs = load_network_from ip js CONFIG_PATH fs"

definition save_network ::
  "cidr \<Rightarrow> network_config json \<Rightarrow> network_config \<Rightarrow> fsys \<Rightarrow> (network_config_error + unit) \<times> fsys" where
  "save_network ip js cfg fs = save_network_to ip js cfg CONFIG_PATH fs"

section \<open>IPv4 text is canonical\<close>

lemma digit_char_digit_val: "is_digit c \<Longrightarrow> digit_char (digit_val c) = c \<and> digit_val c < 10"
proof -
  assume d: "is_digit c"
  then have lt: "digit_val c < 10"
    by (auto simp: is_digit_def digit_val_def)
  have "of_char (digit_char (digit_val c)) = (of_char c :: nat)"
    using d lt by (simp add: of_char_digit_char is_digit_def digit_val_def)
  with lt show ?thesis by simp
qed

lemma digit_val_0: "is_digit c \<Longrightarrow> digit_val c = 0 \<longleftrightarrow> c = CHR ''0''"
  using digit_char_digit_val [of c] by (auto simp: digit_char_def digit_val_def)

lemma digits_val_pos:
  "ds \<noteq> [] \<Longrightarrow> list_all is_digit ds \<Longrightarrow> hd ds \<noteq> CHR ''0'' \<Longrightarrow> 0 < digits_val ds"
proof (induction ds rule: rev_induct)
  case (snoc c ds)
  show ?case
  proof (cases "ds = []")
    case True
    with snoc.prems digit_val_0 [of c] show ?thesis by (simp add: digits_val_def)
  next
    case False
    with snoc have "0 < digits_val ds" by simp
    then show ?thesis by simp
  qed
qed simp

lemma show_digits_val:
  "ds \<noteq> [] \<Longrightarrow> list_all is_digit ds \<Longrightarrow> (1 < length ds \<longrightarrow> hd ds \<noteq> CHR ''0'') \<Longrightarrow>
     show_nat (digits_val ds) = ds"
proof (induction ds rule: rev_induct)
  case (snoc c ds)
  have c: "digit_char (digit_val c) = c" "digit_val c < 10"
    using snoc.prems(2) digit_char_digit_val by simp_all
  show ?case
  proof (cases "ds = []")
    case True
    with c show ?thesis by (simp add: digits_val_def show_nat.simps)
  next
    case False
    then have hd: "hd ds \<noteq> CHR ''0''" and dg: "list_all is_digit ds"
      using snoc.prems by simp_all
    with False have "0 < digits_val ds" "show_nat (digits_val ds) = ds"
      using digits_val_pos snoc.IH by simp_all
    with c show ?thesis
      by (subst show_nat.simps) simp
  qed
qed simp

lemma hd_show_nat: "0 < n \<Longrightarrow> hd (show_nat n) \<noteq> CHR ''0''"
proof (induction n rule: show_nat.induct)
  case (1 n)
  show ?case
  proof (cases "n < 10")
    case True
    with 1 less_10_cases [OF True] show ?thesis
      by (subst show_nat.simps) (auto simp: digit_char_def)
  next
    case False
    with 1 show ?thesis by (subst show_nat.simps) simp
  qed
qed

lemma length_show_octet: "n < 256 \<Longrightarrow> length (show_nat n) \<le> 3 \<and> (1 < length (show_nat n) \<longrightarrow> 0 < n)"
  by (subst (1 2) show_nat.simps, subst show_nat.simps, subst show_nat.simps) auto

lemma read_octet_iff:
  "read_octet s = Some (n, r) \<longleftrightarrow> n < 256 \<and> s = show_nat n @ r \<and> (r = [] \<or> \<not> is_digit (hd r))"
proof
  assume r: "read_octet s = Some (n, r)"
  let ?ds = "takeWhile is_digit s"
  have ds: "?ds \<noteq> []" "1 < length ?ds \<longrightarrow> hd ?ds \<noteq> CHR ''0''" "n = digits_val ?ds" "n < 256"
    "r = dropWhile is_digit s"
    using r by (auto simp: read_octet_def Let_def split: if_splits)
  have "list_all is_digit ?ds"
    by (auto simp: list_all_iff dest: set_takeWhileD)
  then have "show_nat n = ?ds"
    using ds show_digits_val by simp
  with ds show "n < 256 \<and> s = show_nat n @ r \<and> (r = [] \<or> \<not> is_digit (hd r))"
    using hd_dropWhile [of is_digit s] by auto
next
  assume a: "n < 256 \<and> s = show_nat n @ r \<and> (r = [] \<or> \<not> is_digit (hd r))"
  have "\<forall>c\<in>set (show_nat n). is_digit c"
    using show_nat_digits by (simp add: list_all_iff)
  moreover have "takeWhile is_digit r = []" "dropWhile is_digit r = r"
    using a by (cases r; simp)+
  ultimately have "takeWhile is_digit s = show_nat n" "dropWhile is_digit s = r"
    using a by (simp_all add: takeWhile_append2 dropWhile_append2)
  with a length_show_octet [of n] hd_show_nat [of n] show "read_octet s = Some (n, r)"
    by (auto simp: read_octet_def Let_def)
qed

lemma read_char_iff: "read_char c s = Some r \<longleftrightarrow> s = c # r"
  by (auto simp: read_char_def split: list.splits if_splits)

lemma dot_not_digit [simp]: "\<not> is_digit CHR ''.''"
  by (simp add: is_digit_def)

lemma read_dot_octet_iff:
  "read_dot_octet s = Some (n, r) \<longleftrightarrow>
     n < 256 \<and> s = CHR ''.'' # show_nat n @ r \<and> (r = [] \<or> \<not> is_digit (hd r))"
proof (cases "read_char CHR ''.'' s")
  case None
  then show ?thesis by (auto simp: read_dot_octet_def read_char_def)
next
  case (Some t)
  then have "s = CHR ''.'' # t" by (simp add: read_char_iff)
  with Some show ?thesis by (simp add: read_dot_octet_def read_octet_iff)
qed

definition ipv4_text :: "nat \<Rightarrow> nat \<Rightarrow> nat \<Rightarrow> nat \<Rightarrow> string" where
  "ipv4_text a b c d = join ''.'' [show_nat a, show_nat b, show_nat c, show_nat d]"

lemma read_ipv4_iff:
  "read_ipv4 s = Some (v, r) \<longleftrightarrow> (\<exists>a b c d. v = [a, b, c, d] \<and> a < 256 \<and> b < 256 \<and> c < 256 \<and> d < 256 \<and>
     s = ipv4_text a b c d @ r \<and> (r = [] \<or> \<not> is_digit (hd r)))"
proof
  assume "read_ipv4 s = Some (v, r)"
  then obtain a r1 b r2 c r3 d where "read_octet s = Some (a, r1)" "read_dot_octet r1 = Some (b, r2)"
    "read_dot_octet r2 = Some (c, r3)" "read_dot_octet r3 = Some (d, r)" "v = [a, b, c, d]"
    by (auto simp: read_ipv4_def split: option.splits)
  then show "\<exists>a b c d. v = [a, b, c, d] \<and> a < 256 \<and> b < 256 \<and> c < 256 \<and> d < 256 \<and>
     s = ipv4_text a b c d @ r \<and> (r = [] \<or> \<not> is_digit (hd r))"
    unfolding read_octet_iff read_dot_octet_iff ipv4_text_def by auto
next
  assume "\<exists>a b c d. v = [a, b, c, d] \<and> a < 256 \<and> b < 256 \<and> c < 256 \<and> d < 256 \<and>
     s = ipv4_text a b c d @ r \<and> (r = [] \<or> \<not> is_digit (hd r))"
  then obtain a b c d where v: "v = [a, b, c, d]" and lt: "a < 256" "b < 256" "c < 256" "d < 256"
    and s: "s = show_nat a @ CHR ''.'' # show_nat b @ CHR ''.'' # show_nat c @ CHR ''.'' # show_nat d @ r"
    and r: "r = [] \<or> \<not> is_digit (hd r)"
    by (auto simp: ipv4_text_def)
  let ?r3 = "CHR ''.'' # show_nat d @ r"
  let ?r2 = "CHR ''.'' # show_nat c @ ?r3"
  let ?r1 = "CHR ''.'' # show_nat b @ ?r2"
  have "read_octet s = Some (a, ?r1)" "read_dot_octet ?r1 = Some (b, ?r2)"
    "read_dot_octet ?r2 = Some (c, ?r3)" "read_dot_octet ?r3 = Some (d, r)"
    using lt s r by (simp_all only: read_octet_iff read_dot_octet_iff) simp_all
  then show "read_ipv4 s = Some (v, r)"
    by (simp add: read_ipv4_def v)
qed

lemma length_ipv4_text: "a < 256 \<Longrightarrow> b < 256 \<Longrightarrow> c < 256 \<Longrightarrow> d < 256 \<Longrightarrow> length (ipv4_text a b c d) \<le> 15"
  using length_show_octet [of a] length_show_octet [of b] length_show_octet [of c] length_show_octet [of d]
  by (simp add: ipv4_text_def)

lemma parse_ipv4_iff:
  "parse_ipv4 s = Some v \<longleftrightarrow>
     (\<exists>a b c d. v = [a, b, c, d] \<and> a < 256 \<and> b < 256 \<and> c < 256 \<and> d < 256 \<and> s = ipv4_text a b c d)"
proof -
  have "parse_ipv4 s = Some v \<longleftrightarrow> length s \<le> 15 \<and> read_ipv4 s = Some (v, [])"
    by (auto simp: parse_ipv4_def not_less split: option.splits list.splits)
  then show ?thesis
    using length_ipv4_text by (auto simp: read_ipv4_iff)
qed

lemma parse_ipv4_v6_disjoint: "parse_ipv4 s = Some v \<Longrightarrow> CHR '':'' \<notin> set s"
proof -
  have "CHR '':'' \<notin> set (show_nat n)" for n
    using show_nat_digits [of n] by (auto simp: list_all_iff is_digit_def)
  then show "parse_ipv4 s = Some v \<Longrightarrow> CHR '':'' \<notin> set s"
    by (auto simp: parse_ipv4_iff ipv4_text_def)
qed

section \<open>What a validator promises\<close>

text \<open>
  Every part of the configuration has a validator; the contract is a predicate that says
  what it accepts.
\<close>

locale validator =
  fixes validate :: "'c validation" and valid :: "'c \<Rightarrow> bool"
  assumes validate_iff: "validate c = Ok () \<longleftrightarrow> valid c"
begin

lemma all_valid: "validate_all validate cs = Ok () \<longleftrightarrow> (\<forall>c\<in>set cs. valid c)"
  by (induction cs) (auto simp: and_then_eq_Ok validate_iff)

lemma rejected_iff: "(\<exists>e. validate c = Err e) \<longleftrightarrow> \<not> valid c"
  using validate_iff [of c] by (cases "validate c") auto

lemma first_invalid:
  "validate_all validate cs = Err e \<Longrightarrow>
     \<exists>pre c post. cs = pre @ c # post \<and> (\<forall>p\<in>set pre. valid p) \<and> validate c = Err e"
proof (induction cs)
  case (Cons c cs)
  show ?case
  proof (cases "validate c")
    case (Inl e')
    with Cons.prems show ?thesis by (intro exI [of _ "[]"]) auto
  next
    case (Inr u)
    with Cons obtain pre d post where "cs = pre @ d # post" "\<forall>p\<in>set pre. valid p" "validate d = Err e"
      by auto
    moreover have "valid c" using Inr validate_iff [of c] by simp
    ultimately show ?thesis by (intro exI [of _ "c # pre"]) auto
  qed
qed simp

end

lemma require_eq_Ok [simp]: "require b e = Ok () \<longleftrightarrow> b"
  by (simp add: require_def)

interpretation cidr6_list: validator "\<lambda>a. require (cidr6 ip a) (InvalidCidr a)" "cidr6 ip" for ip
  by unfold_locales simp

interpretation nameserver_list: validator "\<lambda>ns. require (is_ip_address ns) (InvalidIpAddress ns)" is_ip_address
  by unfold_locales simp

definition valid_static :: "cidr \<Rightarrow> static_config \<Rightarrow> bool" where
  "valid_static ip cfg \<longleftrightarrow>
     (ipv4_address cfg \<noteq> [] \<or> ipv6_addresses cfg \<noteq> [] \<or> ipv6_auto cfg) \<and>
     (ipv4_address cfg \<noteq> [] \<longrightarrow> cidr4 ip (ipv4_address cfg) \<and>
        (\<forall>gw. st_gateway cfg = Some gw \<longrightarrow> parse_ipv4 gw \<noteq> None)) \<and>
     (\<forall>a\<in>set (ipv6_addresses cfg). cidr6 ip a) \<and>
     (\<forall>gw. ipv6_gateway cfg = Some gw \<longrightarrow> parse_ipv6 gw \<noteq> None) \<and>
     68 \<le> unat (mtu cfg) \<and> unat (mtu cfg) \<le> 9000"

fun valid_ip_config :: "cidr \<Rightarrow> ip_config \<Rightarrow> bool" where
  "valid_ip_config ip DhcpIp = True"
| "valid_ip_config ip (StaticIp cfg) = valid_static ip cfg"

fun valid_type :: "cidr \<Rightarrow> interface_type \<Rightarrow> bool" where
  "valid_type ip Dhcp = True"
| "valid_type ip (Static cfg) = valid_static ip cfg"
| "valid_type ip (Vlan cfg) = (1 \<le> unat (vlan_id cfg) \<and> unat (vlan_id cfg) \<le> 4094 \<and>
     vlan_parent cfg \<noteq> [] \<and> valid_ip_config ip (vlan_ip_config cfg))"
| "valid_type ip (Bond cfg) = (bond_slaves cfg \<noteq> [] \<and> valid_ip_config ip (bond_ip_config cfg))"

definition valid_interface :: "cidr \<Rightarrow> interface_config \<Rightarrow> bool" where
  "valid_interface ip i \<longleftrightarrow> 1 \<le> length (if_name i) \<and> length (if_name i) \<le> 15 \<and> valid_type ip (if_config i)"

definition valid_dns :: "dns_config \<Rightarrow> bool" where
  "valid_dns d \<longleftrightarrow> nameservers d \<noteq> [] \<and> (\<forall>ns\<in>set (nameservers d). is_ip_address ns)"

definition valid_route :: "cidr \<Rightarrow> route_config \<Rightarrow> bool" where
  "valid_route ip r \<longleftrightarrow> (cidr4 ip (rt_destination r) \<or> cidr6 ip (rt_destination r)) \<and> is_ip_address (rt_gateway r)"

interpretation static_validator: validator "validate_static ip" "valid_static ip" for ip
proof
  fix c
  show "validate_static ip c = Ok () \<longleftrightarrow> valid_static ip c"
    by (auto simp: validate_static_def valid_static_def and_then_eq_Ok cidr6_list.all_valid
        word_less_nat_alt not_less split: option.splits)
qed

interpretation ip_validator: validator "validate_ip_config ip" "valid_ip_config ip" for ip
proof
  fix c
  show "validate_ip_config ip c = Ok () \<longleftrightarrow> valid_ip_config ip c"
    by (cases c) (simp_all add: validate_ip_config_def static_validator.validate_iff)
qed

interpretation interface_validator: validator "validate_interface ip" "valid_interface ip" for ip
proof
  fix c
  have vlan: "validate_vlan ip v = Ok () \<longleftrightarrow> valid_type ip (Vlan v)" for v
    by (auto simp: validate_vlan_def and_then_eq_Ok ip_validator.validate_iff word_less_nat_alt not_less
        Suc_le_eq unat_gt_0)
  have bond: "validate_bond ip b = Ok () \<longleftrightarrow> valid_type ip (Bond b)" for b
    by (auto simp: validate_bond_def and_then_eq_Ok ip_validator.validate_iff)
  show "validate_interface ip c = Ok () \<longleftrightarrow> valid_interface ip c"
    using vlan bond
    by (cases "if_config c")
      (auto simp: validate_interface_def valid_interface_def and_then_eq_Ok static_validator.validate_iff
        Suc_le_eq not_less)
qed

interpretation dns_validator: validator validate_dns valid_dns
  by unfold_locales (auto simp: validate_dns_def valid_dns_def and_then_eq_Ok nameserver_list.all_valid)

interpretation route_validator: validator "validate_route ip" "valid_route ip" for ip
  by unfold_locales (auto simp: validate_route_def valid_route_def and_then_eq_Ok)

lemma check_names_iff:
  "check_names names is = Ok () \<longleftrightarrow> distinct (List.map if_name is) \<and> names \<inter> if_name ` set is = {}"
  by (induction "is" arbitrary: names) auto

interpretation network_validator: validator "validate_network ip"
  "\<lambda>cfg. (\<forall>i\<in>set (interfaces cfg). valid_interface ip i) \<and> (\<forall>d. dns cfg = Some d \<longrightarrow> valid_dns d) \<and>
     (\<forall>r\<in>set (routes cfg). valid_route ip r) \<and> distinct (List.map if_name (interfaces cfg))" for ip
  by unfold_locales
    (auto simp: validate_network_def and_then_eq_Ok interface_validator.all_valid route_validator.all_valid
      dns_validator.validate_iff check_names_iff split: option.splits)

section \<open>Saving and loading\<close>

lemma save_load_Ok:
  assumes "save_network_to ip js cfg path fs = (Ok u, fs')"
    and "json_ok js cfg" and "fs_read_err fs path = None"
  shows "load_network_from ip js path fs' = Ok cfg"
proof -
  have v: "validate_network ip cfg = Ok ()"
    using assms(1) by (cases "validate_network ip cfg") (simp_all add: save_network_to_def)
  obtain fs1 d where "fs_read_err fs1 = fs_read_err fs" "to_json js cfg = Ok d"
    "fs_write path d fs1 = (Ok (), fs')"
    using assms(1) v
    by (auto simp: save_network_to_def dest!: create_dir_all_frameD split: option.splits prod.splits sum.splits)
  with assms(2,3) show ?thesis
    using read_to_string_write [of path d fs1 "()" fs'] v by (auto simp: load_network_from_def json_ok_def)
qed

section \<open>Properties\<close>

text \<open>
  C36. The validator accepts a network configuration exactly when every interface has a
  name of 1 to 15 bytes and a valid type (VLAN identifiers 1 to 4094 with a parent, bonds
  with a slave, static settings with an address and an MTU of 68 to 9000), DNS settings
  list only IP addresses and at least one, every route has a CIDR destination and an IP
  gateway, and no two interfaces share a name.
\<close>

theorem network_validation_spec:
  "validate_network ip cfg = Ok () \<longleftrightarrow>
     (\<forall>i\<in>set (interfaces cfg). 1 \<le> length (if_name i) \<and> length (if_name i) \<le> 15 \<and> valid_type ip (if_config i)) \<and>
     (\<forall>d. dns cfg = Some d \<longrightarrow> nameservers d \<noteq> [] \<and> (\<forall>ns\<in>set (nameservers d). is_ip_address ns)) \<and>
     (\<forall>r\<in>set (routes cfg). (cidr4 ip (rt_destination r) \<or> cidr6 ip (rt_destination r)) \<and> is_ip_address (rt_gateway r)) \<and>
     distinct (List.map if_name (interfaces cfg))"
  unfolding network_validator.validate_iff valid_interface_def valid_dns_def valid_route_def by blast

definition demo_cidr :: cidr where
  "demo_cidr = \<lparr>cidr4 = (\<lambda>s. contains s ''/''), cidr6 = (\<lambda>s. contains s ''::'' \<and> contains s ''/'')\<rparr>"

definition demo_net :: network_config where
  "demo_net = \<lparr>interfaces = [\<lparr>if_name = ''eth0'', if_config = Static \<lparr>ipv4_address = ''10.0.0.5/24'',
       st_gateway = Some ''10.0.0.1'', mtu = 1500, ipv6_addresses = [], ipv6_gateway = None, ipv6_auto = False\<rparr>\<rparr>],
     dns = Some \<lparr>nameservers = [''10.0.0.1''], search_domains = []\<rparr>, routes = []\<rparr>"

lemma demo_ip: "parse_ipv4 ''10.0.0.1'' = Some [10, 0, 0, 1]"
  by (simp add: parse_ipv4_def read_ipv4_def read_octet_def read_dot_octet_def read_char_def is_digit_def
      digits_val_def digit_val_def)

theorem network_validation_spec_witness:
  "validate_network demo_cidr demo_net = Ok () \<and>
   validate_network demo_cidr (demo_net\<lparr>interfaces := interfaces demo_net @ interfaces demo_net\<rparr>) \<noteq> Ok ()"
  unfolding network_validation_spec
  by (simp add: demo_net_def demo_cidr_def valid_static_def is_ip_address_def demo_ip starts_with_def)

text \<open>
  Saving and loading a configuration gives it back: what is on disk after a successful
  save is valid and is read back equal, when the JSON library reads what it wrote and the
  file can be read. An invalid configuration is refused and leaves the disk as it was.
\<close>

lemma network_save_load:
  assumes "save_network_to ip js cfg path fs = (r, fs')"
  shows "(r = Ok () \<and> json_ok js cfg \<and> fs_read_err fs path = None \<longrightarrow> load_network_from ip js path fs' = Ok cfg) \<and>
    (validate_network ip cfg \<noteq> Ok () \<longrightarrow> r = validate_network ip cfg \<and> fs' = fs)"
  using save_load_Ok [of ip js cfg path fs "()" fs'] assms
  by (auto simp: save_network_to_def split: sum.splits)

definition demo_net_json :: "network_config json" where
  "demo_net_json = \<lparr>to_json = \<lambda>_. Ok ''{}'', from_json = \<lambda>_. Ok demo_net\<rparr>"

lemma network_save_load_witness:
  "\<exists>fs'. save_network_to demo_cidr demo_net_json demo_net ''/n.json''
      \<lparr>fs_files = Map.empty, fs_dirs = {}, fs_read_err = Map.empty, fs_write_err = Map.empty, fs_mkdir_err = Map.empty\<rparr> =
      (Ok (), fs') \<and> load_network_from demo_cidr demo_net_json ''/n.json'' fs' = Ok demo_net"
proof -
  let ?fs = "\<lparr>fs_files = Map.empty, fs_dirs = {}, fs_read_err = Map.empty, fs_write_err = Map.empty, fs_mkdir_err = Map.empty\<rparr>"
  have "validate_network demo_cidr demo_net = Ok ()"
    unfolding network_validator.validate_iff
    by (simp add: demo_net_def demo_cidr_def valid_interface_def valid_dns_def valid_static_def is_ip_address_def
        demo_ip starts_with_def)
  then have "\<exists>fs'. save_network_to demo_cidr demo_net_json demo_net ''/n.json'' ?fs = (Ok (), fs')"
    by (simp add: save_network_to_def demo_net_json_def create_dir_all_def fs_write_def split: option.splits)
  then obtain fs' where run: "save_network_to demo_cidr demo_net_json demo_net ''/n.json'' ?fs = (Ok (), fs')" ..
  have "json_ok demo_net_json demo_net" by (simp add: json_ok_def demo_net_json_def)
  with network_save_load [OF run] run show ?thesis by auto
qed

end
