(* ===== verification/Rbac.thy ===== *)
theory Rbac
  imports Keel_Prelude
begin

text \<open>
  Role-based access control of the agent's gRPC endpoints
  (\<open>cmd/keel-agent/src/rbac.rs\<close>): the roles and their order, the role a client
  certificate carries, and the check every handler makes first. The X.509 parser is a
  parameter: \<open>orgs der\<close> is either a parse error or the values of the subject's
  Organization attributes in order, \<open>None\<close> where an attribute is not a string.
\<close>

section \<open>Definitions\<close>

datatype role = Viewer | Operator | Admin

fun privilege_level :: "role \<Rightarrow> u8" where
  "privilege_level Viewer = 0"
| "privilege_level Operator = 1"
| "privilege_level Admin = 2"

definition has_permission :: "role \<Rightarrow> role \<Rightarrow> bool" where
  "has_permission self required \<longleftrightarrow> privilege_level required \<le> privilege_level self"

fun role_str :: "role \<Rightarrow> string" where
  "role_str Viewer = ''viewer''"
| "role_str Operator = ''operator''"
| "role_str Admin = ''admin''"

definition role_of_org :: "string \<Rightarrow> role option" where
  "role_of_org v =
     (if v = ''system:masters'' \<or> v = ''keel:admin'' then Some Admin
      else if v = ''keel:operator'' then Some Operator
      else if v = ''keel:viewer'' then Some Viewer
      else None)"

text \<open>The loop over the Organization attributes: the first recognised value decides.\<close>

fun first_role :: "string option list \<Rightarrow> role option" where
  "first_role [] = None"
| "first_role (None # as) = first_role as"
| "first_role (Some v # as) =
     (case role_of_org v of Some r \<Rightarrow> Some r | None \<Rightarrow> first_role as)"

definition role_from_cert_der :: "('der \<Rightarrow> string + string option list) \<Rightarrow> 'der \<Rightarrow> string + role" where
  "role_from_cert_der orgs der =
     and_then (map_err (\<lambda>e. ''Failed to parse X.509 certificate: '' @ e) (orgs der))
       (\<lambda>as. ok_or ''No recognized RBAC role in certificate Organization field'' (first_role as))"

text \<open>The gRPC status values the agent returns, with their message.\<close>

datatype status =
    Unauthenticated string
  | PermissionDenied string
  | InvalidArgument string
  | Internal string
  | FailedPrecondition string

text \<open>\<open>authorize\<close>: the second argument is \<open>request.peer_certs()\<close>.\<close>

definition authorize ::
  "('der \<Rightarrow> string + string option list) \<Rightarrow> 'der list option \<Rightarrow> role \<Rightarrow> status + unit" where
  "authorize orgs peer_certs required =
     (case peer_certs of
        None \<Rightarrow> Ok ()
      | Some [] \<Rightarrow> Err (Unauthenticated ''Client certificate chain is empty'')
      | Some (first_cert # _) \<Rightarrow>
          and_then
            (map_err (\<lambda>e. PermissionDenied (''Unrecognized client certificate role: '' @ e))
              (role_from_cert_der orgs first_cert))
            (\<lambda>client_role.
               if has_permission client_role required then Ok ()
               else Err (PermissionDenied
                 (''Role '' @ [CHR 0x27] @ role_str client_role @ [CHR 0x27] @
                  '' does not have permission for this operation (requires '' @
                  [CHR 0x27] @ role_str required @ [CHR 0x27] @ '')''))))"

section \<open>Roles are linearly ordered by privilege\<close>

lemma has_permission_table:
  "has_permission b a \<longleftrightarrow> a = Viewer \<or> b = Admin \<or> a = b"
  by (cases a; cases b) (simp_all add: has_permission_def word_le_nat_alt)

instantiation role :: linorder
begin

definition less_eq_role :: "role \<Rightarrow> role \<Rightarrow> bool" where
  "less_eq_role a b \<longleftrightarrow> has_permission b a"

definition less_role :: "role \<Rightarrow> role \<Rightarrow> bool" where
  "less_role a b \<longleftrightarrow> \<not> has_permission a b"

instance
proof
  fix x y z :: role
  show "(x < y) = (x \<le> y \<and> \<not> y \<le> x)"
    by (cases x; cases y) (simp_all add: less_eq_role_def less_role_def has_permission_table)
  show "x \<le> x"
    by (simp add: less_eq_role_def has_permission_table)
  show "x \<le> y \<Longrightarrow> y \<le> z \<Longrightarrow> x \<le> z"
    by (auto simp: less_eq_role_def has_permission_table)
  show "x \<le> y \<Longrightarrow> y \<le> x \<Longrightarrow> x = y"
    by (auto simp: less_eq_role_def has_permission_table)
  show "x \<le> y \<or> y \<le> x"
    by (cases x; cases y) (simp_all add: less_eq_role_def has_permission_table)
qed

end

lemma has_permission_iff: "has_permission c r \<longleftrightarrow> r \<le> c"
  by (simp add: less_eq_role_def)

lemma Viewer_least [simp]: "Viewer \<le> r"
  by (simp add: less_eq_role_def has_permission_table)

lemma Admin_greatest [simp]: "r \<le> Admin"
  by (simp add: less_eq_role_def has_permission_table)

section \<open>What a policy promises its clients\<close>

text \<open>
  The contract the request handlers rely on: \<open>permits q r\<close> says that a request with
  credentials \<open>q\<close> passes the check for role \<open>r\<close>, and the credentials' clearance is
  the highest such role.
\<close>

locale access_policy =
  fixes permits :: "'q \<Rightarrow> role \<Rightarrow> bool"
    and clearance :: "'q \<Rightarrow> role option"
  assumes permits_iff: "permits q r \<longleftrightarrow> (\<exists>c. clearance q = Some c \<and> r \<le> c)"
begin

lemma permits_downward: "permits q r \<Longrightarrow> s \<le> r \<Longrightarrow> permits q s"
  by (auto simp: permits_iff)

lemma permits_all_or_none: "permits q Admin \<Longrightarrow> permits q r"
  by (rule permits_downward) auto

lemma refused_iff: "\<not> permits q Viewer \<longleftrightarrow> clearance q = None"
  by (cases "clearance q") (auto simp: permits_iff)

lemma clearance_determined:
  assumes "\<And>r. permits q r \<longleftrightarrow> permits q' r"
  shows "clearance q = clearance q'"
proof (cases "clearance q")
  case None
  with assms [of Viewer] show ?thesis by (auto simp: permits_iff)
next
  case (Some c)
  then have "permits q c" by (simp add: permits_iff)
  with assms [of c] obtain c' where c': "clearance q' = Some c'" "c \<le> c'"
    by (auto simp: permits_iff)
  then have "permits q' c'" by (simp add: permits_iff)
  with assms [of c'] Some have "c' \<le> c" by (auto simp: permits_iff)
  with c' Some show ?thesis by simp
qed

end

text \<open>The clearance of a request, read off its peer certificates.\<close>

definition request_clearance ::
  "('der \<Rightarrow> string + string option list) \<Rightarrow> 'der list option \<Rightarrow> role option" where
  "request_clearance orgs peer_certs =
     (case peer_certs of
        None \<Rightarrow> Some Admin
      | Some [] \<Rightarrow> None
      | Some (c # _) \<Rightarrow> result_ok (role_from_cert_der orgs c))"

lemma authorize_iff:
  "authorize orgs q r = Ok () \<longleftrightarrow> (\<exists>c. request_clearance orgs q = Some c \<and> r \<le> c)"
proof (cases q)
  case None
  then show ?thesis by (simp add: authorize_def request_clearance_def)
next
  case (Some cs)
  show ?thesis
  proof (cases cs)
    case Nil
    with Some show ?thesis by (simp add: authorize_def request_clearance_def)
  next
    case (Cons c rest)
    with Some show ?thesis
      by (cases "role_from_cert_der orgs c")
        (simp_all add: authorize_def request_clearance_def has_permission_iff)
  qed
qed

interpretation rbac_policy: access_policy
  "\<lambda>q r. authorize orgs q r = Ok ()" "request_clearance orgs"
  for orgs :: "'der \<Rightarrow> string + string option list"
  by unfold_locales (rule authorize_iff)

section \<open>Properties\<close>

lemma first_role_skip:
  "\<forall>w. Some w \<in> set pre \<longrightarrow> role_of_org w = None \<Longrightarrow> first_role (pre @ as) = first_role as"
proof (induction pre)
  case (Cons a pre)
  then show ?case by (cases a) simp_all
qed simp

lemma first_role_split:
  "first_role as = Some r \<Longrightarrow>
     \<exists>pre v post. as = pre @ Some v # post \<and> role_of_org v = Some r \<and>
        (\<forall>w. Some w \<in> set pre \<longrightarrow> role_of_org w = None)"
proof (induction as)
  case (Cons a as)
  show ?case
  proof (cases "\<exists>v. a = Some v \<and> role_of_org v \<noteq> None")
    case True
    with Cons.prems show ?thesis
      by (intro exI [of _ "[]"] exI [of _ "the a"] exI [of _ as]) auto
  next
    case False
    then have skip: "\<forall>w. Some w \<in> set [a] \<longrightarrow> role_of_org w = None"
      by auto
    with first_role_skip [of "[a]" as] Cons.prems have "first_role as = Some r"
      by simp
    then obtain pre v post where "as = pre @ Some v # post" "role_of_org v = Some r"
      "\<forall>w. Some w \<in> set pre \<longrightarrow> role_of_org w = None"
      using Cons.IH by blast
    with skip show ?thesis
      by (intro exI [of _ "a # pre"] exI [of _ v] exI [of _ post]) auto
  qed
qed simp

lemma first_role_Some:
  "first_role as = Some r \<longleftrightarrow>
     (\<exists>pre v post. as = pre @ Some v # post \<and> role_of_org v = Some r \<and>
        (\<forall>w. Some w \<in> set pre \<longrightarrow> role_of_org w = None))"
  (is "_ \<longleftrightarrow> ?R")
proof
  assume "first_role as = Some r"
  then show ?R by (rule first_role_split)
next
  assume ?R
  then show "first_role as = Some r" by (auto simp: first_role_skip)
qed

text \<open>
  C1. With client certificates present, a request is authorised for a role exactly when
  the first certificate parses and the first recognised Organization value of its subject
  names a role at least as privileged as the required one.
\<close>

theorem authorize_certified:
  "authorize orgs (Some certs) required = Ok () \<longleftrightarrow>
     (\<exists>der rest as pre v post r.
        certs = der # rest \<and> orgs der = Ok as \<and> as = pre @ Some v # post \<and>
        (\<forall>w. Some w \<in> set pre \<longrightarrow> role_of_org w = None) \<and>
        role_of_org v = Some r \<and> has_permission r required)"
proof (cases certs)
  case Nil
  then show ?thesis by (simp add: authorize_def)
next
  case (Cons der rest)
  show ?thesis
  proof (cases "orgs der")
    case (Inl e)
    with Cons show ?thesis by (simp add: authorize_def role_from_cert_der_def)
  next
    case (Inr as)
    have "authorize orgs (Some certs) required = Ok () \<longleftrightarrow>
        (\<exists>r. first_role as = Some r \<and> has_permission r required)"
      using Cons Inr by (cases "first_role as") (simp_all add: authorize_def role_from_cert_der_def)
    also have "\<dots> \<longleftrightarrow> (\<exists>pre v post r. as = pre @ Some v # post \<and>
        (\<forall>w. Some w \<in> set pre \<longrightarrow> role_of_org w = None) \<and>
        role_of_org v = Some r \<and> has_permission r required)"
      by (auto simp: first_role_Some)
    finally show ?thesis using Cons Inr by simp
  qed
qed

text \<open>A request for this property: the operator's certificate carries a foreign group first.\<close>

theorem authorize_certified_witness:
  "authorize (\<lambda>d::nat. Ok [Some ''dev'', Some ''keel:operator'']) (Some [7]) Viewer = Ok () \<and>
   authorize (\<lambda>d::nat. Ok [Some ''dev'', Some ''keel:operator'']) (Some [7]) Admin \<noteq> Ok ()"
proof -
  let ?orgs = "\<lambda>d::nat. Ok [Some ''dev'', Some ''keel:operator''] :: string + string option list"
  have "authorize ?orgs (Some [7]) Viewer = Ok ()"
    unfolding authorize_certified
    by (intro exI [of _ 7] exI [of _ "[]"] exI [of _ "[Some ''dev'', Some ''keel:operator'']"]
        exI [of _ "[Some ''dev'']"] exI [of _ "''keel:operator''"] exI [of _ Operator])
      (simp add: role_of_org_def has_permission_table)
  moreover have "authorize ?orgs (Some [7]) Admin \<noteq> Ok ()"
    by (simp add: authorize_def role_from_cert_der_def role_of_org_def has_permission_table)
  ultimately show ?thesis by simp
qed

end
