(* ===== verification/Network_Rpc.thy ===== *)
theory Network_Rpc
  imports Network_Config Rbac
begin

text \<open>
  The network requests of the agent (\<open>cmd/keel-agent/src/network.rs\<close>): storing a
  configuration, reporting it, and reporting the state of the interfaces. The protocol
  messages carry empty strings and zeros for absent values; the records below are the
  fields of those messages that the code reads or writes. A panic is the value \<open>None\<close>.
\<close>

section \<open>Messages\<close>

record static_msg =
  m_ipv4_address :: string
  m_gateway :: string
  m_mtu :: u32
  m_ipv6_addresses :: "string list"
  m_ipv6_gateway :: string
  m_ipv6_auto :: bool

text \<open>The one-of fields; the flag of a DHCP message is its field \<open>enabled\<close>.\<close>

datatype ip_msg = MDhcp bool | MStatic static_msg

record vlan_msg =
  m_parent :: string
  m_vlan_id :: u32
  m_vlan_ip :: "ip_msg option"

record bond_msg =
  m_mode :: string
  m_slaves :: "string list"
  m_bond_ip :: "ip_msg option"

datatype config_msg = CDhcp bool | CStatic static_msg | CVlan vlan_msg | CBond bond_msg

record interface_msg =
  m_name :: string
  m_config :: "config_msg option"

record route_msg =
  m_destination :: string
  m_route_gateway :: string
  m_metric :: u32

record configure_request =
  rq_interfaces :: "interface_msg list"
  rq_dns :: "dns_config option"
  rq_routes :: "route_msg list"
  rq_auto_reboot :: bool

record config_response =
  rp_interfaces :: "interface_msg list"
  rp_dns :: "dns_config option"
  rp_routes :: "route_msg list"

section \<open>Storing a configuration\<close>

definition static_of_msg :: "static_msg \<Rightarrow> static_config" where
  "static_of_msg m =
     \<lparr>ipv4_address = m_ipv4_address m, st_gateway = non_empty (m_gateway m),
      mtu = (if m_mtu m = 0 then 1500 else m_mtu m), ipv6_addresses = m_ipv6_addresses m,
      ipv6_gateway = non_empty (m_ipv6_gateway m), ipv6_auto = m_ipv6_auto m\<rparr>"

fun ip_of_msg :: "ip_msg option \<Rightarrow> ip_config" where
  "ip_of_msg (Some (MDhcp b)) = DhcpIp"
| "ip_of_msg (Some (MStatic s)) = StaticIp (static_of_msg s)"
| "ip_of_msg None = DhcpIp"

fun type_of_msg :: "config_msg option \<Rightarrow> status + interface_type" where
  "type_of_msg (Some (CDhcp b)) = Ok Dhcp"
| "type_of_msg (Some (CStatic s)) = Ok (Static (static_of_msg s))"
| "type_of_msg (Some (CVlan v)) =
     Ok (Vlan \<lparr>vlan_parent = m_parent v, vlan_id = m_vlan_id v, vlan_ip_config = ip_of_msg (m_vlan_ip v)\<rparr>)"
| "type_of_msg (Some (CBond b)) =
     and_then (map_err (\<lambda>e. InvalidArgument (''Invalid bonding mode: '' @ network_error_str e))
                (bonding_mode_from_str (m_mode b)))
       (\<lambda>mode. Ok (Bond \<lparr>bond_mode = mode, bond_slaves = m_slaves b, bond_ip_config = ip_of_msg (m_bond_ip b)\<rparr>))"
| "type_of_msg None = Err (InvalidArgument ''Interface config is required'')"

fun interfaces_of_msg :: "interface_msg list \<Rightarrow> status + interface_config list" where
  "interfaces_of_msg [] = Ok []"
| "interfaces_of_msg (m # ms) =
     and_then (type_of_msg (m_config m)) (\<lambda>ty.
     and_then (interfaces_of_msg ms) (\<lambda>is. Ok (\<lparr>if_name = m_name m, if_config = ty\<rparr> # is)))"

definition route_of_msg :: "route_msg \<Rightarrow> route_config" where
  "route_of_msg r =
     \<lparr>rt_destination = m_destination r, rt_gateway = m_route_gateway r,
      rt_metric = (if m_metric r = 0 then None else Some (m_metric r))\<rparr>"

definition config_of_request :: "configure_request \<Rightarrow> status + network_config" where
  "config_of_request req =
     and_then (interfaces_of_msg (rq_interfaces req)) (\<lambda>is.
       Ok \<lparr>interfaces = is, dns = rq_dns req, routes = List.map route_of_msg (rq_routes req)\<rparr>)"

text \<open>The second component of a successful result says whether a reboot was scheduled.\<close>

definition configure_network ::
  "cidr \<Rightarrow> network_config json \<Rightarrow> configure_request \<Rightarrow> fsys \<Rightarrow> (status + string \<times> bool) \<times> fsys" where
  "configure_network ip js req fs =
     (case config_of_request req of
        Inl e \<Rightarrow> (Err e, fs)
      | Inr config \<Rightarrow>
          (case validate_network ip config of
             Inl e \<Rightarrow> (Err (InvalidArgument (''Invalid network configuration: '' @ network_error_str e)), fs)
           | Inr _ \<Rightarrow>
               (case save_network ip js config fs of
                  (Inr _, fs') \<Rightarrow>
                    (Ok (''Network configuration saved. Changes will apply on next boot.'', rq_auto_reboot req), fs')
                | (Inl e, fs') \<Rightarrow>
                    (Err (Internal (''Failed to save configuration: '' @ network_error_str e)), fs'))))"

section \<open>Reporting a configuration\<close>

definition msg_of_static :: "static_config \<Rightarrow> static_msg" where
  "msg_of_static c =
     \<lparr>m_ipv4_address = ipv4_address c, m_gateway = unwrap_or [] (st_gateway c), m_mtu = mtu c,
      m_ipv6_addresses = ipv6_addresses c, m_ipv6_gateway = unwrap_or [] (ipv6_gateway c),
      m_ipv6_auto = ipv6_auto c\<rparr>"

fun msg_of_ip :: "ip_config \<Rightarrow> ip_msg option" where
  "msg_of_ip DhcpIp = Some (MDhcp True)"
| "msg_of_ip (StaticIp s) = Some (MStatic (msg_of_static s))"

fun msg_of_type :: "interface_type \<Rightarrow> config_msg option" where
  "msg_of_type Dhcp = Some (CDhcp True)"
| "msg_of_type (Static s) = Some (CStatic (msg_of_static s))"
| "msg_of_type (Vlan v) =
     Some (CVlan \<lparr>m_parent = vlan_parent v, m_vlan_id = vlan_id v, m_vlan_ip = msg_of_ip (vlan_ip_config v)\<rparr>)"
| "msg_of_type (Bond b) =
     Some (CBond \<lparr>m_mode = bonding_mode_str (bond_mode b), m_slaves = bond_slaves b,
                  m_bond_ip = msg_of_ip (bond_ip_config b)\<rparr>)"

definition msg_of_route :: "route_config \<Rightarrow> route_msg" where
  "msg_of_route r =
     \<lparr>m_destination = rt_destination r, m_route_gateway = rt_gateway r, m_metric = unwrap_or 0 (rt_metric r)\<rparr>"

definition get_network_config :: "cidr \<Rightarrow> network_config json \<Rightarrow> fsys \<Rightarrow> status + config_response" where
  "get_network_config ip js fs =
     (case load_network ip js fs of
        Inr config \<Rightarrow>
          Ok \<lparr>rp_interfaces = List.map (\<lambda>i. \<lparr>m_name = if_name i, m_config = msg_of_type (if_config i)\<rparr>) (interfaces config),
              rp_dns = dns config, rp_routes = List.map msg_of_route (routes config)\<rparr>
      | Inl e \<Rightarrow> Ok \<lparr>rp_interfaces = [], rp_dns = None, rp_routes = []\<rparr>)"

section \<open>Interface status\<close>

record ipv6_address_info =
  ai_address :: string
  ai_prefix_len :: u32
  ai_scope :: string
  ai_flags :: "string list"

fun position :: "'a \<Rightarrow> 'a list \<Rightarrow> nat option" where
  "position x [] = None"
| "position x (y # ys) = (if y = x then Some 0 else map_option Suc (position x ys))"

text \<open>The outer option is \<open>None\<close> for a panic: the slice \<open>&parts[scope_pos + 2..]\<close> out of range.\<close>

definition parse_ipv6_address_line :: "string \<Rightarrow> ipv6_address_info option option" where
  "parse_ipv6_address_line line =
     (let trimmed = trim line in
      if \<not> starts_with trimmed ''inet6 '' then Some None
      else
        let parts = split_whitespace trimmed in
        if length parts < 2 then Some None
        else
          let addr_with_prefix = parts ! 1;
              (address, prefix_len) =
                (case split_once ''/'' addr_with_prefix of
                   Some (addr, p) \<Rightarrow> (addr, unwrap_or 128 (parse_u32 p))
                 | None \<Rightarrow> (addr_with_prefix, 128));
              scope = (case position ''scope'' parts of
                         Some i \<Rightarrow> if i + 1 < length parts then parts ! (i + 1) else ''unknown''
                       | None \<Rightarrow> ''unknown'')
          in case position ''scope'' parts of
               None \<Rightarrow> Some (Some \<lparr>ai_address = address, ai_prefix_len = prefix_len, ai_scope = scope, ai_flags = []\<rparr>)
             | Some scope_pos \<Rightarrow>
                 if length parts < scope_pos + 2 then None
                 else Some (Some \<lparr>ai_address = address, ai_prefix_len = prefix_len, ai_scope = scope,
                        ai_flags = filter (\<lambda>f. f \<noteq> []) (drop (scope_pos + 2) parts)\<rparr>))"

record interface_statistics =
  rx_bytes :: u64
  tx_bytes :: u64
  rx_packets :: u64
  tx_packets :: u64
  rx_errors :: u64
  tx_errors :: u64

record interface_status =
  is_name :: string
  is_state :: string
  is_ipv4_addresses :: "string list"
  is_mac_address :: string
  is_mtu :: u32
  is_statistics :: "interface_statistics option"
  is_ipv6_addresses :: "string list"
  is_ipv6_address_info :: "ipv6_address_info list"

definition net_path :: "string \<Rightarrow> string \<Rightarrow> string" where
  "net_path iface f = ''/sys/class/net/'' @ iface @ ''/'' @ f"

definition read_stat :: "fsys \<Rightarrow> string \<Rightarrow> string \<Rightarrow> u64" where
  "read_stat fs iface f =
     (case read_to_string (net_path iface (''statistics/'' @ f)) fs of
        Inr s \<Rightarrow> unwrap_or 0 (parse_u64 (trim s)) | Inl e \<Rightarrow> 0)"

definition ipv4_lines :: "string \<Rightarrow> string list" where
  "ipv4_lines out =
     List.map_filter (\<lambda>line. if starts_with (trim line) ''inet ''
        then (case split_whitespace line of _ # a # _ \<Rightarrow> Some a | _ \<Rightarrow> None) else None) (lines out)"

fun ipv6_infos :: "string list \<Rightarrow> ipv6_address_info list option" where
  "ipv6_infos [] = Some []"
| "ipv6_infos (l # ls) =
     (case parse_ipv6_address_line l of
        None \<Rightarrow> None
      | Some None \<Rightarrow> ipv6_infos ls
      | Some (Some i) \<Rightarrow> map_option (\<lambda>is. i # is) (ipv6_infos ls))"

text \<open>
  \<open>ip4\<close> and \<open>ip6\<close> are the outputs of the two \<open>ip\<close> commands for an interface, \<open>None\<close> when a
  command could not be run or its output is not UTF-8.
\<close>

definition status_of_interface ::
  "(string \<Rightarrow> string option) \<Rightarrow> (string \<Rightarrow> string option) \<Rightarrow> fsys \<Rightarrow> string \<Rightarrow> interface_status option" where
  "status_of_interface ip4 ip6 fs iface =
     (case (case ip6 iface of None \<Rightarrow> Some [] | Some out \<Rightarrow> ipv6_infos (lines out)) of
        None \<Rightarrow> None
      | Some infos \<Rightarrow> Some
          \<lparr>is_name = iface,
           is_state = (case read_to_string (net_path iface ''operstate'') fs of
                         Inr s \<Rightarrow> to_lowercase (trim s) | Inl e \<Rightarrow> ''unknown''),
           is_ipv4_addresses = (case ip4 iface of None \<Rightarrow> [] | Some out \<Rightarrow> ipv4_lines out),
           is_mac_address = (case read_to_string (net_path iface ''address'') fs of
                               Inr s \<Rightarrow> trim s | Inl e \<Rightarrow> []),
           is_mtu = (case read_to_string (net_path iface ''mtu'') fs of
                       Inr s \<Rightarrow> unwrap_or 0 (parse_u32 (trim s)) | Inl e \<Rightarrow> 0),
           is_statistics = Some
             \<lparr>rx_bytes = read_stat fs iface ''rx_bytes'', tx_bytes = read_stat fs iface ''tx_bytes'',
              rx_packets = read_stat fs iface ''rx_packets'', tx_packets = read_stat fs iface ''tx_packets'',
              rx_errors = read_stat fs iface ''rx_errors'', tx_errors = read_stat fs iface ''tx_errors''\<rparr>,
           is_ipv6_addresses = List.map ai_address infos, is_ipv6_address_info = infos\<rparr>)"

fun statuses ::
  "(string \<Rightarrow> string option) \<Rightarrow> (string \<Rightarrow> string option) \<Rightarrow> fsys \<Rightarrow> string list \<Rightarrow> interface_status list option" where
  "statuses ip4 ip6 fs [] = Some []"
| "statuses ip4 ip6 fs (n # ns) =
     (if n = ''lo'' then statuses ip4 ip6 fs ns
      else case status_of_interface ip4 ip6 fs n of
        None \<Rightarrow> None
      | Some s \<Rightarrow> map_option (\<lambda>ss. s # ss) (statuses ip4 ip6 fs ns))"

text \<open>\<open>entries\<close> is the listing of \<open>/sys/class/net\<close>, \<open>None\<close> when it cannot be read.\<close>

definition get_network_status ::
  "(string \<Rightarrow> string option) \<Rightarrow> (string \<Rightarrow> string option) \<Rightarrow> string list option \<Rightarrow> fsys \<Rightarrow> interface_status list option" where
  "get_network_status ip4 ip6 entries fs =
     (case entries of None \<Rightarrow> Some [] | Some names \<Rightarrow> statuses ip4 ip6 fs names)"

section \<open>Reading back what was stored\<close>

text \<open>
  What a client reads after it stored a request: the message with defaults filled in.
  DHCP is reported as enabled even where the request said otherwise.
\<close>

definition canon_static :: "static_msg \<Rightarrow> static_msg" where
  "canon_static m = m\<lparr>m_mtu := if m_mtu m = 0 then 1500 else m_mtu m\<rparr>"

fun canon_ip :: "ip_msg option \<Rightarrow> ip_msg option" where
  "canon_ip (Some (MStatic s)) = Some (MStatic (canon_static s))"
| "canon_ip (Some (MDhcp b)) = Some (MDhcp True)"
| "canon_ip None = Some (MDhcp True)"

fun canon_config :: "config_msg option \<Rightarrow> config_msg option" where
  "canon_config (Some (CStatic s)) = Some (CStatic (canon_static s))"
| "canon_config (Some (CVlan v)) = Some (CVlan (v\<lparr>m_vlan_ip := canon_ip (m_vlan_ip v)\<rparr>))"
| "canon_config (Some (CBond b)) = Some (CBond (b\<lparr>m_bond_ip := canon_ip (m_bond_ip b)\<rparr>))"
| "canon_config (Some (CDhcp b)) = Some (CDhcp True)"
| "canon_config None = None"

lemma static_round: "msg_of_static (static_of_msg m) = canon_static m"
  by (cases m) (simp add: msg_of_static_def static_of_msg_def canon_static_def)

lemma ip_round: "msg_of_ip (ip_of_msg x) = canon_ip x"
  by (induction x rule: ip_of_msg.induct) (simp_all add: static_round)

lemma bonding_mode_round: "bonding_mode_from_str s = Ok m \<longleftrightarrow> s = bonding_mode_str m"
  by (cases m) (auto simp: bonding_mode_from_str_def)

lemma type_round: "type_of_msg x = Ok ty \<Longrightarrow> msg_of_type ty = canon_config x"
  by (induction x rule: type_of_msg.induct)
    (auto simp: static_round ip_round and_then_eq_Ok bonding_mode_round)

lemma route_round: "msg_of_route (route_of_msg r) = r"
  by (cases r) (simp add: msg_of_route_def route_of_msg_def)

lemma interfaces_round:
  "interfaces_of_msg ms = Ok is \<Longrightarrow>
     List.map (\<lambda>i. \<lparr>m_name = if_name i, m_config = msg_of_type (if_config i)\<rparr>) is =
     List.map (\<lambda>m. m\<lparr>m_config := canon_config (m_config m)\<rparr>) ms"
proof (induction ms arbitrary: "is")
  case (Cons m ms)
  then obtain ty is' where "type_of_msg (m_config m) = Ok ty" "interfaces_of_msg ms = Ok is'"
    "is = \<lparr>if_name = m_name m, if_config = ty\<rparr> # is'"
    by (auto simp: and_then_eq_Ok)
  with Cons.IH type_round show ?case by (cases m) simp
qed simp

section \<open>Parsing address lines\<close>

lemma position_Some: "position x xs = Some i \<longleftrightarrow> i < length xs \<and> xs ! i = x \<and> (\<forall>j<i. xs ! j \<noteq> x)"
proof (induction xs arbitrary: i)
  case (Cons y ys)
  show ?case
  proof (cases i)
    case (Suc k)
    with Cons.IH [of k] show ?thesis by (auto simp: less_Suc_eq_0_disj)
  qed auto
qed simp

lemma configure_reported:
  assumes "configure_network ip js req fs = (Ok x, fs')" and "\<forall>c. config_of_request req = Ok c \<longrightarrow> json_ok js c"
    and "fs_read_err fs CONFIG_PATH = None"
  shows "get_network_config ip js fs' =
    Ok \<lparr>rp_interfaces = List.map (\<lambda>m. m\<lparr>m_config := canon_config (m_config m)\<rparr>) (rq_interfaces req),
        rp_dns = rq_dns req, rp_routes = rq_routes req\<rparr>"
proof -
  obtain cfg where cfg: "config_of_request req = Ok cfg" "validate_network ip cfg = Ok ()" "save_network ip js cfg fs = (Ok (), fs')"
    using assms(1) by (auto simp: configure_network_def split: sum.splits prod.splits)
  then have "save_network_to ip js cfg CONFIG_PATH fs = (Ok (), fs')" by (simp add: save_network_def)
  then have ld: "load_network ip js fs' = Ok cfg"
    using save_load_Ok [of ip js cfg CONFIG_PATH fs "()" fs'] assms(2,3) cfg(1) by (simp add: load_network_def)
  from cfg(1) obtain "is" where "interfaces_of_msg (rq_interfaces req) = Ok is"
    "cfg = \<lparr>interfaces = is, dns = rq_dns req, routes = List.map route_of_msg (rq_routes req)\<rparr>"
    by (auto simp: config_of_request_def and_then_eq_Ok)
  with interfaces_round ld show ?thesis
    by (simp add: get_network_config_def route_round comp_def)
qed

section \<open>Properties\<close>

text \<open>
  C35. A network configuration that was accepted is the one reported afterwards: the same
  interfaces, DNS settings and routes, with an MTU of 1500 where none was given and DHCP
  where no address mode was given. A request that is refused before it is saved leaves
  the disk as it was, and a reboot is scheduled only on success.
\<close>

theorem configure_then_get:
  assumes "configure_network ip js req fs = (r, fs')" and "\<forall>c. config_of_request req = Ok c \<longrightarrow> json_ok js c"
    and "fs_read_err fs CONFIG_PATH = None"
  shows "case r of
      Inr (_, reboot) \<Rightarrow> reboot = rq_auto_reboot req \<and>
        get_network_config ip js fs' =
          Ok \<lparr>rp_interfaces = List.map (\<lambda>m. m\<lparr>m_config := canon_config (m_config m)\<rparr>) (rq_interfaces req),
              rp_dns = rq_dns req, rp_routes = rq_routes req\<rparr>
    | Inl (InvalidArgument _) \<Rightarrow> fs' = fs
    | Inl _ \<Rightarrow> \<exists>cfg. config_of_request req = Ok cfg \<and> validate_network ip cfg = Ok ()"
proof (cases "\<exists>cfg. config_of_request req = Ok cfg \<and> validate_network ip cfg = Ok ()")
  case False
  have "\<exists>m. e = InvalidArgument m" if "type_of_msg x = Err e" for x e
    using that by (induction x rule: type_of_msg.induct) (auto simp: bonding_mode_from_str_def split: if_splits)
  then have "\<exists>m. e = InvalidArgument m" if "interfaces_of_msg ms = Err e" for ms e
    using that
  proof (induction ms)
    case (Cons m ms)
    then show ?case
      by (cases "type_of_msg (m_config m)"; cases "interfaces_of_msg ms") auto
  qed simp
  then have "\<exists>m. e = InvalidArgument m" if "config_of_request req = Err e" for e
    using that by (cases "interfaces_of_msg (rq_interfaces req)") (auto simp: config_of_request_def)
  with False assms(1) show ?thesis
    by (cases "config_of_request req") (auto simp: configure_network_def split: sum.splits)
next
  case True
  then obtain cfg where cfg: "config_of_request req = Ok cfg" "validate_network ip cfg = Ok ()" by blast
  obtain sv fs1 where sv: "save_network ip js cfg fs = (sv, fs1)" by fastforce
  show ?thesis
  proof (cases sv)
    case (Inl e)
    with assms(1) cfg sv True show ?thesis by (auto simp: configure_network_def)
  next
    case (Inr u)
    with assms(1) cfg sv have r: "r = Ok (''Network configuration saved. Changes will apply on next boot.'', rq_auto_reboot req)"
      by (auto simp: configure_network_def)
    then show ?thesis using configure_reported [OF _ assms(2,3)] assms(1) by simp
  qed
qed

definition demo_request :: configure_request where
  "demo_request = \<lparr>rq_interfaces = [\<lparr>m_name = ''eth0'', m_config = Some (CDhcp False)\<rparr>],
     rq_dns = None, rq_routes = [], rq_auto_reboot = False\<rparr>"

definition demo_request_json :: "network_config json" where
  "demo_request_json = \<lparr>to_json = \<lambda>_. Ok ''{}'',
     from_json = \<lambda>_. Ok \<lparr>interfaces = [\<lparr>if_name = ''eth0'', if_config = Dhcp\<rparr>], dns = None, routes = []\<rparr>\<rparr>"

theorem configure_then_get_witness:
  "\<exists>msg fs'. configure_network demo_cidr demo_request_json demo_request
       \<lparr>fs_files = Map.empty, fs_dirs = {}, fs_read_err = Map.empty, fs_write_err = Map.empty, fs_mkdir_err = Map.empty\<rparr> =
       (Ok (msg, False), fs') \<and>
     get_network_config demo_cidr demo_request_json fs' =
       Ok \<lparr>rp_interfaces = [\<lparr>m_name = ''eth0'', m_config = Some (CDhcp True)\<rparr>], rp_dns = None, rp_routes = []\<rparr>"
proof -
  let ?fs = "\<lparr>fs_files = Map.empty, fs_dirs = {}, fs_read_err = Map.empty, fs_write_err = Map.empty, fs_mkdir_err = Map.empty\<rparr>"
  let ?cfg = "\<lparr>interfaces = [\<lparr>if_name = ''eth0'', if_config = Dhcp\<rparr>], dns = None, routes = []\<rparr>"
  have cfg: "config_of_request demo_request = Ok ?cfg"
    by (simp add: config_of_request_def demo_request_def)
  have ok: "\<forall>c. config_of_request demo_request = Ok c \<longrightarrow> json_ok demo_request_json c"
    by (simp add: cfg json_ok_def demo_request_json_def)
  have v: "validate_network demo_cidr ?cfg = Ok ()"
    by (simp add: validate_network_def validate_interface_def require_def)
  have "\<exists>fs'. configure_network demo_cidr demo_request_json demo_request ?fs =
      (Ok (''Network configuration saved. Changes will apply on next boot.'', rq_auto_reboot demo_request), fs')"
    by (simp add: configure_network_def cfg v save_network_def save_network_to_def demo_request_json_def
        create_dir_all_def fs_write_def split: option.splits)
  then obtain fs' where run: "configure_network demo_cidr demo_request_json demo_request ?fs =
      (Ok (''Network configuration saved. Changes will apply on next boot.'', rq_auto_reboot demo_request), fs')" ..
  from configure_then_get [OF run ok] run show ?thesis
    by (simp add: demo_request_def)
qed

text \<open>
  Parsing a line of \<open>ip -6 addr show\<close> panics exactly when the line is an address line
  whose last word, and no earlier one, is \<open>scope\<close>.
\<close>

lemma ipv6_line_panic:
  "parse_ipv6_address_line line = None \<longleftrightarrow>
     starts_with (trim line) ''inet6 '' \<and> 2 \<le> length (split_whitespace (trim line)) \<and>
     last (split_whitespace (trim line)) = ''scope'' \<and>
     ''scope'' \<notin> set (butlast (split_whitespace (trim line)))"
proof -
  let ?p = "split_whitespace (trim line)"
  have "(\<exists>i. position ''scope'' ?p = Some i \<and> length ?p < i + 2) \<longleftrightarrow>
      last ?p = ''scope'' \<and> ''scope'' \<notin> set (butlast ?p)" if "2 \<le> length ?p"
  proof
    assume "\<exists>i. position ''scope'' ?p = Some i \<and> length ?p < i + 2"
    then obtain i where i: "position ''scope'' ?p = Some i" "length ?p < i + 2" by blast
    then have "i = length ?p - 1" and "?p \<noteq> []"
      by (auto simp: position_Some)
    with i that show "last ?p = ''scope'' \<and> ''scope'' \<notin> set (butlast ?p)"
      by (auto simp: position_Some last_conv_nth in_set_conv_nth nth_butlast)
  next
    assume a: "last ?p = ''scope'' \<and> ''scope'' \<notin> set (butlast ?p)"
    have "?p \<noteq> []" using that by auto
    with a that have "position ''scope'' ?p = Some (length ?p - 1)"
      by (auto simp: position_Some last_conv_nth in_set_conv_nth nth_butlast)
    with that show "\<exists>i. position ''scope'' ?p = Some i \<and> length ?p < i + 2"
      by auto
  qed
  then show ?thesis
    by (auto simp: parse_ipv6_address_line_def Let_def split: option.splits prod.splits)
qed

end
