(* ===== verification/Bootstrap.thy ===== *)
theory Bootstrap
  imports Rbac
begin

text \<open>
  Joining a Kubernetes cluster: the bootstrap record and the kubeconfig of
  \<open>pkg/config/src/bootstrap.rs\<close>, and the two requests of \<open>cmd/keel-agent/src/lib.rs\<close> that
  write and report them. \<open>b64\<close> is the base64 encoder, \<open>js\<close> serde for the record, \<open>now\<close> the
  current time in RFC 3339 and \<open>host\<close> the result of \<open>hostname::get\<close>; the role check of the
  handlers is added where the service is modelled.
\<close>

section \<open>UTF-8\<close>

text \<open>
  \<open>String::from_utf8\<close>: for a leading byte the ranges its continuation bytes must lie in; a
  continuation that ends early or leaves its range gives the error length of \<open>Utf8Error\<close>.
\<close>

definition utf8_ranges :: "nat \<Rightarrow> (nat \<times> nat) list option" where
  "utf8_ranges b =
     (if b < 128 then Some []
      else if 194 \<le> b \<and> b \<le> 223 then Some [(128, 191)]
      else if b = 224 then Some [(160, 191), (128, 191)]
      else if b = 237 then Some [(128, 159), (128, 191)]
      else if 225 \<le> b \<and> b \<le> 239 then Some [(128, 191), (128, 191)]
      else if b = 240 then Some [(144, 191), (128, 191), (128, 191)]
      else if 241 \<le> b \<and> b \<le> 243 then Some [(128, 191), (128, 191), (128, 191)]
      else if b = 244 then Some [(128, 143), (128, 191), (128, 191)]
      else None)"

fun utf8_conts :: "nat \<Rightarrow> (nat \<times> nat) list \<Rightarrow> string \<Rightarrow> nat option + string" where
  "utf8_conts i [] s = Inr s"
| "utf8_conts i (r # rs) [] = Inl None"
| "utf8_conts i ((lo, hi) # rs) (c # cs) =
     (if lo \<le> of_char c \<and> of_char c \<le> hi then utf8_conts (Suc i) rs cs else Inl (Some i))"

lemma utf8_conts_length: "utf8_conts i rs s = Inr t \<Longrightarrow> length t \<le> length s"
  by (induction i rs s rule: utf8_conts.induct) (auto split: if_splits)

text \<open>The first argument is the index reached: \<open>valid_up_to\<close> of the error.\<close>

function utf8_scan :: "nat \<Rightarrow> string \<Rightarrow> string + unit" where
  "utf8_scan i [] = Ok ()"
| "utf8_scan i (c # cs) =
     (case utf8_ranges (of_char c) of
        None \<Rightarrow> Err (''invalid utf-8 sequence of 1 bytes from index '' @ show_nat i)
      | Some rs \<Rightarrow>
          (case utf8_conts 1 rs cs of
             Inl (Some n) \<Rightarrow> Err (''invalid utf-8 sequence of '' @ show_nat n @ '' bytes from index '' @ show_nat i)
           | Inl None \<Rightarrow> Err (''incomplete utf-8 byte sequence from index '' @ show_nat i)
           | Inr t \<Rightarrow> utf8_scan (Suc i + length rs) t))"
  by pat_completeness auto
termination
  by (relation "measure (length \<circ> snd)") (auto dest: utf8_conts_length)

definition from_utf8 :: "string \<Rightarrow> string + string" where
  "from_utf8 s = and_then (utf8_scan 0 s) (\<lambda>_. Ok s)"

lemma from_utf8_Ok: "from_utf8 s = Ok t \<Longrightarrow> t = s"
  by (auto simp: from_utf8_def and_then_eq_Ok)

section \<open>The bootstrap record\<close>

datatype bootstrap_error = BsIo string | BsJson string | InvalidConfig string | MissingField string

fun bootstrap_error_str :: "bootstrap_error \<Rightarrow> string" where
  "bootstrap_error_str (BsIo e) = ''IO error: '' @ e"
| "bootstrap_error_str (BsJson e) = ''JSON error: '' @ e"
| "bootstrap_error_str (InvalidConfig e) = ''Invalid configuration: '' @ e"
| "bootstrap_error_str (MissingField e) = ''Missing required field: '' @ e"

record bootstrap_config =
  bc_api_server :: string
  bc_node_name :: string
  bc_kubeconfig_path :: string
  bc_ca_cert_path :: string
  bc_bootstrapped_at :: string

definition new_bootstrap_config :: "string \<Rightarrow> string \<Rightarrow> string \<Rightarrow> string \<Rightarrow> string \<Rightarrow> bootstrap_config" where
  "new_bootstrap_config now api node kubeconfig ca =
     \<lparr>bc_api_server = api, bc_node_name = node, bc_kubeconfig_path = kubeconfig, bc_ca_cert_path = ca,
      bc_bootstrapped_at = now\<rparr>"

definition save_bootstrap ::
  "bootstrap_config json \<Rightarrow> bootstrap_config \<Rightarrow> string \<Rightarrow> fsys \<Rightarrow> (bootstrap_error + unit) \<times> fsys" where
  "save_bootstrap js c path fs =
     (case to_json js c of
        Inl e \<Rightarrow> (Err (BsJson e), fs)
      | Inr d \<Rightarrow> (case fs_write path d fs of (r, fs') \<Rightarrow> (map_err BsIo r, fs')))"

definition load_bootstrap :: "bootstrap_config json \<Rightarrow> string \<Rightarrow> fsys \<Rightarrow> bootstrap_error + bootstrap_config" where
  "load_bootstrap js path fs =
     and_then (map_err BsIo (read_to_string path fs)) (\<lambda>d. map_err BsJson (from_json js d))"

definition is_bootstrapped :: "string \<Rightarrow> fsys \<Rightarrow> bool" where
  "is_bootstrapped path fs = path_exists path fs"

section \<open>The kubeconfig\<close>

definition kubeconfig_text :: "string \<Rightarrow> string \<Rightarrow> string \<Rightarrow> string" where
  "kubeconfig_text ca_data api_server bootstrap_token =
     ''apiVersion: v1'' @ nl @
     ''kind: Config'' @ nl @
     ''clusters:'' @ nl @
     ''- cluster:'' @ nl @
     ''    certificate-authority-data: '' @ ca_data @ nl @
     ''    server: '' @ api_server @ nl @
     ''  name: kubernetes'' @ nl @
     ''contexts:'' @ nl @
     ''- context:'' @ nl @
     ''    cluster: kubernetes'' @ nl @
     ''    user: kubelet'' @ nl @
     ''  name: kubelet@kubernetes'' @ nl @
     ''current-context: kubelet@kubernetes'' @ nl @
     ''users:'' @ nl @
     ''- name: kubelet'' @ nl @
     ''  user:'' @ nl @
     ''    token: '' @ bootstrap_token @ nl"

definition generate_kubeconfig ::
  "(string \<Rightarrow> string) \<Rightarrow> string \<Rightarrow> string \<Rightarrow> string \<Rightarrow> string \<Rightarrow> bootstrap_error + string" where
  "generate_kubeconfig b64 api_server ca_cert_pem bootstrap_token node_name =
     (if api_server = [] then Err (MissingField ''api_server'')
      else if ca_cert_pem = [] then Err (MissingField ''ca_cert_pem'')
      else if bootstrap_token = [] then Err (MissingField ''bootstrap_token'')
      else if \<not> contains bootstrap_token ''.'' \<or> length (split_on CHR ''.'' bootstrap_token) \<noteq> 2
        then Err (InvalidConfig ''bootstrap_token must be in format <token-id>.<token-secret>'')
      else Ok (kubeconfig_text (b64 ca_cert_pem) api_server bootstrap_token))"

definition prepare_k8s_directories :: "string \<Rightarrow> fsys \<Rightarrow> (bootstrap_error + unit) \<times> fsys" where
  "prepare_k8s_directories base_path fs =
     (case create_dir_all (base_path @ ''/kubernetes'') fs of (r, fs') \<Rightarrow> (map_err BsIo r, fs'))"

section \<open>The bootstrap request\<close>

record bootstrap_request =
  br_api_server_endpoint :: string
  br_bootstrap_token :: string
  br_ca_cert_pem :: string
  br_kubeconfig :: string
  br_node_name :: string

definition ca_path :: string where "ca_path = ''/var/lib/keel/kubernetes/ca.crt''"
definition kubelet_kubeconfig :: string where "kubelet_kubeconfig = ''/var/lib/keel/kubernetes/kubelet.kubeconfig''"
definition bootstrap_state :: string where "bootstrap_state = ''/var/lib/keel/kubernetes/bootstrap.json''"
definition restart_signal :: string where "restart_signal = ''/run/keel/restart-kubelet''"

text \<open>The checks on the request that come before anything is written.\<close>

definition check_bootstrap_request :: "bootstrap_request \<Rightarrow> status + unit" where
  "check_bootstrap_request req =
     (if br_api_server_endpoint req = [] then Err (InvalidArgument ''api_server_endpoint is required'')
      else if br_bootstrap_token req = [] \<and> br_kubeconfig req = []
        then Err (InvalidArgument ''Either bootstrap_token or kubeconfig must be provided'')
      else if br_bootstrap_token req \<noteq> [] \<and> br_ca_cert_pem req = []
        then Err (InvalidArgument ''ca_cert_pem is required when using bootstrap_token'')
      else Ok ())"

definition node_name_of :: "string + string \<Rightarrow> bootstrap_request \<Rightarrow> status + string" where
  "node_name_of host req =
     (if br_node_name req \<noteq> [] then Ok (br_node_name req)
      else map_err (\<lambda>e. Internal (''Failed to get hostname: '' @ e)) host)"

definition kubeconfig_of :: "(string \<Rightarrow> string) \<Rightarrow> string \<Rightarrow> bootstrap_request \<Rightarrow> status + string" where
  "kubeconfig_of b64 node_name req =
     (if br_kubeconfig req \<noteq> []
      then map_err (\<lambda>e. InvalidArgument (''Invalid kubeconfig encoding: '' @ e)) (from_utf8 (br_kubeconfig req))
      else map_err (\<lambda>e. Internal (''Failed to generate kubeconfig: '' @ bootstrap_error_str e))
             (generate_kubeconfig b64 (br_api_server_endpoint req) (br_ca_cert_pem req) (br_bootstrap_token req) node_name))"

definition write_or :: "string \<Rightarrow> string \<Rightarrow> string \<Rightarrow> fsys \<Rightarrow> (status + unit) \<times> fsys" where
  "write_or msg path c fs =
     (case fs_write path c fs of (r, fs') \<Rightarrow> (map_err (\<lambda>e. Internal (msg @ e)) r, fs'))"

definition bootstrap_kubernetes ::
  "(string \<Rightarrow> string) \<Rightarrow> bootstrap_config json \<Rightarrow> string \<Rightarrow> string + string \<Rightarrow> bootstrap_request \<Rightarrow> fsys \<Rightarrow>
   (status + string \<times> string) \<times> fsys" where
  "bootstrap_kubernetes b64 js now host req fs =
     (case and_then (check_bootstrap_request req) (\<lambda>_. node_name_of host req) of
        Inl e \<Rightarrow> (Err e, fs)
      | Inr node_name \<Rightarrow>
     case prepare_k8s_directories ''/var/lib/keel'' fs of
        (Inl e, fs1) \<Rightarrow> (Err (Internal (''Failed to create directories: '' @ bootstrap_error_str e)), fs1)
      | (Inr _, fs1) \<Rightarrow>
     case (if br_ca_cert_pem req = [] then (Ok (), fs1)
           else write_or ''Failed to write CA certificate: '' ca_path (br_ca_cert_pem req) fs1) of
        (Inl e, fs2) \<Rightarrow> (Err e, fs2)
      | (Inr _, fs2) \<Rightarrow>
     case kubeconfig_of b64 node_name req of
        Inl e \<Rightarrow> (Err e, fs2)
      | Inr kubeconfig \<Rightarrow>
     case write_or ''Failed to write kubeconfig: '' kubelet_kubeconfig kubeconfig fs2 of
        (Inl e, fs3) \<Rightarrow> (Err e, fs3)
      | (Inr _, fs3) \<Rightarrow>
     case save_bootstrap js (new_bootstrap_config now (br_api_server_endpoint req) node_name kubelet_kubeconfig ca_path)
            bootstrap_state fs3 of
        (Inl e, fs4) \<Rightarrow> (Err (Internal (''Failed to save bootstrap state: '' @ bootstrap_error_str e)), fs4)
      | (Inr _, fs4) \<Rightarrow>
     case write_or ''Failed to create restart signal: '' restart_signal ''1'' (snd (create_dir_all ''/run/keel'' fs4)) of
        (Inl e, fs5) \<Rightarrow> (Err e, fs5)
      | (Inr _, fs5) \<Rightarrow>
          (Ok (''Bootstrap successful. Node '' @ [CHR 0x27] @ node_name @ [CHR 0x27] @
               '' configured to join cluster. Kubelet will restart.'', kubelet_kubeconfig), fs5))"

record bootstrap_status =
  st_is_bootstrapped :: bool
  st_api_server_endpoint :: string
  st_node_name :: string
  st_kubeconfig_path :: string
  st_bootstrapped_at :: string

definition get_bootstrap_status :: "bootstrap_config json \<Rightarrow> fsys \<Rightarrow> status + bootstrap_status" where
  "get_bootstrap_status js fs =
     (if \<not> is_bootstrapped bootstrap_state fs
      then Ok \<lparr>st_is_bootstrapped = False, st_api_server_endpoint = [], st_node_name = [],
               st_kubeconfig_path = [], st_bootstrapped_at = []\<rparr>
      else and_then
             (map_err (\<lambda>e. Internal (''Failed to load bootstrap configuration: '' @ bootstrap_error_str e))
               (load_bootstrap js bootstrap_state fs))
             (\<lambda>c. Ok \<lparr>st_is_bootstrapped = True, st_api_server_endpoint = bc_api_server c, st_node_name = bc_node_name c,
                      st_kubeconfig_path = bc_kubeconfig_path c, st_bootstrapped_at = bc_bootstrapped_at c\<rparr>))"

section \<open>Effect of a successful bootstrap\<close>

lemma write_or_Ok:
  "write_or msg p c fs = (Ok u, fs') \<longleftrightarrow>
     fs_write_err fs p = None \<and> fs' = fs\<lparr>fs_files := (fs_files fs)(p \<mapsto> c)\<rparr>"
  by (auto simp: write_or_def fs_write_def split: option.splits write_fault.splits)

lemma save_bootstrap_Ok:
  "save_bootstrap js c p fs = (Ok u, fs') \<longleftrightarrow>
     (\<exists>d. to_json js c = Ok d \<and> fs_write_err fs p = None \<and> fs' = fs\<lparr>fs_files := (fs_files fs)(p \<mapsto> d)\<rparr>)"
  by (auto simp: save_bootstrap_def fs_write_def split: option.splits write_fault.splits sum.splits)

lemma bootstrap_paths_distinct:
  "distinct [ca_path, kubelet_kubeconfig, bootstrap_state, restart_signal]"
  by (simp add: ca_path_def kubelet_kubeconfig_def bootstrap_state_def restart_signal_def)

text \<open>The files a successful request leaves, as one update of the table of files.\<close>

lemma bootstrap_kubernetes_Ok:
  assumes "bootstrap_kubernetes b64 js now host req fs = (Ok r, fs')"
  obtains node kc d where
    "check_bootstrap_request req = Ok ()" "node_name_of host req = Ok node" "kubeconfig_of b64 node req = Ok kc"
    "to_json js (new_bootstrap_config now (br_api_server_endpoint req) node kubelet_kubeconfig ca_path) = Ok d"
    "fs_files fs' = (if br_ca_cert_pem req = [] then fs_files fs else (fs_files fs)(ca_path \<mapsto> br_ca_cert_pem req))
       (kubelet_kubeconfig \<mapsto> kc, bootstrap_state \<mapsto> d, restart_signal \<mapsto> ''1'')"
    "fs_read_err fs' = fs_read_err fs"
    "snd r = kubelet_kubeconfig"
proof -
  obtain node where n: "check_bootstrap_request req = Ok ()" "node_name_of host req = Ok node"
    using assms by (auto simp: bootstrap_kubernetes_def and_then_eq_Ok split: sum.splits)
  obtain r1 fs1 where p: "prepare_k8s_directories ''/var/lib/keel'' fs = (r1, fs1)" by force
  obtain r2 fs2 where c: "(if br_ca_cert_pem req = [] then (Ok (), fs1)
     else write_or ''Failed to write CA certificate: '' ca_path (br_ca_cert_pem req) fs1) = (r2, fs2)" by force
  have f1: "fs_files fs1 = fs_files fs" "fs_read_err fs1 = fs_read_err fs"
    using p create_dir_all_frameD [of "''/var/lib/keel'' @ ''/kubernetes''" fs]
    by (auto simp: prepare_k8s_directories_def split: prod.splits)
  note step = assms [unfolded bootstrap_kubernetes_def n p c and_then.simps sum.case prod.case]
  from step obtain kc where r1: "r1 = Ok ()" and r2: "r2 = Ok ()" and k: "kubeconfig_of b64 node req = Ok kc"
    by (auto split: sum.splits)
  obtain r3 fs3 where w3: "write_or ''Failed to write kubeconfig: '' kubelet_kubeconfig kc fs2 = (r3, fs3)" by force
  obtain r4 fs4 where w4: "save_bootstrap js (new_bootstrap_config now (br_api_server_endpoint req) node kubelet_kubeconfig ca_path)
            bootstrap_state fs3 = (r4, fs4)" by force
  obtain r5 fs5 where w5: "write_or ''Failed to create restart signal: '' restart_signal ''1'' (snd (create_dir_all ''/run/keel'' fs4)) = (r5, fs5)"
    by force
  have ok: "r3 = Ok ()" "r4 = Ok ()" "r5 = Ok ()" "fs' = fs5" "snd r = kubelet_kubeconfig"
    using step unfolding r1 r2 k w3 w4 w5 by (auto simp: w3 w4 w5 split: sum.splits)
  obtain d where d: "to_json js (new_bootstrap_config now (br_api_server_endpoint req) node kubelet_kubeconfig ca_path) = Ok d"
    "fs4 = fs3\<lparr>fs_files := (fs_files fs3)(bootstrap_state \<mapsto> d)\<rparr>"
    using w4 ok by (auto simp: save_bootstrap_Ok)
  have f2: "fs_files fs2 = (if br_ca_cert_pem req = [] then fs_files fs else (fs_files fs)(ca_path \<mapsto> br_ca_cert_pem req))"
    "fs_read_err fs2 = fs_read_err fs"
    using c r2 f1 by (auto simp: write_or_Ok split: if_splits)
  have "fs_files fs' = (if br_ca_cert_pem req = [] then fs_files fs else (fs_files fs)(ca_path \<mapsto> br_ca_cert_pem req))
       (kubelet_kubeconfig \<mapsto> kc, bootstrap_state \<mapsto> d, restart_signal \<mapsto> ''1'')"
    "fs_read_err fs' = fs_read_err fs"
    using w3 w5 ok d(2) f2 by (simp_all add: write_or_Ok)
  then show ?thesis using that n k d(1) ok(5) by blast
qed

text \<open>
  A request that is refused by the checks on its arguments leaves the node as it was.
\<close>

lemma bootstrap_refused:
  "check_bootstrap_request req = Err e \<Longrightarrow> bootstrap_kubernetes b64 js now host req fs = (Err e, fs)"
  by (simp add: bootstrap_kubernetes_def)

lemma load_bootstrap_saved:
  assumes "json_ok js c" "to_json js c = Ok d" "fs_files fs p = Some d" "fs_read_err fs p = None"
  shows "load_bootstrap js p fs = Ok c"
  using assms by (simp add: load_bootstrap_def read_to_string_def json_ok_def)

definition demo_bootstrap :: bootstrap_request where
  "demo_bootstrap = \<lparr>br_api_server_endpoint = ''https://k8s:6443'', br_bootstrap_token = ''abcdef.0123456789abcdef'',
     br_ca_cert_pem = ''PEM'', br_kubeconfig = [], br_node_name = ''node-01''\<rparr>"

definition demo_record :: bootstrap_config where
  "demo_record = new_bootstrap_config ''2025-01-01T00:00:00+00:00'' ''https://k8s:6443'' ''node-01'' kubelet_kubeconfig ca_path"

definition demo_record_json :: "bootstrap_config json" where
  "demo_record_json = \<lparr>to_json = (\<lambda>c. Ok ''{}''), from_json = (\<lambda>d. Ok demo_record)\<rparr>"

definition blank_fs :: fsys where
  "blank_fs = \<lparr>fs_files = Map.empty, fs_dirs = {}, fs_read_err = Map.empty, fs_write_err = Map.empty, fs_mkdir_err = Map.empty\<rparr>"

text \<open>
  C30. A successful bootstrap request writes the kubeconfig (the one given, or one generated
  from API server, CA and token), the CA certificate when there is one, the bootstrap
  record and the restart signal for init, and no other file; the status request then
  reports the API server, the node name, the kubeconfig and the time of the request.
\<close>

theorem bootstrap_then_status:
  assumes run: "bootstrap_kubernetes b64 js now host req fs = (Ok r, fs')"
    and node: "node_name_of host req = Ok node"
    and js: "json_ok js (new_bootstrap_config now (br_api_server_endpoint req) node kubelet_kubeconfig ca_path)"
    and rd: "fs_read_err fs bootstrap_state = None"
  shows "get_bootstrap_status js fs' =
           Ok \<lparr>st_is_bootstrapped = True, st_api_server_endpoint = br_api_server_endpoint req, st_node_name = node,
               st_kubeconfig_path = kubelet_kubeconfig, st_bootstrapped_at = now\<rparr> \<and>
         (\<exists>kc. kubeconfig_of b64 node req = Ok kc \<and> fs_files fs' kubelet_kubeconfig = Some kc) \<and>
         (br_ca_cert_pem req \<noteq> [] \<longrightarrow> fs_files fs' ca_path = Some (br_ca_cert_pem req)) \<and>
         fs_files fs' restart_signal = Some ''1'' \<and>
         (\<forall>p. p \<notin> {ca_path, kubelet_kubeconfig, bootstrap_state, restart_signal} \<longrightarrow> fs_files fs' p = fs_files fs p)"
proof -
  from run obtain kc d where k: "kubeconfig_of b64 node req = Ok kc"
    and d: "to_json js (new_bootstrap_config now (br_api_server_endpoint req) node kubelet_kubeconfig ca_path) = Ok d"
    and f: "fs_files fs' = (if br_ca_cert_pem req = [] then fs_files fs else (fs_files fs)(ca_path \<mapsto> br_ca_cert_pem req))
       (kubelet_kubeconfig \<mapsto> kc, bootstrap_state \<mapsto> d, restart_signal \<mapsto> ''1'')"
    and r: "fs_read_err fs' = fs_read_err fs"
    by (rule bootstrap_kubernetes_Ok) (use node in simp)
  have s: "fs_files fs' bootstrap_state = Some d"
    using f bootstrap_paths_distinct by simp
  then have "load_bootstrap js bootstrap_state fs' =
      Ok (new_bootstrap_config now (br_api_server_endpoint req) node kubelet_kubeconfig ca_path)"
    using js d r rd by (simp add: load_bootstrap_saved)
  then have "get_bootstrap_status js fs' =
      Ok \<lparr>st_is_bootstrapped = True, st_api_server_endpoint = br_api_server_endpoint req, st_node_name = node,
               st_kubeconfig_path = kubelet_kubeconfig, st_bootstrapped_at = now\<rparr>"
    using s by (simp add: get_bootstrap_status_def is_bootstrapped_def path_exists_def new_bootstrap_config_def)
  then show ?thesis
    using f k bootstrap_paths_distinct by simp
qed

theorem bootstrap_then_status_witness:
  "\<exists>r fs'. bootstrap_kubernetes id demo_record_json ''2025-01-01T00:00:00+00:00'' (Err []) demo_bootstrap blank_fs = (Ok r, fs') \<and>
     get_bootstrap_status demo_record_json fs' =
           Ok \<lparr>st_is_bootstrapped = True, st_api_server_endpoint = ''https://k8s:6443'', st_node_name = ''node-01'',
               st_kubeconfig_path = kubelet_kubeconfig, st_bootstrapped_at = ''2025-01-01T00:00:00+00:00''\<rparr>"
proof -
  let ?now = "''2025-01-01T00:00:00+00:00''"
  obtain r fs' where run: "bootstrap_kubernetes id demo_record_json ?now (Err []) demo_bootstrap blank_fs = (Ok r, fs')"
    by (simp add: bootstrap_kubernetes_def check_bootstrap_request_def node_name_of_def kubeconfig_of_def demo_bootstrap_def
      generate_kubeconfig_def starts_with_def prepare_k8s_directories_def create_dir_all_def write_or_def fs_write_def
      save_bootstrap_def blank_fs_def demo_record_json_def)
  have j: "json_ok demo_record_json (new_bootstrap_config ?now (br_api_server_endpoint demo_bootstrap) ''node-01'' kubelet_kubeconfig ca_path)"
    by (simp add: json_ok_def demo_record_json_def demo_record_def demo_bootstrap_def)
  show ?thesis
    using run bootstrap_then_status [OF run, of "''node-01''"] j
    by (simp add: node_name_of_def demo_bootstrap_def blank_fs_def)
qed

end
