(* ===== verification/Certs.thy ===== *)
theory Certs
  imports Bootstrap
begin

text \<open>
  Certificates: the helpers of \<open>pkg/crypto/src/lib.rs\<close>, obtaining an operational
  certificate from the cluster (\<open>k8s_csr.rs\<close>), its initialisation (\<open>main.rs\<close>), renewal
  (\<open>cert_renewal.rs\<close>) with the renewal metrics (\<open>cert_metrics.rs\<close>), and the TLS configuration
  of the server (\<open>mtls.rs\<close>). The PEM and X.509 parsers, the key generator and the Kubernetes
  API are parameters; the API acts on a cluster state of type \<open>'c\<close>.
\<close>

section \<open>Certificate helpers\<close>

datatype crypto_error = CryptoIo string | CertError string

fun crypto_error_str :: "crypto_error \<Rightarrow> string" where
  "crypto_error_str (CryptoIo e) = ''IO error: '' @ e"
| "crypto_error_str (CertError e) = ''Certificate error: '' @ e"

text \<open>
  \<open>xp_pem\<close> decodes a PEM block to DER, \<open>xp_not_after\<close> reads the end of validity in seconds
  since the epoch, \<open>xp_in_range\<close> says whether \<open>chrono\<close> can represent such a time; the others
  read certificates and the first private key of a PEM file.
\<close>

record ('der, 'key) x509 =
  xp_pem :: "string \<Rightarrow> string + 'der"
  xp_not_after :: "'der \<Rightarrow> string + int"
  xp_in_range :: "int \<Rightarrow> bool"
  xp_certs :: "string \<Rightarrow> string + 'der list"
  xp_key :: "string \<Rightarrow> string + 'key option"

definition parse_cert_expiry :: "('der, 'key) x509 \<Rightarrow> string \<Rightarrow> string + timestamp" where
  "parse_cert_expiry X cert_pem =
     and_then (map_err (\<lambda>e. ''Failed to parse PEM: '' @ e) (xp_pem X cert_pem)) (\<lambda>der.
     and_then (map_err (\<lambda>e. ''Failed to parse X.509 certificate: '' @ e) (xp_not_after X der)) (\<lambda>t.
     if xp_in_range X t then Ok (seconds t) else Err ''Invalid timestamp in certificate''))"

definition check_cert_needs_renewal ::
  "('der, 'key) x509 \<Rightarrow> timestamp \<Rightarrow> string \<Rightarrow> u32 \<Rightarrow> fsys \<Rightarrow> string + bool" where
  "check_cert_needs_renewal X now cert_path renewal_threshold_days fs =
     and_then (map_err (\<lambda>e. ''Failed to read certificate: '' @ e) (read_to_string cert_path fs)) (\<lambda>cert_pem.
     and_then (parse_cert_expiry X cert_pem) (\<lambda>expiry.
     Ok (expiry - days (uint renewal_threshold_days) \<le> now)))"

definition load_certs :: "('der, 'key) x509 \<Rightarrow> string \<Rightarrow> fsys \<Rightarrow> crypto_error + 'der list" where
  "load_certs X path fs =
     and_then (map_err CryptoIo (read_to_string path fs)) (\<lambda>s.
     map_err (\<lambda>e. CertError (''Failed to parse certificates: '' @ e)) (xp_certs X s))"

definition load_private_key :: "('der, 'key) x509 \<Rightarrow> string \<Rightarrow> fsys \<Rightarrow> crypto_error + 'key" where
  "load_private_key X path fs =
     and_then (map_err CryptoIo (read_to_string path fs)) (\<lambda>s.
     and_then (map_err (\<lambda>e. CertError (''Failed to parse private key: '' @ e)) (xp_key X s)) (\<lambda>k.
     case k of None \<Rightarrow> Err (CertError ''No private key found'') | Some key \<Rightarrow> Ok key))"

text \<open>\<open>rcgen\<close> takes the subject names and returns certificate and key; the hours are not used.\<close>

type_synonym keygen = "string list \<Rightarrow> string + (string \<times> string)"

definition generate_self_signed :: "keygen \<Rightarrow> crypto_error + (string \<times> string)" where
  "generate_self_signed rcgen = map_err CertError (rcgen [''localhost''])"

definition generate_bootstrap_certificate :: "keygen \<Rightarrow> u32 \<Rightarrow> crypto_error + (string \<times> string)" where
  "generate_bootstrap_certificate rcgen validity_hours = map_err CertError (rcgen [''keel-bootstrap''])"

definition validate_bootstrap_cert :: "string \<Rightarrow> crypto_error + unit" where
  "validate_bootstrap_cert cert_pem =
     (if contains cert_pem ''BEGIN CERTIFICATE'' then Ok () else Err (CertError ''Invalid PEM format''))"

section \<open>Signing requests\<close>

record csr =
  csr_name :: string
  csr_labels :: "(string \<times> string) list"
  csr_request :: string
  csr_signer :: string
  csr_usages :: "string list"

record csr_condition =
  cond_type :: string
  cond_status :: string
  cond_reason :: string
  cond_message :: string

text \<open>
  The calls of the Kubernetes API that are used. \<open>kb_get\<close> is what the cluster answers
  after the two seconds of a polling round, with the certificate of the request if it
  has been issued.
\<close>

record 'c kube =
  kb_connect :: "'c \<Rightarrow> string + unit"
  kb_create :: "csr \<Rightarrow> 'c \<Rightarrow> (string + unit) \<times> 'c"
  kb_approve :: "string \<Rightarrow> csr_condition \<Rightarrow> 'c \<Rightarrow> (string + unit) \<times> 'c"
  kb_get :: "string \<Rightarrow> 'c \<Rightarrow> (string + string option) \<times> 'c"
  kb_list :: "string \<Rightarrow> 'c \<Rightarrow> string + string option list"
  kb_delete :: "string \<Rightarrow> 'c \<Rightarrow> (string + unit) \<times> 'c"

definition CSR_SIGNER :: string where
  "CSR_SIGNER = ''kubernetes.io/kube-apiserver-client''"

definition CSR_USAGES :: "string list" where
  "CSR_USAGES = [''client auth'']"

record 'c cert_env =
  ce_kube :: "'c kube"
  ce_keygen :: keygen
  ce_b64 :: "string \<Rightarrow> string"
  ce_node_name :: "string option"
  ce_hostname :: "string option"

definition generate_csr_and_key :: "'c cert_env \<Rightarrow> string + (string \<times> string)" where
  "generate_csr_and_key E =
     map_err crypto_error_str (generate_bootstrap_certificate (ce_keygen E) (365 * 24))"

definition submit_csr :: "'c cert_env \<Rightarrow> string \<Rightarrow> string \<Rightarrow> string \<Rightarrow> 'c \<Rightarrow> (string + unit) \<times> 'c" where
  "submit_csr E node_name name csr_pem =
     kb_create (ce_kube E)
       \<lparr>csr_name = name, csr_labels = [(''app'', ''keel-agent''), (''node'', node_name)],
        csr_request = ce_b64 E csr_pem, csr_signer = CSR_SIGNER, csr_usages = CSR_USAGES\<rparr>"

definition approve_csr :: "'c cert_env \<Rightarrow> string \<Rightarrow> 'c \<Rightarrow> (string + unit) \<times> 'c" where
  "approve_csr E name =
     kb_approve (ce_kube E) name
       \<lparr>cond_type = ''Approved'', cond_status = ''True'', cond_reason = ''AutoApproved'',
        cond_message = ''Auto-approved by keel-agent''\<rparr>"

text \<open>The first argument is the number of polling rounds left.\<close>

fun poll_certificate :: "nat \<Rightarrow> 'c cert_env \<Rightarrow> string \<Rightarrow> 'c \<Rightarrow> (string + string) \<times> 'c" where
  "poll_certificate 0 E name c = (Err ''Timeout waiting for certificate to be signed'', c)"
| "poll_certificate (Suc n) E name c =
     (case kb_get (ce_kube E) name c of
        (Inl e, c1) \<Rightarrow> (Err e, c1)
      | (Inr (Some bytes), c1) \<Rightarrow> (from_utf8 bytes, c1)
      | (Inr None, c1) \<Rightarrow> poll_certificate n E name c1)"

definition wait_for_certificate :: "'c cert_env \<Rightarrow> string \<Rightarrow> 'c \<Rightarrow> (string + string) \<times> 'c" where
  "wait_for_certificate E name c = poll_certificate 30 E name c"

definition request_certificate :: "'c cert_env \<Rightarrow> string \<Rightarrow> 'c \<Rightarrow> (string + (string \<times> string)) \<times> 'c" where
  "request_certificate E node_name c =
     (case generate_csr_and_key E of
        Inl e \<Rightarrow> (Err e, c)
      | Inr (cert_pem, key_pem) \<Rightarrow>
          (let name = ''keel-agent-'' @ node_name in
           case submit_csr E node_name name cert_pem c of
             (Inl e, c1) \<Rightarrow> (Err e, c1)
           | (Inr _, c1) \<Rightarrow>
               (case wait_for_certificate E name (snd (approve_csr E name c1)) of
                  (Inl e, c2) \<Rightarrow> (Err e, c2)
                | (Inr signed_cert, c2) \<Rightarrow> (Ok (signed_cert, key_pem), c2))))"

fun delete_all :: "'c cert_env \<Rightarrow> string option list \<Rightarrow> 'c \<Rightarrow> 'c" where
  "delete_all E [] c = c"
| "delete_all E (n # ns) c =
     delete_all E ns (case n of None \<Rightarrow> c | Some name \<Rightarrow> snd (kb_delete (ce_kube E) name c))"

definition cleanup_old_csrs :: "'c cert_env \<Rightarrow> string \<Rightarrow> 'c \<Rightarrow> (string + unit) \<times> 'c" where
  "cleanup_old_csrs E node_name c =
     (case kb_list (ce_kube E) (''node='' @ node_name) c of
        Inl e \<Rightarrow> (Err e, c)
      | Inr names \<Rightarrow> (Ok (), delete_all E names c))"

section \<open>Operational certificates\<close>

definition service_account_token :: string where
  "service_account_token = ''/var/run/secrets/kubernetes.io/serviceaccount/token''"

definition operational_cert :: string where "operational_cert = ''/var/lib/keel/crypto/operational.pem''"
definition operational_key :: string where "operational_key = ''/var/lib/keel/crypto/operational.key''"

definition cert_node_name :: "'c cert_env \<Rightarrow> string option" where
  "cert_node_name E = (case ce_node_name E of Some n \<Rightarrow> Some n | None \<Rightarrow> ce_hostname E)"

text \<open>\<open>K8sCsrManager::new\<close> followed by \<open>request_certificate\<close>: the two error prefixes differ by caller.\<close>

definition obtain_certificate ::
  "string \<Rightarrow> string \<Rightarrow> 'c cert_env \<Rightarrow> string \<Rightarrow> 'c \<Rightarrow> (string + (string \<times> string)) \<times> 'c" where
  "obtain_certificate init_msg request_msg E node_name c =
     (case kb_connect (ce_kube E) c of
        Inl e \<Rightarrow> (Err (init_msg @ e), c)
      | Inr _ \<Rightarrow>
          (case request_certificate E node_name c of
             (r, c1) \<Rightarrow> (map_err (\<lambda>e. request_msg @ e) r, c1)))"

definition backup_pair :: "string \<Rightarrow> string \<Rightarrow> fsys \<Rightarrow> fsys" where
  "backup_pair cert_path key_path fs =
     (if path_exists cert_path fs
      then snd (fs_copy key_path (key_path @ ''.backup'') (snd (fs_copy cert_path (cert_path @ ''.backup'') fs)))
      else fs)"

definition write_pair :: "string \<Rightarrow> string \<Rightarrow> string \<Rightarrow> string \<Rightarrow> fsys \<Rightarrow> (string + unit) \<times> fsys" where
  "write_pair cert_path key_path cert_pem key_pem fs =
     (case fs_write cert_path cert_pem fs of
        (Inl e, fs1) \<Rightarrow> (Err (''Failed to write new certificate: '' @ e), fs1)
      | (Inr _, fs1) \<Rightarrow>
          (case fs_write key_path key_pem fs1 of
             (Inl e, fs2) \<Rightarrow> (Err (''Failed to write new key: '' @ e), fs2)
           | (Inr _, fs2) \<Rightarrow> (Ok (), fs2)))"

definition init_k8s_certificates :: "'c cert_env \<Rightarrow> fsys \<Rightarrow> 'c \<Rightarrow> (string \<times> string) option \<times> fsys \<times> 'c" where
  "init_k8s_certificates E fs c =
     (if \<not> path_exists service_account_token fs then (None, fs, c)
      else case cert_node_name E of
        None \<Rightarrow> (None, fs, c)
      | Some node_name \<Rightarrow>
          if path_exists operational_cert fs \<and> path_exists operational_key fs
          then (Some (operational_cert, operational_key), fs, c)
          else
            (case obtain_certificate [] [] E node_name c of
               (Inl e, c1) \<Rightarrow> (None, fs, c1)
             | (Inr (cert_pem, key_pem), c1) \<Rightarrow>
                 (case create_dir_all ''/var/lib/keel/crypto'' fs of
                    (Inl e, fs1) \<Rightarrow> (None, fs1, c1)
                  | (Inr _, fs1) \<Rightarrow>
                      (case write_pair operational_cert operational_key cert_pem key_pem fs1 of
                         (Inl e, fs2) \<Rightarrow> (None, fs2, c1)
                       | (Inr _, fs2) \<Rightarrow> (Some (operational_cert, operational_key), fs2, c1)))))"

section \<open>Renewal\<close>

record cert_renewal_config =
  rc_operational_cert_path :: string
  rc_operational_key_path :: string
  rc_renewal_threshold_days :: u32
  rc_check_interval_hours :: u64

definition default_renewal_config :: cert_renewal_config where
  "default_renewal_config =
     \<lparr>rc_operational_cert_path = operational_cert, rc_operational_key_path = operational_key,
      rc_renewal_threshold_days = 30, rc_check_interval_hours = 24\<rparr>"

record cert_renewal_manager =
  rm_cert_path :: string
  rm_key_path :: string
  rm_threshold_days :: u32
  rm_check_interval :: u64

definition new_renewal_manager :: "cert_renewal_config \<Rightarrow> cert_renewal_manager" where
  "new_renewal_manager cfg =
     \<lparr>rm_cert_path = rc_operational_cert_path cfg, rm_key_path = rc_operational_key_path cfg,
      rm_threshold_days = rc_renewal_threshold_days cfg, rm_check_interval = rc_check_interval_hours cfg * 3600\<rparr>"

text \<open>The metrics: the expiry gauge with the days left, and the two counters.\<close>

record cert_metrics =
  cm_state :: "(int \<times> int) option"
  cm_successes :: "string list"
  cm_errors :: "(string \<times> string) list"

definition new_cert_metrics :: cert_metrics where
  "new_cert_metrics = \<lparr>cm_state = None, cm_successes = [], cm_errors = []\<rparr>"

text \<open>What the callbacks of the two gauges report when the metrics are collected.\<close>

definition cert_gauges :: "cert_metrics \<Rightarrow> (string \<times> int) list" where
  "cert_gauges m =
     (case cm_state m of
        Some (expiry_timestamp, days_remaining) \<Rightarrow>
          [(''keel.certificate.expiry_timestamp'', expiry_timestamp), (''keel.certificate.days_remaining'', days_remaining)]
      | None \<Rightarrow> [])"

definition div_trunc :: "int \<Rightarrow> int \<Rightarrow> int" where
  "div_trunc a b = sgn a * sgn b * (\<bar>a\<bar> div \<bar>b\<bar>)"

definition update_cert_expiry ::
  "('der, 'key) x509 \<Rightarrow> timestamp \<Rightarrow> string \<Rightarrow> fsys \<Rightarrow> cert_metrics \<Rightarrow> cert_metrics" where
  "update_cert_expiry X now cert_path fs m =
     (case and_then (read_to_string cert_path fs) (parse_cert_expiry X) of
        Inr expiry \<Rightarrow>
          (let expiry_timestamp = expiry div seconds 1; now_s = now div seconds 1 in
           m\<lparr>cm_state := Some (expiry_timestamp, div_trunc (expiry_timestamp - now_s) 86400)\<rparr>)
      | Inl e \<Rightarrow> m)"

definition record_renewal_success :: "string \<Rightarrow> cert_metrics \<Rightarrow> cert_metrics" where
  "record_renewal_success t m = m\<lparr>cm_successes := cm_successes m @ [t]\<rparr>"

definition record_renewal_error :: "string \<Rightarrow> string \<Rightarrow> cert_metrics \<Rightarrow> cert_metrics" where
  "record_renewal_error t e m = m\<lparr>cm_errors := cm_errors m @ [(t, e)]\<rparr>"

text \<open>
  A certificate that cannot be read leaves the gauges at what was last read. One that can be
  read is reported with the days left rounded towards zero, so that none are left from a
  day before its expiry to a day after it.
\<close>

lemma div_trunc_zero: "0 < b \<Longrightarrow> div_trunc a b = 0 \<longleftrightarrow> \<bar>a\<bar> < b"
proof -
  assume b: "0 < b"
  then have "\<bar>a\<bar> div b = 0 \<longleftrightarrow> \<bar>a\<bar> < b" by (auto simp: zdiv_eq_0_iff)
  then show ?thesis using b by (cases "a = 0") (simp_all add: div_trunc_def sgn_if)
qed

lemma cert_gauges_unreadable:
  "and_then (read_to_string p fs) (parse_cert_expiry X) = Err e \<Longrightarrow>
     cert_gauges (update_cert_expiry X now p fs m) = cert_gauges m"
  by (simp add: update_cert_expiry_def)

lemma cert_gauges_zero_days:
  assumes "and_then (read_to_string p fs) (parse_cert_expiry X) = Ok expiry"
  shows "(''keel.certificate.days_remaining'', 0) \<in> set (cert_gauges (update_cert_expiry X now p fs m)) \<longleftrightarrow>
    \<bar>expiry div seconds 1 - now div seconds 1\<bar> < 86400"
  using assms by (auto simp: update_cert_expiry_def cert_gauges_def Let_def div_trunc_zero)

definition trigger_renewal ::
  "'c cert_env \<Rightarrow> cert_renewal_manager \<Rightarrow> fsys \<Rightarrow> 'c \<Rightarrow> (string + unit) \<times> fsys \<times> 'c" where
  "trigger_renewal E mgr fs c =
     (if \<not> path_exists service_account_token fs
      then (Err ''Not running in Kubernetes - auto-renewal only available in K8s clusters'', fs, c)
      else case cert_node_name E of
        None \<Rightarrow> (Err ''Failed to determine node name'', fs, c)
      | Some node_name \<Rightarrow>
          (case obtain_certificate ''Failed to initialize CSR manager: '' ''Failed to request certificate: '' E node_name c of
             (Inl e, c1) \<Rightarrow> (Err e, fs, c1)
           | (Inr (cert_pem, key_pem), c1) \<Rightarrow>
               (case write_pair (rm_cert_path mgr) (rm_key_path mgr) cert_pem key_pem
                       (backup_pair (rm_cert_path mgr) (rm_key_path mgr) fs) of
                  (r, fs1) \<Rightarrow> (r, fs1, c1))))"

text \<open>
  One round of the renewal loop; \<open>t1\<close> and \<open>t2\<close> are the clock readings of the check and of
  the metrics.
\<close>

definition check_and_renew ::
  "('der, 'key) x509 \<Rightarrow> 'c cert_env \<Rightarrow> timestamp \<Rightarrow> timestamp \<Rightarrow> cert_renewal_manager \<Rightarrow> fsys \<Rightarrow> 'c \<Rightarrow> cert_metrics \<Rightarrow>
   (string + unit) \<times> fsys \<times> 'c \<times> cert_metrics" where
  "check_and_renew X E t1 t2 mgr fs c m =
     (if \<not> path_exists (rm_cert_path mgr) fs then (Ok (), fs, c, m)
      else case check_cert_needs_renewal X t1 (rm_cert_path mgr) (rm_threshold_days mgr) fs of
        Inl e \<Rightarrow> (Err e, fs, c, m)
      | Inr False \<Rightarrow> (Ok (), fs, c, update_cert_expiry X t2 (rm_cert_path mgr) fs m)
      | Inr True \<Rightarrow>
          (case and_then (map_err (\<lambda>e. ''Failed to read cert: '' @ e) (read_to_string (rm_cert_path mgr) fs))
                  (parse_cert_expiry X) of
             Inl e \<Rightarrow> (Err e, fs, c, m)
           | Inr expiry \<Rightarrow>
               (case trigger_renewal E mgr fs c of
                  (Inr _, fs1, c1) \<Rightarrow>
                    (Ok (), fs1, c1,
                     update_cert_expiry X t2 (rm_cert_path mgr) fs1 (record_renewal_success ''operational'' m))
                | (Inl e, fs1, c1) \<Rightarrow> (Err e, fs1, c1, record_renewal_error ''operational'' e m))))"

section \<open>The TLS configuration of the server\<close>

record tls_manager =
  tm_server_cert_path :: string
  tm_server_key_path :: string
  tm_bootstrap_ca_dir :: string
  tm_operational_ca_path :: "string option"

record server_tls_config =
  tls_identity :: "string \<times> string"
  tls_client_ca :: "string option"
  tls_client_auth_optional :: bool

definition can_configure :: "tls_manager \<Rightarrow> fsys \<Rightarrow> bool" where
  "can_configure t fs \<longleftrightarrow> path_exists (tm_server_cert_path t) fs \<and> path_exists (tm_server_key_path t) fs"

text \<open>\<open>dir\<close> is the listing of the directory of bootstrap certificates as full paths.\<close>

definition build_tls_config ::
  "(string \<Rightarrow> fsys \<Rightarrow> string + string list) \<Rightarrow> tls_manager \<Rightarrow> fsys \<Rightarrow> string + server_tls_config" where
  "build_tls_config dir t fs =
     and_then (read_to_string (tm_server_cert_path t) fs) (\<lambda>cert_pem.
     and_then (read_to_string (tm_server_key_path t) fs) (\<lambda>key_pem.
     and_then (if path_exists (tm_bootstrap_ca_dir t) fs then dir (tm_bootstrap_ca_dir t) fs else Ok []) (\<lambda>entries.
       let bootstrap = List.map_filter (\<lambda>p. if path_extension p = Some ''pem'' then result_ok (read_to_string p fs) else None) entries;
           operational = (case tm_operational_ca_path t of
                            None \<Rightarrow> []
                          | Some op_ca \<Rightarrow>
                              if path_exists op_ca fs
                              then (case read_to_string op_ca fs of Inr ca \<Rightarrow> [ca] | Inl e \<Rightarrow> []) else []);
           combined_ca = join nl (bootstrap @ operational)
       in Ok (if combined_ca \<noteq> []
              then \<lparr>tls_identity = (cert_pem, key_pem), tls_client_ca = Some combined_ca, tls_client_auth_optional = True\<rparr>
              else \<lparr>tls_identity = (cert_pem, key_pem), tls_client_ca = None, tls_client_auth_optional = False\<rparr>))))"

section \<open>Replacing the pair of certificate and key\<close>

lemma fs_copy_frame:
  "fs_read_err (snd (fs_copy p q fs)) = fs_read_err fs" "fs_write_err (snd (fs_copy p q fs)) = fs_write_err fs"
  "r \<noteq> q \<Longrightarrow> fs_files (snd (fs_copy p q fs)) r = fs_files fs r"
  by (auto simp: fs_copy_def fs_write_files_other split: sum.splits)

lemma fs_copy_effect:
  "fs_read_err fs p = None \<Longrightarrow> fs_write_err fs q = None \<Longrightarrow> fs_files fs p = Some c \<Longrightarrow>
     fs_files (snd (fs_copy p q fs)) q = Some c"
  by (simp add: fs_copy_def read_to_string_def fs_write_def)

definition pair_paths :: "string \<Rightarrow> string \<Rightarrow> string list" where
  "pair_paths cert key = [cert, key, cert @ ''.backup'', key @ ''.backup'']"

lemma backup_pair_frame:
  assumes "distinct (pair_paths cert key)"
  shows "fs_write_err (backup_pair cert key fs) = fs_write_err fs"
    "r \<notin> {cert @ ''.backup'', key @ ''.backup''} \<Longrightarrow> fs_files (backup_pair cert key fs) r = fs_files fs r"
  by (auto simp: backup_pair_def fs_copy_frame)

lemma backup_pair_effect:
  assumes d: "distinct (pair_paths cert key)" and old: "fs_files fs cert = Some oldc" "fs_files fs key = Some oldk"
    and rd: "fs_read_err fs cert = None" "fs_read_err fs key = None"
    and wr: "fs_write_err fs (cert @ ''.backup'') = None" "fs_write_err fs (key @ ''.backup'') = None"
  shows "fs_files (backup_pair cert key fs) (cert @ ''.backup'') = Some oldc"
    "fs_files (backup_pair cert key fs) (key @ ''.backup'') = Some oldk"
proof -
  let ?fs1 = "snd (fs_copy cert (cert @ ''.backup'') fs)"
  have b: "backup_pair cert key fs = snd (fs_copy key (key @ ''.backup'') ?fs1)"
    using old by (simp add: backup_pair_def path_exists_def)
  have k: "fs_files ?fs1 key = Some oldk"
    using d old by (subst fs_copy_frame(3)) (auto simp: pair_paths_def)
  show "fs_files (backup_pair cert key fs) (key @ ''.backup'') = Some oldk"
    unfolding b using k rd wr by (intro fs_copy_effect) (simp_all add: fs_copy_frame)
  show "fs_files (backup_pair cert key fs) (cert @ ''.backup'') = Some oldc"
    unfolding b using d old rd wr by (subst fs_copy_frame(3)) (auto simp: pair_paths_def fs_copy_effect)
qed

text \<open>Writing the pair, on every outcome of the two writes.\<close>

lemma write_pair_cases:
  assumes "write_pair cert key cp kp fs = (r, fs')" "cert \<noteq> key"
  shows "r = Ok () \<longleftrightarrow> fs_write_err fs cert = None \<and> fs_write_err fs key = None"
    "fs_write_err fs cert = None \<Longrightarrow> fs_files fs' cert = Some cp"
    "r = Ok () \<Longrightarrow> fs_files fs' key = Some kp"
    "fs_write_err fs key = Some (OpenFailed e) \<Longrightarrow> fs_files fs' key = fs_files fs key"
    "q \<notin> {cert, key} \<Longrightarrow> fs_files fs' q = fs_files fs q"
  using assms by (auto simp: write_pair_def fs_write_def split: option.splits write_fault.splits)

lemma trigger_renewal_obtained:
  assumes "path_exists service_account_token fs" "cert_node_name E = Some node"
    and "obtain_certificate ''Failed to initialize CSR manager: '' ''Failed to request certificate: '' E node c = (Ok (cp, kp), c')"
  shows "trigger_renewal E mgr fs c =
    (case write_pair (rm_cert_path mgr) (rm_key_path mgr) cp kp (backup_pair (rm_cert_path mgr) (rm_key_path mgr) fs) of
       (r, fs1) \<Rightarrow> (r, fs1, c'))"
  using assms by (simp add: trigger_renewal_def)

text \<open>A cluster for the witnesses: the names of its requests; each is signed at once.\<close>

definition demo_kube :: "string list kube" where
  "demo_kube =
     \<lparr>kb_connect = (\<lambda>c. Ok ()),
      kb_create = (\<lambda>r c. if csr_name r \<in> set c then (Err ''AlreadyExists'', c) else (Ok (), csr_name r # c)),
      kb_approve = (\<lambda>n cond c. (Ok (), c)),
      kb_get = (\<lambda>n c. (Ok (Some ''NEW''), c)),
      kb_list = (\<lambda>l c. Ok (List.map Some c)),
      kb_delete = (\<lambda>n c. (Ok (), removeAll n c))\<rparr>"

definition demo_cert_env :: "string list cert_env" where
  "demo_cert_env = \<lparr>ce_kube = demo_kube, ce_keygen = (\<lambda>ns. Ok (''SELF'', ''KEY'')), ce_b64 = id,
     ce_node_name = Some ''n1'', ce_hostname = None\<rparr>"

definition demo_pair_fs :: fsys where
  "demo_pair_fs = blank_fs\<lparr>fs_files := [service_account_token \<mapsto> [], operational_cert \<mapsto> ''OLD'', operational_key \<mapsto> ''OLDKEY''],
     fs_write_err := [operational_key \<mapsto> OpenFailed ''EROFS'']\<rparr>"

lemma demo_request: "request_certificate demo_cert_env ''n1'' [] = (Ok (''NEW'', ''KEY''), [''keel-agent-n1''])"
  by (simp add: request_certificate_def generate_csr_and_key_def generate_bootstrap_certificate_def demo_cert_env_def submit_csr_def
    demo_kube_def wait_for_certificate_def approve_csr_def numeral_eq_Suc from_utf8_def utf8_ranges_def Let_def)

lemma demo_paths_distinct:
  "distinct (pair_paths operational_cert operational_key)"
  by (simp add: pair_paths_def operational_cert_def operational_key_def)

text \<open>
  C27. Renewing a certificate the cluster has signed. It succeeds exactly when both files can
  be written; then certificate and key are the new pair, and the old pair is in the
  backups when these could be written. When the certificate could be written and the key
  file could not be opened, the node is left with the new certificate and the old key,
  which do not belong together. No other file changes.
\<close>

theorem renewal_replaces_pair:
  assumes "path_exists service_account_token fs" "cert_node_name E = Some node"
    and "obtain_certificate ''Failed to initialize CSR manager: '' ''Failed to request certificate: '' E node c = (Ok (cp, kp), c')"
    and d: "distinct (pair_paths (rm_cert_path mgr) (rm_key_path mgr))"
  shows "\<exists>r fs'. trigger_renewal E mgr fs c = (r, fs', c') \<and>
    (r = Ok () \<longleftrightarrow> fs_write_err fs (rm_cert_path mgr) = None \<and> fs_write_err fs (rm_key_path mgr) = None) \<and>
    (r = Ok () \<longrightarrow> fs_files fs' (rm_cert_path mgr) = Some cp \<and> fs_files fs' (rm_key_path mgr) = Some kp) \<and>
    (\<forall>oldc oldk. fs_files fs (rm_cert_path mgr) = Some oldc \<and> fs_files fs (rm_key_path mgr) = Some oldk \<and>
       fs_read_err fs (rm_cert_path mgr) = None \<and> fs_read_err fs (rm_key_path mgr) = None \<and>
       fs_write_err fs (rm_cert_path mgr @ ''.backup'') = None \<and> fs_write_err fs (rm_key_path mgr @ ''.backup'') = None \<longrightarrow>
       fs_files fs' (rm_cert_path mgr @ ''.backup'') = Some oldc \<and> fs_files fs' (rm_key_path mgr @ ''.backup'') = Some oldk) \<and>
    (\<forall>e. fs_write_err fs (rm_cert_path mgr) = None \<and> fs_write_err fs (rm_key_path mgr) = Some (OpenFailed e) \<longrightarrow>
       fs_files fs' (rm_cert_path mgr) = Some cp \<and> fs_files fs' (rm_key_path mgr) = fs_files fs (rm_key_path mgr)) \<and>
    (\<forall>q. q \<notin> set (pair_paths (rm_cert_path mgr) (rm_key_path mgr)) \<longrightarrow> fs_files fs' q = fs_files fs q)"
proof -
  let ?cert = "rm_cert_path mgr" and ?key = "rm_key_path mgr"
  let ?b = "backup_pair ?cert ?key fs"
  have ne: "?cert \<noteq> ?key" "?cert \<notin> {?cert @ ''.backup'', ?key @ ''.backup''}" "?key \<notin> {?cert @ ''.backup'', ?key @ ''.backup''}"
    and bk: "?cert @ ''.backup'' \<notin> {?cert, ?key}" "?key @ ''.backup'' \<notin> {?cert, ?key}"
    using d by (auto simp: pair_paths_def)
  obtain r fs' where w: "write_pair ?cert ?key cp kp ?b = (r, fs')" by force
  note wp = write_pair_cases [OF w ne(1), unfolded backup_pair_frame(1) [OF d]]
  have "trigger_renewal E mgr fs c = (r, fs', c')"
    using w assms(1-3) by (simp add: trigger_renewal_obtained)
  moreover have "fs_files fs' (?cert @ ''.backup'') = fs_files ?b (?cert @ ''.backup'')"
    "fs_files fs' (?key @ ''.backup'') = fs_files ?b (?key @ ''.backup'')"
    using wp(5) bk by blast+
  ultimately show ?thesis
    using wp backup_pair_frame(2) [OF d] ne backup_pair_effect [OF d]
    by (intro exI [of _ r] exI [of _ fs']) (simp add: pair_paths_def)
qed

theorem renewal_replaces_pair_witness:
  "\<exists>r fs' c'. trigger_renewal demo_cert_env (new_renewal_manager default_renewal_config) demo_pair_fs [] = (r, fs', c') \<and>
     r \<noteq> Ok () \<and> fs_files fs' operational_cert = Some ''NEW'' \<and> fs_files fs' operational_key = Some ''OLDKEY''"
proof -
  have o: "obtain_certificate ''Failed to initialize CSR manager: '' ''Failed to request certificate: '' demo_cert_env ''n1'' [] =
      (Ok (''NEW'', ''KEY''), [''keel-agent-n1''])"
    using demo_request by (simp add: obtain_certificate_def demo_cert_env_def demo_kube_def)
  have "path_exists service_account_token demo_pair_fs" "cert_node_name demo_cert_env = Some ''n1''"
    by (simp_all add: path_exists_def demo_pair_fs_def cert_node_name_def demo_cert_env_def)
  from renewal_replaces_pair [OF this o, of "new_renewal_manager default_renewal_config"] demo_paths_distinct
  show ?thesis
    by (auto simp: new_renewal_manager_def default_renewal_config_def demo_pair_fs_def blank_fs_def operational_cert_def
      operational_key_def service_account_token_def)
qed

section \<open>Asking the cluster twice\<close>

text \<open>
  What the documentation of the Kubernetes API says of the calls: an object cannot be
  created under a name that is taken, a created object is there, and approving or reading
  removes none. \<open>present c\<close> are the names of the signing requests in the cluster.
\<close>

definition csr_laws :: "'c kube \<Rightarrow> ('c \<Rightarrow> string set) \<Rightarrow> bool" where
  "csr_laws K present \<longleftrightarrow>
     (\<forall>r c u c'. kb_create K r c = (Ok u, c') \<longrightarrow> csr_name r \<notin> present c \<and> csr_name r \<in> present c') \<and>
     (\<forall>n d c. present c \<subseteq> present (snd (kb_approve K n d c))) \<and>
     (\<forall>n c. present c \<subseteq> present (snd (kb_get K n c)))"

lemma poll_keeps:
  "csr_laws (ce_kube E) present \<Longrightarrow> present c \<subseteq> present (snd (poll_certificate k E n c))"
proof (induction k arbitrary: c)
  case (Suc k)
  obtain r c1 where g: "kb_get (ce_kube E) n c = (r, c1)" by force
  have "present c \<subseteq> present c1"
    using Suc.prems g unfolding csr_laws_def by (metis snd_conv)
  moreover have "present c1 \<subseteq> present (snd (poll_certificate k E n c1))"
    by (rule Suc.IH [OF Suc.prems])
  ultimately show ?case
    using g by (auto split: sum.splits option.splits)
qed simp

lemma demo_csr_laws: "csr_laws demo_kube set"
  by (auto simp: csr_laws_def demo_kube_def split: if_splits)

text \<open>
  C28. A node that has obtained a certificate from the cluster cannot obtain another one
  while the signing request of the first is still there: the request is submitted again
  under the same name and refused. Nothing in the agent removes it.
\<close>

theorem second_certificate_refused:
  assumes l: "csr_laws (ce_kube E) present"
    and first: "request_certificate E node c = (Ok p, c')"
  shows "\<exists>e c''. request_certificate E node c' = (Err e, c'')"
proof -
  let ?n = "''keel-agent-'' @ node"
  obtain cert key where g: "generate_csr_and_key E = Ok (cert, key)"
    using first by (auto simp: request_certificate_def split: sum.splits)
  obtain r1 c1 where s: "submit_csr E node ?n cert c = (r1, c1)" by force
  obtain u where r1: "r1 = Ok u"
    using first g s by (auto simp: request_certificate_def Let_def split: sum.splits)
  have "?n \<in> present c1"
    using l s r1 unfolding csr_laws_def submit_csr_def by fastforce
  moreover have "present c1 \<subseteq> present (snd (approve_csr E ?n c1))"
    using l unfolding csr_laws_def approve_csr_def by blast
  moreover have "c' = snd (wait_for_certificate E ?n (snd (approve_csr E ?n c1)))"
    using first g s r1 by (auto simp: request_certificate_def Let_def split: sum.splits prod.splits)
  ultimately have "?n \<in> present c'"
    using poll_keeps [OF l] unfolding wait_for_certificate_def by blast
  then have "\<nexists>u c''. submit_csr E node ?n cert c' = (Ok u, c'')"
    using l unfolding csr_laws_def submit_csr_def by fastforce
  then obtain e c'' where "submit_csr E node ?n cert c' = (Err e, c'')"
    by (metis sum.exhaust surj_pair)
  then show ?thesis
    using g by (simp add: request_certificate_def)
qed

theorem second_certificate_refused_witness:
  "\<exists>e c''. request_certificate demo_cert_env ''n1'' [''keel-agent-n1''] = (Err e, c'')"
  by (rule second_certificate_refused [where present = set, OF _ demo_request]) (simp add: demo_csr_laws demo_cert_env_def)

section \<open>Clients without a certificate\<close>

text \<open>
  However the server is configured, a client may connect without a certificate: either no
  client CA is set, so that none is asked for, or the certificate is optional. The role check
  passes such a client for every operation, those of an administrator included.
\<close>

lemma no_certificate_is_accepted:
  assumes "build_tls_config dir t fs = Ok cfg"
  shows "(tls_client_ca cfg = None \<or> tls_client_auth_optional cfg) \<and> authorize orgs None role = Ok ()"
  using assms by (auto simp: build_tls_config_def and_then_eq_Ok Let_def authorize_def split: if_splits)

lemma no_certificate_is_accepted_witness:
  "\<exists>cfg. build_tls_config (\<lambda>d fs. Ok []) \<lparr>tm_server_cert_path = operational_cert, tm_server_key_path = operational_key,
       tm_bootstrap_ca_dir = [], tm_operational_ca_path = Some operational_cert\<rparr> demo_pair_fs = Ok cfg \<and>
     (tls_client_ca cfg = None \<or> tls_client_auth_optional cfg) \<and> authorize (\<lambda>d::unit. Ok []) None Admin = Ok ()"
proof -
  let ?t = "\<lparr>tm_server_cert_path = operational_cert, tm_server_key_path = operational_key,
       tm_bootstrap_ca_dir = [], tm_operational_ca_path = Some operational_cert\<rparr>"
  obtain cfg where c: "build_tls_config (\<lambda>d fs. Ok []) ?t demo_pair_fs = Ok cfg"
    by (simp add: build_tls_config_def read_to_string_def demo_pair_fs_def blank_fs_def path_exists_def operational_cert_def
      operational_key_def service_account_token_def Let_def)
  then show ?thesis
    using no_certificate_is_accepted [OF c, of "\<lambda>d::unit. Ok []" Admin] by blast
qed

end
