(* ===== verification/Node_Service.thy ===== *)
theory Node_Service
  imports Executor Diagnostics Network_Rpc Certs
begin

text \<open>
  The gRPC service of the agent (\<open>cmd/keel-agent/src/lib.rs\<close>): one definition per request
  handler, over the state the handlers share, and the dispatch of a request. The answers of
  the outside world during a request are the fields of \<open>service_env\<close>.
\<close>

section \<open>State and environment\<close>

record 'c service =
  sc_sched :: scheduler
  sc_health :: health_checker
  sc_diag :: diagnostics_manager
  sc_disks :: disks
  sc_cluster :: 'c

abbreviation sc_fs :: "'c service \<Rightarrow> fsys" where
  "sc_fs s \<equiv> dk_fs (sc_disks s)"

definition set_fs :: "fsys \<Rightarrow> 'c service \<Rightarrow> 'c service" where
  "set_fs fs s = s\<lparr>sc_disks := (sc_disks s)\<lparr>dk_fs := fs\<rparr>\<rparr>"

text \<open>
  \<open>se_now k\<close> is the \<open>k\<close>-th clock reading of the request, \<open>se_check_order\<close> and
  \<open>se_sched_order\<close> the orders in which the hash maps are visited, \<open>se_cert_hash\<close> the default
  hasher in hexadecimal.
\<close>

record ('c, 'der, 'key) service_env =
  se_orgs :: "'der \<Rightarrow> string + string option list"
  se_update :: update_env
  se_sched_json :: "schedule_map json"
  se_boot_json :: "bootstrap_config json"
  se_net_json :: "network_config json"
  se_cidr :: cidr
  se_certs :: "'c cert_env"
  se_x509 :: "('der, 'key) x509"
  se_rfc3339 :: "timestamp \<Rightarrow> string"
  se_parse_time :: "string \<Rightarrow> string + timestamp"
  se_now :: "nat \<Rightarrow> timestamp"
  se_uuid :: string
  se_hostname :: "string + string"
  se_probe :: "string \<Rightarrow> probe \<times> u64"
  se_check_order :: "string list"
  se_sched_order :: "string list"
  se_dmesg :: cmd_outcome
  se_dmesg_iso :: cmd_outcome
  se_ps :: cmd_outcome
  se_file_stamp :: string
  se_net_entries :: "string list option"
  se_ip4 :: "string \<Rightarrow> string option"
  se_ip6 :: "string \<Rightarrow> string option"
  se_cert_hash :: "string \<Rightarrow> string"

text \<open>\<open>rbac::authorize(...)?\<close> at the head of a handler.\<close>

definition guarded ::
  "('c, 'der, 'key) service_env \<Rightarrow> 'der list option \<Rightarrow> role \<Rightarrow> ('c service \<Rightarrow> (status + 'a) \<times> 'c service) \<Rightarrow>
   'c service \<Rightarrow> (status + 'a) \<times> 'c service" where
  "guarded E certs required body s =
     (case authorize (se_orgs E) certs required of Inl e \<Rightarrow> (Err e, s) | Inr _ \<Rightarrow> body s)"

section \<open>Node status and updates\<close>

text \<open>The uptime is a floating point number whose only value is \<open>0.0\<close>.\<close>

record status_response =
  sr_hostname :: string
  sr_kernel_version :: string
  sr_os_version :: string
  sr_uptime_seconds :: int

definition get_status :: "('c, 'der, 'key) service_env \<Rightarrow> 'der list option \<Rightarrow> 'c service \<Rightarrow> (status + status_response) \<times> 'c service" where
  "get_status E certs = guarded E certs Viewer (\<lambda>s.
     (Ok \<lparr>sr_hostname = ''keel-node'', sr_kernel_version = ''6.6.14'', sr_os_version = ''0.1.0'', sr_uptime_seconds = 0\<rparr>, s))"

definition reboot :: "('c, 'der, 'key) service_env \<Rightarrow> 'der list option \<Rightarrow> string \<Rightarrow> 'c service \<Rightarrow> (status + bool) \<times> 'c service" where
  "reboot E certs reason = guarded E certs Admin (\<lambda>s. (Ok True, s))"

record install_request =
  iu_source_url :: string
  iu_expected_sha256 :: string
  iu_is_delta :: bool
  iu_fallback_to_full :: bool
  iu_full_image_url :: string

record update_progress =
  up_percentage :: u32
  up_message :: string
  up_success :: bool
  up_eta_seconds :: u32
  up_download_speed_bps :: u64
  up_phase :: string
  up_bytes_saved :: u64

definition progress :: "u32 \<Rightarrow> string \<Rightarrow> bool \<Rightarrow> string \<Rightarrow> u64 \<Rightarrow> update_progress" where
  "progress pct msg ok ph saved =
     \<lparr>up_percentage = pct, up_message = msg, up_success = ok, up_eta_seconds = 0, up_download_speed_bps = 0, up_phase = ph, up_bytes_saved = saved\<rparr>"

definition install_flash ::
  "update_env \<Rightarrow> install_request \<Rightarrow> string \<Rightarrow> disks \<Rightarrow> (io_error + u64) \<times> disks" where
  "install_flash U req device =
     flash_image (ue_http U) (ue_sha256 U) (ue_bspatch U) (ue_tmp U) (iu_source_url req) device
       (non_empty (iu_expected_sha256 req)) (iu_is_delta req)
       (if iu_fallback_to_full req \<and> iu_full_image_url req \<noteq> [] then Some (iu_full_image_url req) else None)"

text \<open>
  The stream of progress messages is lazy: its code runs from one message to the next when
  the client asks for the next message. \<open>n\<close> is the number of messages asked for; the
  result has the messages sent and the error that ended the stream, if one did.
\<close>

definition install_stream ::
  "update_env \<Rightarrow> install_request \<Rightarrow> nat \<Rightarrow> disks \<Rightarrow> (update_progress list \<times> status option) \<times> disks" where
  "install_stream U req n w =
     (let p0 = progress 0 ''Identifying target partition...'' False ''preparing'' 0 in
      if n = 0 then (([], None), w)
      else if n = 1 then (([p0], None), w)
      else case get_inactive_partition w of
        Inl e \<Rightarrow> (([p0], Some (Internal (''Failed to get inactive partition: '' @ io_msg e))), w)
      | Inr inactive \<Rightarrow>
          (let p1 = progress 10 (''Target partition identified: '' @ part_device inactive) False ''preparing'' 0;
               p2 = progress 20
                      (if iu_is_delta req then ''Downloading delta and patching to '' @ part_device inactive @ ''...''
                       else ''Downloading and flashing to '' @ part_device inactive @ ''...'')
                      False ''downloading'' 0
           in if n = 2 then (([p0, p1], None), w)
              else if n = 3 then (([p0, p1, p2], None), w)
              else case install_flash U req (part_device inactive) w of
                (Inl e, w1) \<Rightarrow> (([p0, p1, p2], Some (Internal (''Flash error: '' @ io_msg e))), w1)
              | (Inr bytes_saved, w1) \<Rightarrow>
                  (let p3 = progress 80 ''Image flashed. Toggling boot flags...'' False ''verifying'' bytes_saved in
                   if n = 4 then (([p0, p1, p2, p3], None), w1)
                   else case switch_boot_partition (ue_sgdisk U) (part_index inactive) w1 of
                     (Inl e, w2) \<Rightarrow>
                       (([p0, p1, p2, p3], Some (Internal (''Failed to switch boot partition: '' @ io_msg e))), w2)
                   | (Inr _, w2) \<Rightarrow>
                       (([p0, p1, p2, p3,
                          progress 100
                            (if 0 < bytes_saved
                             then ''Update installed successfully. Saved '' @ show_word bytes_saved @ '' bytes. Reboot to apply.''
                             else ''Update installed successfully. Reboot to apply.'')
                            True ''completed'' bytes_saved], None), w2))))"

definition install_update ::
  "('c, 'der, 'key) service_env \<Rightarrow> 'der list option \<Rightarrow> install_request \<Rightarrow> nat \<Rightarrow> 'c service \<Rightarrow>
   (status + update_progress list \<times> status option) \<times> 'c service" where
  "install_update E certs req n = guarded E certs Operator (\<lambda>s.
     case install_stream (se_update E) req n (sc_disks s) of (r, w) \<Rightarrow> (Ok r, s\<lparr>sc_disks := w\<rparr>))"

record schedule_request =
  sq_source_url :: string
  sq_expected_sha256 :: string
  sq_scheduled_at :: string
  sq_maintenance_window_secs :: u32
  sq_enable_auto_rollback :: bool
  sq_health_check_timeout_secs :: u32
  sq_pre_update_hook :: string
  sq_post_update_hook :: string
  sq_is_delta :: bool
  sq_fallback_to_full :: bool
  sq_full_image_url :: string

definition positive :: "u32 \<Rightarrow> u32 option" where
  "positive n = (if 0 < n then Some n else None)"

definition schedule_update_rpc ::
  "('c, 'der, 'key) service_env \<Rightarrow> 'der list option \<Rightarrow> schedule_request \<Rightarrow> 'c service \<Rightarrow>
   (status + string \<times> string \<times> string) \<times> 'c service" where
  "schedule_update_rpc E certs req = guarded E certs Operator (\<lambda>s.
     case (if sq_scheduled_at req \<noteq> []
           then map_err (\<lambda>e. InvalidArgument (''Invalid scheduled_at: '' @ e))
                  (and_then (se_parse_time E (sq_scheduled_at req)) (\<lambda>t. Ok (Some t)))
           else Ok None) of
       Inl e \<Rightarrow> (Err e, s)
     | Inr at \<Rightarrow>
         (case schedule_update (se_sched_json E) (se_now E 0) (se_uuid E) (sq_source_url req)
                 (non_empty (sq_expected_sha256 req)) at (positive (sq_maintenance_window_secs req))
                 (sq_enable_auto_rollback req) (positive (sq_health_check_timeout_secs req))
                 (non_empty (sq_pre_update_hook req)) (non_empty (sq_post_update_hook req))
                 (sq_is_delta req) (sq_fallback_to_full req) (non_empty (sq_full_image_url req))
                 (sc_sched s) (sc_fs s) of
            (r, sch, fs) \<Rightarrow>
              (and_then (map_err (\<lambda>e. Internal (''Failed to schedule update: '' @ e)) r) (\<lambda>schedule.
                 Ok (sched_id schedule, schedule_status_str (sched_status schedule),
                     (case scheduled_at schedule of None \<Rightarrow> [] | Some t \<Rightarrow> se_rfc3339 E t))),
               set_fs fs (s\<lparr>sc_sched := sch\<rparr>))))"

record schedule_info =
  si_id :: string
  si_source_url :: string
  si_expected_sha256 :: string
  si_scheduled_at :: string
  si_status :: string
  si_enable_auto_rollback :: bool
  si_created_at :: string

definition time_or_empty :: "('c, 'der, 'key) service_env \<Rightarrow> timestamp option \<Rightarrow> string" where
  "time_or_empty E t = (case t of None \<Rightarrow> [] | Some x \<Rightarrow> se_rfc3339 E x)"

definition schedule_info_of :: "('c, 'der, 'key) service_env \<Rightarrow> update_schedule \<Rightarrow> schedule_info" where
  "schedule_info_of E u =
     \<lparr>si_id = sched_id u, si_source_url = source_url u, si_expected_sha256 = unwrap_or [] (expected_sha256 u),
      si_scheduled_at = time_or_empty E (scheduled_at u), si_status = schedule_status_str (sched_status u),
      si_enable_auto_rollback = enable_auto_rollback u, si_created_at = se_rfc3339 E (created_at u)\<rparr>"

definition get_update_schedule ::
  "('c, 'der, 'key) service_env \<Rightarrow> 'der list option \<Rightarrow> 'c service \<Rightarrow> (status + schedule_info list) \<times> 'c service" where
  "get_update_schedule E certs = guarded E certs Viewer (\<lambda>s.
     (Ok (List.map (schedule_info_of E) (get_schedules (se_sched_order E) (sc_sched s))), s))"

definition cancel_scheduled_update ::
  "('c, 'der, 'key) service_env \<Rightarrow> 'der list option \<Rightarrow> string \<Rightarrow> 'c service \<Rightarrow> (status + bool \<times> string) \<times> 'c service" where
  "cancel_scheduled_update E certs i = guarded E certs Operator (\<lambda>s.
     case cancel_schedule (se_sched_json E) i (sc_sched s) (sc_fs s) of
       (r, sch, fs) \<Rightarrow>
         (Ok (case r of Inr _ \<Rightarrow> (True, ''Update cancelled successfully'') | Inl e \<Rightarrow> (False, e)),
          set_fs fs (s\<lparr>sc_sched := sch\<rparr>)))"

section \<open>Health and rollback\<close>

record check_info =
  ci_name :: string
  ci_status :: string
  ci_message :: string
  ci_duration_ms :: u64

fun result_word :: "health_check_result \<Rightarrow> string" where
  "result_word Pass = ''pass''"
| "result_word (Fail m) = ''fail''"
| "result_word (Unknown m) = ''unknown''"

definition check_info_of :: "check_execution \<Rightarrow> check_info" where
  "check_info_of x = \<lparr>ci_name = exec_name x, ci_status = result_word (exec_result x),
     ci_message = check_message (exec_result x), ci_duration_ms = duration_ms x\<rparr>"

text \<open>A health check can panic; then there is no reply.\<close>

definition get_health ::
  "('c, 'der, 'key) service_env \<Rightarrow> 'der list option \<Rightarrow> 'c service \<Rightarrow>
   (status + (string \<times> check_info list \<times> string) option) \<times> 'c service" where
  "get_health E certs = guarded E certs Viewer (\<lambda>s.
     case run_all_checks (se_probe E) (se_check_order E) (sc_health s) of
       (r, hc) \<Rightarrow>
         (Ok (map_option (\<lambda>(st, xs). (health_status_str st, List.map check_info_of xs, se_rfc3339 E (se_now E 0))) r),
          s\<lparr>sc_health := hc\<rparr>))"

definition trigger_rollback_rpc ::
  "('c, 'der, 'key) service_env \<Rightarrow> 'der list option \<Rightarrow> string \<Rightarrow> 'c service \<Rightarrow> (status + bool \<times> string) \<times> 'c service" where
  "trigger_rollback_rpc E certs reason = guarded E certs Admin (\<lambda>s.
     case rollback_to_previous_partition (ue_json (se_update E)) (ue_sgdisk (se_update E)) (sc_disks s) of
       (Inr _, w) \<Rightarrow> (Ok (True, ''Rollback completed. System will reboot to previous partition.''), s\<lparr>sc_disks := w\<rparr>)
     | (Inl e, w) \<Rightarrow> (Ok (False, ''Rollback failed: '' @ io_msg e), s\<lparr>sc_disks := w\<rparr>))"

record rollback_event =
  re_timestamp :: string
  re_reason :: string
  re_from_partition :: string
  re_to_partition :: string
  re_automatic :: bool

definition get_rollback_history ::
  "('c, 'der, 'key) service_env \<Rightarrow> 'der list option \<Rightarrow> 'c service \<Rightarrow> (status + rollback_event list) \<times> 'c service" where
  "get_rollback_history E certs = guarded E certs Viewer (\<lambda>s.
     (Ok (List.map (\<lambda>u. \<lparr>re_timestamp = time_or_empty E (completed_at u), re_reason = unwrap_or ''Unknown'' (rollback_reason u),
                         re_from_partition = ''unknown'', re_to_partition = ''unknown'', re_automatic = enable_auto_rollback u\<rparr>)
           (filter rollback_triggered (get_schedules (se_sched_order E) (sc_sched s)))), s))"

section \<open>Cluster membership and certificates\<close>

definition bootstrap_kubernetes_rpc ::
  "('c, 'der, 'key) service_env \<Rightarrow> 'der list option \<Rightarrow> bootstrap_request \<Rightarrow> 'c service \<Rightarrow>
   (status + string \<times> string) \<times> 'c service" where
  "bootstrap_kubernetes_rpc E certs req = guarded E certs Admin (\<lambda>s.
     case bootstrap_kubernetes (ce_b64 (se_certs E)) (se_boot_json E) (se_rfc3339 E (se_now E 0)) (se_hostname E) req (sc_fs s) of
       (r, fs) \<Rightarrow> (r, set_fs fs s))"

definition get_bootstrap_status_rpc ::
  "('c, 'der, 'key) service_env \<Rightarrow> 'der list option \<Rightarrow> 'c service \<Rightarrow> (status + bootstrap_status) \<times> 'c service" where
  "get_bootstrap_status_rpc E certs = guarded E certs Viewer (\<lambda>s. (get_bootstrap_status (se_boot_json E) (sc_fs s), s))"

definition trusted_clients :: string where
  "trusted_clients = ''/var/lib/keel/crypto/trusted-clients/bootstrap''"

text \<open>This request has no role check.\<close>

definition init_bootstrap ::
  "('c, 'der, 'key) service_env \<Rightarrow> string \<Rightarrow> 'c service \<Rightarrow> (status + bool \<times> string) \<times> 'c service" where
  "init_bootstrap E client_cert_pem s =
     (case validate_bootstrap_cert client_cert_pem of
        Inl e \<Rightarrow> (Ok (False, ''Invalid certificate: '' @ crypto_error_str e), s)
      | Inr _ \<Rightarrow>
          (case create_dir_all trusted_clients (sc_fs s) of
             (Inl e, fs1) \<Rightarrow> (Ok (False, ''Failed to create cert directory: '' @ e), set_fs fs1 s)
           | (Inr _, fs1) \<Rightarrow>
               (case fs_write (trusted_clients @ ''/client-'' @ se_cert_hash E client_cert_pem @ ''.pem'') client_cert_pem fs1 of
                  (Inl e, fs2) \<Rightarrow> (Ok (False, ''Failed to write certificate: '' @ e), set_fs fs2 s)
                | (Inr _, fs2) \<Rightarrow> (Ok (True, ''Bootstrap certificate accepted and stored''), set_fs fs2 s))))"

definition rotate_certificate ::
  "('c, 'der, 'key) service_env \<Rightarrow> 'der list option \<Rightarrow> bool \<Rightarrow> 'c service \<Rightarrow>
   (status + string \<times> string \<times> string) \<times> 'c service" where
  "rotate_certificate E certs force = guarded E certs Operator (\<lambda>s.
     if \<not> path_exists service_account_token (sc_fs s)
     then (Err (FailedPrecondition ''Not running in Kubernetes - rotation only available in K8s clusters''), s)
     else case cert_node_name (se_certs E) of
       None \<Rightarrow> (Err (Internal ''Failed to determine node name''), s)
     | Some node_name \<Rightarrow>
         (case obtain_certificate ''Failed to initialize CSR manager: '' ''Rotation failed: '' (se_certs E) node_name (sc_cluster s) of
            (Inl e, c) \<Rightarrow> (Err (Internal e), s\<lparr>sc_cluster := c\<rparr>)
          | (Inr (cert_pem, key_pem), c) \<Rightarrow>
              (case write_pair operational_cert operational_key cert_pem key_pem
                      (backup_pair operational_cert operational_key (sc_fs s)) of
                 (r, fs) \<Rightarrow>
                   (and_then (map_err Internal r) (\<lambda>_.
                      Ok (''Certificate rotated successfully'', operational_cert,
                          (case parse_cert_expiry (se_x509 E) cert_pem of
                             Inr t \<Rightarrow> se_rfc3339 E t | Inl e \<Rightarrow> ''Unknown''))),
                    set_fs fs (s\<lparr>sc_cluster := c\<rparr>)))))"

section \<open>Network\<close>

definition configure_network_rpc ::
  "('c, 'der, 'key) service_env \<Rightarrow> 'der list option \<Rightarrow> configure_request \<Rightarrow> 'c service \<Rightarrow> (status + string \<times> bool) \<times> 'c service" where
  "configure_network_rpc E certs req = guarded E certs Admin (\<lambda>s.
     case configure_network (se_cidr E) (se_net_json E) req (sc_fs s) of (r, fs) \<Rightarrow> (r, set_fs fs s))"

definition get_network_config_rpc ::
  "('c, 'der, 'key) service_env \<Rightarrow> 'der list option \<Rightarrow> 'c service \<Rightarrow> (status + config_response) \<times> 'c service" where
  "get_network_config_rpc E certs = guarded E certs Viewer (\<lambda>s. (get_network_config (se_cidr E) (se_net_json E) (sc_fs s), s))"

definition get_network_status_rpc ::
  "('c, 'der, 'key) service_env \<Rightarrow> 'der list option \<Rightarrow> 'c service \<Rightarrow> (status + interface_status list option) \<times> 'c service" where
  "get_network_status_rpc E certs = guarded E certs Viewer (\<lambda>s.
     (Ok (get_network_status (se_ip4 E) (se_ip6 E) (se_net_entries E) (sc_fs s)), s))"

section \<open>Diagnostics\<close>

definition enable_debug_mode_rpc ::
  "('c, 'der, 'key) service_env \<Rightarrow> 'der list option \<Rightarrow> u32 \<Rightarrow> string \<Rightarrow> 'c service \<Rightarrow>
   (status + bool \<times> string \<times> string \<times> string) \<times> 'c service" where
  "enable_debug_mode_rpc E certs duration_secs reason = guarded E certs Admin (\<lambda>s.
     case enable_debug_mode (se_rfc3339 E) (se_now E 0) (se_now E 1) (se_uuid E) duration_secs reason (sc_diag s) of
       (Inr session, d) \<Rightarrow>
         (Ok (True, ''Debug mode enabled'', ds_session_id session, se_rfc3339 E (ds_expires_at session)), s\<lparr>sc_diag := d\<rparr>)
     | (Inl e, d) \<Rightarrow> (Ok (False, e, [], []), s\<lparr>sc_diag := d\<rparr>))"

text \<open>\<open>chrono::Duration::num_seconds\<close>.\<close>

definition num_seconds :: "timestamp \<Rightarrow> int" where
  "num_seconds d = div_trunc d (seconds 1)"

record debug_status =
  dr_enabled :: bool
  dr_session_id :: string
  dr_expires_at :: string
  dr_reason :: string
  dr_remaining_secs :: u32

definition get_debug_status_rpc ::
  "('c, 'der, 'key) service_env \<Rightarrow> 'der list option \<Rightarrow> 'c service \<Rightarrow> (status + debug_status) \<times> 'c service" where
  "get_debug_status_rpc E certs = guarded E certs Viewer (\<lambda>s.
     (Ok (case get_debug_status (se_now E 0) (sc_diag s) of
            Some session \<Rightarrow>
              (let remaining = num_seconds (ds_expires_at session - se_now E 1) in
               \<lparr>dr_enabled = True, dr_session_id = ds_session_id session, dr_expires_at = se_rfc3339 E (ds_expires_at session),
                dr_reason = ds_reason session, dr_remaining_secs = (if 0 < remaining then word_of_int remaining else 0)\<rparr>)
          | None \<Rightarrow> \<lparr>dr_enabled = False, dr_session_id = [], dr_expires_at = [], dr_reason = [], dr_remaining_secs = 0\<rparr>), s))"

definition collect_crash_dump_rpc ::
  "('c, 'der, 'key) service_env \<Rightarrow> 'der list option \<Rightarrow> bool \<Rightarrow> bool \<Rightarrow> 'c service \<Rightarrow>
   (status + bool \<times> string \<times> string \<times> u64 \<times> string) \<times> 'c service" where
  "collect_crash_dump_rpc E certs include_kernel include_userspace = guarded E certs Operator (\<lambda>s.
     case collect_crash_dump (se_file_stamp E) (se_rfc3339 E (se_now E 0)) (se_dmesg E) (se_ps E) include_kernel include_userspace (sc_fs s) of
       (Inr (dump_path, dump_size), fs) \<Rightarrow>
         (Ok (True, ''Crash dump collected successfully'', dump_path, dump_size, se_rfc3339 E (se_now E 1)), set_fs fs s)
     | (Inl e, fs) \<Rightarrow> (Ok (False, ''Failed to collect crash dump: '' @ e, [], 0, []), set_fs fs s))"

definition create_system_snapshot_rpc ::
  "('c, 'der, 'key) service_env \<Rightarrow> 'der list option \<Rightarrow> string \<Rightarrow> bool \<Rightarrow> bool \<Rightarrow> 'c service \<Rightarrow>
   (status + bool \<times> string \<times> string \<times> string \<times> u64 \<times> string) \<times> 'c service" where
  "create_system_snapshot_rpc E certs label include_config include_logs = guarded E certs Operator (\<lambda>s.
     case create_system_snapshot (se_uuid E) (se_file_stamp E) (se_rfc3339 E (se_now E 0)) (se_dmesg E) label
            include_config include_logs (sc_fs s) of
       (Inr (snapshot_id, snapshot_path, nbytes), fs) \<Rightarrow>
         (Ok (True, ''System snapshot created successfully'', snapshot_id, snapshot_path, nbytes, se_rfc3339 E (se_now E 1)), set_fs fs s)
     | (Inl e, fs) \<Rightarrow> (Ok (False, ''Failed to create snapshot: '' @ e, [], [], 0, []), set_fs fs s))"

definition enable_recovery_mode_rpc ::
  "('c, 'der, 'key) service_env \<Rightarrow> 'der list option \<Rightarrow> u32 \<Rightarrow> string \<Rightarrow> 'c service \<Rightarrow>
   (status + bool \<times> string \<times> string) \<times> 'c service" where
  "enable_recovery_mode_rpc E certs duration_secs reason = guarded E certs Admin (\<lambda>s.
     case enable_recovery_mode (se_rfc3339 E) (se_now E 0) (se_now E 1) duration_secs reason (sc_diag s) of
       (Inr session, d) \<Rightarrow>
         (Ok (True, ''Recovery mode enabled (reason: '' @ rs_reason session @ '')'', se_rfc3339 E (rs_expires_at session)),
          s\<lparr>sc_diag := d\<rparr>)
     | (Inl e, d) \<Rightarrow> (Ok (False, e, []), s\<lparr>sc_diag := d\<rparr>))"

definition analyze_crash_dump_rpc ::
  "('c, 'der, 'key) service_env \<Rightarrow> 'der list option \<Rightarrow> string \<Rightarrow> 'c service \<Rightarrow>
   (status + bool \<times> string \<times> string \<times> crash_finding list \<times> string) \<times> 'c service" where
  "analyze_crash_dump_rpc E certs dump_path = guarded E certs Operator (\<lambda>s.
     (Ok (case analyze_crash_dump dump_path (sc_fs s) of
            Inr (severity, findings, summary) \<Rightarrow> (True, ''Crash dump analyzed successfully'', severity, findings, summary)
          | Inl e \<Rightarrow> (False, ''Failed to analyze crash dump: '' @ e, [], [], [])), s))"

section \<open>Logs\<close>

record log_entry =
  le_timestamp :: string
  le_level :: string
  le_component :: string
  le_message :: string

definition level_of :: "string \<Rightarrow> string" where
  "level_of lvl =
     (if lvl \<in> {''emerg'', ''alert'', ''crit'', ''err''} then ''error''
      else if lvl \<in> {''warn'', ''warning''} then ''warn''
      else if lvl \<in> {''notice'', ''info''} then ''info''
      else if lvl = ''debug'' then ''debug''
      else ''info'')"

text \<open>Time stamp, level and message of a line; \<open>now\<close> is used when the line has no blank.\<close>

definition split_log_line :: "string \<Rightarrow> string \<Rightarrow> string \<times> string \<times> string" where
  "split_log_line now line =
     (case split_once '' '' line of
        Some (ts, rest) \<Rightarrow>
          (case split_once '': '' rest of
             Some (facility_level, msg) \<Rightarrow>
               (ts, (case split_once ''.'' facility_level of Some (_, lvl) \<Rightarrow> level_of lvl | None \<Rightarrow> ''info''), msg)
           | None \<Rightarrow> (ts, ''info'', rest))
      | None \<Rightarrow> (now, ''info'', line))"

definition parse_log_line :: "string \<Rightarrow> string \<Rightarrow> string \<Rightarrow> string \<Rightarrow> log_entry option" where
  "parse_log_line now line level_filter component_filter =
     (case split_log_line now line of (timestamp, level, message) \<Rightarrow>
        if level_filter \<noteq> [] \<and> level \<noteq> level_filter then None
        else if component_filter \<noteq> [] \<and> ''kernel'' \<noteq> component_filter then None
        else Some \<lparr>le_timestamp = timestamp, le_level = level, le_component = ''kernel'', le_message = message\<rparr>)"

definition tail_from :: "u32 \<Rightarrow> string list \<Rightarrow> string list" where
  "tail_from tail_lines ls =
     (let k = (if tail_lines = 0 then 50 else unat tail_lines) in
      drop (if k < length ls then length ls - k else 0) ls)"

text \<open>The stream of log entries; the lines are read before the stream starts.\<close>

definition stream_logs ::
  "('c, 'der, 'key) service_env \<Rightarrow> 'der list option \<Rightarrow> string \<Rightarrow> string \<Rightarrow> u32 \<Rightarrow> 'c service \<Rightarrow>
   (status + log_entry list) \<times> 'c service" where
  "stream_logs E certs level component tail_lines = guarded E certs Operator (\<lambda>s.
     (case se_dmesg_iso E of
        SpawnErr e \<Rightarrow> (Err (Internal (''Failed to read dmesg: '' @ e)), s)
      | Exited ok out err \<Rightarrow>
          (Ok (List.map_filter (\<lambda>line. parse_log_line (se_rfc3339 E (se_now E 0)) line level component)
                (tail_from tail_lines (lines out))), s)))"

section \<open>Dispatch\<close>

datatype request =
    GetStatus
  | Reboot string
  | InstallUpdate install_request nat
  | ScheduleUpdate schedule_request
  | GetUpdateSchedule
  | CancelScheduledUpdate string
  | GetHealth
  | TriggerRollback string
  | GetRollbackHistory
  | BootstrapKubernetes bootstrap_request
  | GetBootstrapStatus
  | InitBootstrap string
  | RotateCertificate bool
  | ConfigureNetwork configure_request
  | GetNetworkConfig
  | GetNetworkStatus
  | EnableDebugMode u32 string
  | GetDebugStatus
  | CollectCrashDump bool bool
  | StreamLogs string string u32
  | CreateSystemSnapshot string bool bool
  | EnableRecoveryMode u32 string
  | AnalyzeCrashDump string

text \<open>The status a request was answered with, \<open>None\<close> for OK, and the state after it.\<close>

fun answer :: "(status + 'a) \<times> 'c service \<Rightarrow> status option \<times> 'c service" where
  "answer (Inl e, s) = (Some e, s)"
| "answer (Inr a, s) = (None, s)"

fun handle ::
  "('c, 'der, 'key) service_env \<Rightarrow> 'der list option \<Rightarrow> request \<Rightarrow> 'c service \<Rightarrow> status option \<times> 'c service" where
  "handle E certs GetStatus s = answer (get_status E certs s)"
| "handle E certs (Reboot reason) s = answer (reboot E certs reason s)"
| "handle E certs (InstallUpdate req n) s = answer (install_update E certs req n s)"
| "handle E certs (ScheduleUpdate req) s = answer (schedule_update_rpc E certs req s)"
| "handle E certs GetUpdateSchedule s = answer (get_update_schedule E certs s)"
| "handle E certs (CancelScheduledUpdate i) s = answer (cancel_scheduled_update E certs i s)"
| "handle E certs GetHealth s = answer (get_health E certs s)"
| "handle E certs (TriggerRollback reason) s = answer (trigger_rollback_rpc E certs reason s)"
| "handle E certs GetRollbackHistory s = answer (get_rollback_history E certs s)"
| "handle E certs (BootstrapKubernetes req) s = answer (bootstrap_kubernetes_rpc E certs req s)"
| "handle E certs GetBootstrapStatus s = answer (get_bootstrap_status_rpc E certs s)"
| "handle E certs (InitBootstrap pem) s = answer (init_bootstrap E pem s)"
| "handle E certs (RotateCertificate force) s = answer (rotate_certificate E certs force s)"
| "handle E certs (ConfigureNetwork req) s = answer (configure_network_rpc E certs req s)"
| "handle E certs GetNetworkConfig s = answer (get_network_config_rpc E certs s)"
| "handle E certs GetNetworkStatus s = answer (get_network_status_rpc E certs s)"
| "handle E certs (EnableDebugMode d reason) s = answer (enable_debug_mode_rpc E certs d reason s)"
| "handle E certs GetDebugStatus s = answer (get_debug_status_rpc E certs s)"
| "handle E certs (CollectCrashDump k u) s = answer (collect_crash_dump_rpc E certs k u s)"
| "handle E certs (StreamLogs l c n) s = answer (stream_logs E certs l c n s)"
| "handle E certs (CreateSystemSnapshot l c g) s = answer (create_system_snapshot_rpc E certs l c g s)"
| "handle E certs (EnableRecoveryMode d reason) s = answer (enable_recovery_mode_rpc E certs d reason s)"
| "handle E certs (AnalyzeCrashDump p) s = answer (analyze_crash_dump_rpc E certs p s)"

section \<open>What a handler may touch\<close>

text \<open>
  The contract of a handler that an operator may call: it leaves the debug and recovery
  sessions alone, and of the files it may change only those \<open>may s\<close> allows.
\<close>

locale operator_handler =
  fixes h :: "'c service \<Rightarrow> (status + 'a) \<times> 'c service" and may :: "'c service \<Rightarrow> string \<Rightarrow> bool"
  assumes keeps_diag: "sc_diag (snd (h s)) = sc_diag s"
    and keeps_files: "\<not> may s f \<Longrightarrow> fs_files (sc_fs (snd (h s))) f = fs_files (sc_fs s) f"
begin

lemma confined:
  assumes "\<forall>f\<in>F. \<not> may s f"
  shows "sc_diag (snd (answer (h s))) = sc_diag s \<and>
    (\<forall>f\<in>F. fs_files (sc_fs (snd (answer (h s)))) f = fs_files (sc_fs s) f)"
proof -
  have "snd (answer (h s)) = snd (h s)"
    by (cases "h s"; cases "fst (h s)") auto
  then show ?thesis
    using assms by (simp add: keeps_diag keeps_files)
qed

end

text \<open>A handler that only reads.\<close>

locale reading_handler =
  fixes h :: "'c service \<Rightarrow> (status + 'a) \<times> 'c service"
  assumes reads: "snd (h s) = s"
begin

lemma answered_reads: "snd (answer (h s)) = s"
  using reads [of s] by (cases "h s"; cases "fst (h s)") auto

end

lemma guarded_cases:
  obtains (denied) e where "authorize (se_orgs E) certs required = Err e" "guarded E certs required body s = (Err e, s)"
  | (granted) "authorize (se_orgs E) certs required = Ok ()" "guarded E certs required body s = body s"
  by (cases "authorize (se_orgs E) certs required") (auto simp: guarded_def)

lemma guarded_state:
  "(\<And>s. P s (snd (body s))) \<Longrightarrow> (\<And>s. P s s) \<Longrightarrow> P s (snd (guarded E certs required body s))"
  by (cases rule: guarded_cases [of E certs required body s]) auto

lemma set_fs_simps [simp]:
  "sc_diag (set_fs fs s) = sc_diag s" "sc_fs (set_fs fs s) = fs" "sc_sched (set_fs fs s) = sc_sched s"
  by (simp_all add: set_fs_def)

section \<open>The stream of an update\<close>

lemma install_stream_stages:
  assumes "install_stream U req n w = ((msgs, err), w')"
  obtains (early) "w' = w" "\<forall>p\<in>set msgs. \<not> up_success p"
  | (flashed) inactive r where "get_inactive_partition w = Ok inactive" "4 \<le> n"
      "install_flash U req (part_device inactive) w = (r, w')" "\<forall>p\<in>set msgs. \<not> up_success p"
  | (switched) inactive saved w1 r where "get_inactive_partition w = Ok inactive" "5 \<le> n"
      "install_flash U req (part_device inactive) w = (Ok saved, w1)"
      "switch_boot_partition (ue_sgdisk U) (part_index inactive) w1 = (r, w')"
      "(\<exists>p\<in>set msgs. up_success p) \<longleftrightarrow> r = Ok ()"
proof (cases "n \<le> 1 \<or> (\<exists>e. get_inactive_partition w = Err e)")
  case True
  then show ?thesis
    using assms early by (auto simp: install_stream_def Let_def progress_def split: if_splits sum.splits)
next
  case False
  then obtain inactive where i: "get_inactive_partition w = Ok inactive"
    by (cases "get_inactive_partition w") auto
  obtain r1 w1 where f: "install_flash U req (part_device inactive) w = (r1, w1)" by force
  obtain r2 w2 where sw: "switch_boot_partition (ue_sgdisk U) (part_index inactive) w1 = (r2, w2)" by force
  consider "n \<le> 3" | "4 \<le> n" "n = 4 \<or> (\<exists>e. r1 = Err e)" | saved where "5 \<le> n" "r1 = Ok saved"
    by (cases r1) fastforce+
  then show ?thesis
  proof cases
    case 1
    then show ?thesis
      using assms i False early by (auto simp: install_stream_def Let_def progress_def split: if_splits)
  next
    case 2
    then show ?thesis
      using assms i f flashed [OF i] by (cases r1) (auto simp: install_stream_def Let_def progress_def split: if_splits)
  next
    case 3
    then show ?thesis
      using assms i f sw switched [OF i] by (cases r2) (auto simp: install_stream_def Let_def progress_def split: if_splits)
  qed
qed

lemma install_flash_frame:
  assumes "install_flash U req dev w = (r, w')"
  shows "dk_flags w' = dk_flags w" "Inr f \<noteq> ue_tmp U \<Longrightarrow> fs_files (dk_fs w') f = fs_files (dk_fs w) f"
    "fs_read_err (dk_fs w') = fs_read_err (dk_fs w)"
    "r = Ok saved \<Longrightarrow> holds_image (ue_sha256 U) (non_empty (iu_expected_sha256 req)) dev w'"
  using assms image_writer.write_flags image_writer.write_files image_writer.write_reads image_writer.write_verified
  unfolding install_flash_def by (metis snd_conv)+

lemma install_stream_files:
  assumes "install_stream U req n w = ((msgs, err), w')" "Inr f \<noteq> ue_tmp U" "f \<noteq> ''/tmp/boot.next''"
  shows "fs_files (dk_fs w') f = fs_files (dk_fs w) f \<and> fs_read_err (dk_fs w') = fs_read_err (dk_fs w)"
  using assms(1)
proof (cases rule: install_stream_stages)
  case (flashed inactive r)
  then show ?thesis using install_flash_frame [OF flashed(3)] assms(2) by simp
next
  case (switched inactive saved w1 r)
  then show ?thesis
    using install_flash_frame [OF switched(3)] switch_frame [OF switched(4)] assms(2,3) by simp
qed simp

lemma install_stream_healthy:
  assumes "install_stream U req n w = ((msgs, err), w')"
  shows "healthy_fs (dk_fs w') = healthy_fs (dk_fs w)"
proof -
  have flash: "healthy_fs (dk_fs w2) = healthy_fs (dk_fs w1)" if "install_flash U req dev w1 = (r, w2)" for dev r w1 w2
    using that image_writer.write_reads image_writer.write_faults
    unfolding install_flash_def healthy_fs_def by (metis snd_conv)
  from assms show ?thesis
  proof (cases rule: install_stream_stages)
    case (flashed inactive r)
    then show ?thesis using flash by blast
  next
    case (switched inactive saved w1 r)
    then show ?thesis using flash [OF switched(3)] switch_frame [OF switched(4)] by (simp add: healthy_fs_def)
  qed simp
qed

text \<open>What an update by request leaves of the things a rollback needs.\<close>

lemma install_update_rollback_state:
  assumes "install_update E certs req n s = (r, s1)" "\<forall>f\<in>boot_files. ue_tmp (se_update E) \<noteq> Inr f"
  shows "load_rollback_state js (sc_disks s1) = load_rollback_state js (sc_disks s)"
    "healthy_fs (sc_fs s1) = healthy_fs (sc_fs s)" "has_sgdisk (sc_fs s1) = has_sgdisk (sc_fs s)"
proof -
  consider "s1 = s" | msgs err w' where "install_stream (se_update E) req n (sc_disks s) = ((msgs, err), w')" "s1 = s\<lparr>sc_disks := w'\<rparr>"
    using assms(1) by (auto simp: install_update_def guarded_def split: prod.splits sum.splits)
  then have "load_rollback_state js (sc_disks s1) = load_rollback_state js (sc_disks s) \<and>
    healthy_fs (sc_fs s1) = healthy_fs (sc_fs s) \<and> has_sgdisk (sc_fs s1) = has_sgdisk (sc_fs s)"
  proof cases
    case (2 msgs err w')
    have "fs_files (dk_fs w') f = fs_files (sc_fs s) f \<and> fs_read_err (dk_fs w') = fs_read_err (sc_fs s)" if "f \<in> boot_files" for f
      using install_stream_files [OF 2(1), of f] assms(2) that by (auto simp: boot_files_def boot_next_not_state)
    then show ?thesis
      using install_stream_healthy [OF 2(1)] 2(2)
      by (auto simp: has_sgdisk_def boot_files_def intro!: load_rollback_state_cong)
  qed simp
  then show "load_rollback_state js (sc_disks s1) = load_rollback_state js (sc_disks s)"
    "healthy_fs (sc_fs s1) = healthy_fs (sc_fs s)" "has_sgdisk (sc_fs s1) = has_sgdisk (sc_fs s)" by blast+
qed

text \<open>A stream that is read to its end fails, or ends with the message of success.\<close>

lemma install_stream_all: "5 \<le> n \<Longrightarrow> install_stream U req n w = install_stream U req 5 w"
  by (auto simp: install_stream_def Let_def split: sum.splits prod.splits)

lemma install_stream_whole:
  assumes "install_stream U req n w = ((msgs, err), w')" "5 \<le> n"
  shows "(err = None \<longleftrightarrow> (\<exists>p\<in>set msgs. up_success p)) \<and>
    (err = None \<longleftrightarrow> (\<exists>inactive saved w1. get_inactive_partition w = Ok inactive \<and>
       install_flash U req (part_device inactive) w = (Ok saved, w1) \<and>
       holds_image (ue_sha256 U) (non_empty (iu_expected_sha256 req)) (part_device inactive) w' \<and>
       switch_boot_partition (ue_sgdisk U) (part_index inactive) w1 = (Ok (), w')))"
proof (cases "get_inactive_partition w")
  case (Inl e)
  then show ?thesis using assms by (auto simp: install_stream_def Let_def progress_def)
next
  case (Inr inactive)
  obtain r1 w1 where f: "install_flash U req (part_device inactive) w = (r1, w1)" by force
  show ?thesis
  proof (cases r1)
    case (Inl e)
    then show ?thesis using assms Inr f by (auto simp: install_stream_def Let_def progress_def)
  next
    case r1: (Inr saved)
    obtain r2 w2 where sw: "switch_boot_partition (ue_sgdisk U) (part_index inactive) w1 = (r2, w2)" by force
    have "holds_image (ue_sha256 U) (non_empty (iu_expected_sha256 req)) (part_device inactive) w1"
      using install_flash_frame(4) [OF f] r1 by blast
    then have "holds_image (ue_sha256 U) (non_empty (iu_expected_sha256 req)) (part_device inactive) w2"
      using switch_frame [OF sw] by (simp add: holds_image_def)
    then show ?thesis
      using assms Inr f r1 sw by (cases r2) (auto simp: install_stream_def Let_def progress_def)
  qed
qed

section \<open>The handlers keep their contracts\<close>

interpretation install_handler: operator_handler
  "install_update E certs req n" "\<lambda>s f. Inr f = ue_tmp (se_update E) \<or> f = ''/tmp/boot.next''" for E certs req n
proof
  fix s :: "'a service" and f
  show "sc_diag (snd (install_update E certs req n s)) = sc_diag s"
    unfolding install_update_def by (rule guarded_state [where P = "\<lambda>s t. sc_diag t = sc_diag s"]) (simp_all split: prod.splits)
  assume "\<not> (Inr f = ue_tmp (se_update E) \<or> f = ''/tmp/boot.next'')"
  then show "fs_files (sc_fs (snd (install_update E certs req n s))) f = fs_files (sc_fs s) f"
    unfolding install_update_def
    by (intro guarded_state [where P = "\<lambda>s t. fs_files (sc_fs t) f = fs_files (sc_fs s) f"])
      (auto split: prod.splits dest: install_stream_files)
qed

lemma persist_schedules_files:
  "f \<noteq> storage_path sch \<Longrightarrow> fs_files (snd (persist_schedules js sch fs)) f = fs_files fs f"
  by (auto simp: persist_schedules_def Let_def dest!: fs_write_frameD create_dir_all_frameD split: sum.splits prod.splits option.splits)

lemma schedule_update_files:
  "schedule_update js now uuid url sha at window auto timeout pre post delta fallback full sch fs = (r, sch', fs') \<Longrightarrow>
     f \<noteq> storage_path sch \<Longrightarrow> fs_files fs' f = fs_files fs f"
  by (auto simp: schedule_update_def Let_def persist_then_eq persist_schedules_files)

lemma cancel_schedule_files:
  "cancel_schedule js i sch fs = (r, sch', fs') \<Longrightarrow> f \<noteq> storage_path sch \<Longrightarrow> fs_files fs' f = fs_files fs f"
  by (auto simp: cancel_schedule_def persist_then_eq persist_schedules_files split: option.splits if_splits)

interpretation schedule_handler: operator_handler
  "schedule_update_rpc E certs req" "\<lambda>s f. f = storage_path (sc_sched s)" for E certs req
proof
  fix s :: "'a service" and f
  show "sc_diag (snd (schedule_update_rpc E certs req s)) = sc_diag s"
    unfolding schedule_update_rpc_def
    by (rule guarded_state [where P = "\<lambda>s t. sc_diag t = sc_diag s"]) (simp_all split: prod.splits sum.splits)
  assume "f \<noteq> storage_path (sc_sched s)"
  then show "fs_files (sc_fs (snd (schedule_update_rpc E certs req s))) f = fs_files (sc_fs s) f"
    unfolding schedule_update_rpc_def
    by (intro guarded_state [where P = "\<lambda>s t. f \<noteq> storage_path (sc_sched s) \<longrightarrow> fs_files (sc_fs t) f = fs_files (sc_fs s) f",
          THEN mp]) (auto split: prod.splits sum.splits dest: schedule_update_files)
qed

interpretation cancel_handler: operator_handler
  "cancel_scheduled_update E certs i" "\<lambda>s f. f = storage_path (sc_sched s)" for E certs i
proof
  fix s :: "'a service" and f
  show "sc_diag (snd (cancel_scheduled_update E certs i s)) = sc_diag s"
    unfolding cancel_scheduled_update_def
    by (rule guarded_state [where P = "\<lambda>s t. sc_diag t = sc_diag s"]) (simp_all split: prod.splits)
  assume "f \<noteq> storage_path (sc_sched s)"
  then show "fs_files (sc_fs (snd (cancel_scheduled_update E certs i s))) f = fs_files (sc_fs s) f"
    unfolding cancel_scheduled_update_def
    by (intro guarded_state [where P = "\<lambda>s t. f \<noteq> storage_path (sc_sched s) \<longrightarrow> fs_files (sc_fs t) f = fs_files (sc_fs s) f",
          THEN mp]) (auto split: prod.splits dest: cancel_schedule_files)
qed

lemma write_pair_files:
  "write_pair cert key cp kp fs = (r, fs') \<Longrightarrow> q \<notin> {cert, key} \<Longrightarrow> fs_files fs' q = fs_files fs q"
  by (auto simp: write_pair_def fs_write_def split: option.splits write_fault.splits)

interpretation rotate_handler: operator_handler
  "rotate_certificate E certs force" "\<lambda>s f. f \<in> set (pair_paths operational_cert operational_key)" for E certs force
proof
  fix s :: "'a service" and f
  show "sc_diag (snd (rotate_certificate E certs force s)) = sc_diag s"
    unfolding rotate_certificate_def
    by (rule guarded_state [where P = "\<lambda>s t. sc_diag t = sc_diag s"]) (simp_all split: prod.splits sum.splits option.splits)
  assume f: "f \<notin> set (pair_paths operational_cert operational_key)"
  then have "fs_files (backup_pair operational_cert operational_key fs) f = fs_files fs f" for fs
    using backup_pair_frame(2) [OF demo_paths_distinct] by (simp add: pair_paths_def)
  moreover have "f \<notin> {operational_cert, operational_key}"
    using f by (simp add: pair_paths_def)
  ultimately show "fs_files (sc_fs (snd (rotate_certificate E certs force s))) f = fs_files (sc_fs s) f"
    unfolding rotate_certificate_def
    by (intro guarded_state [where P = "\<lambda>s t. fs_files (sc_fs t) f = fs_files (sc_fs s) f"])
      (auto split: prod.splits sum.splits option.splits dest: write_pair_files)
qed

lemma collect_crash_dump_files:
  assumes "collect_crash_dump stamp created dmesg ps k u fs = (r, fs')" "f \<noteq> ''/var/lib/keel/crash-dumps/crash-'' @ stamp @ ''.txt''"
  shows "fs_files fs' f = fs_files fs f"
  using assms by (auto simp: collect_crash_dump_def collect_crash_dump_to_def Let_def
    dest!: fs_write_frameD create_dir_all_frameD split: sum.splits prod.splits)

lemma create_system_snapshot_files:
  assumes "create_system_snapshot i stamp created dmesg l c g fs = (r, fs')" "f \<noteq> ''/var/lib/keel/snapshots/snapshot-'' @ stamp @ ''.txt''"
  shows "fs_files fs' f = fs_files fs f"
  using assms by (auto simp: create_system_snapshot_def create_system_snapshot_to_def Let_def
    dest!: fs_write_frameD create_dir_all_frameD split: sum.splits prod.splits)

interpretation dump_handler: operator_handler
  "collect_crash_dump_rpc E certs k u" "\<lambda>s f. f = ''/var/lib/keel/crash-dumps/crash-'' @ se_file_stamp E @ ''.txt''" for E certs k u
proof
  fix s :: "'a service" and f
  show "sc_diag (snd (collect_crash_dump_rpc E certs k u s)) = sc_diag s"
    unfolding collect_crash_dump_rpc_def
    by (rule guarded_state [where P = "\<lambda>s t. sc_diag t = sc_diag s"]) (simp_all split: prod.splits sum.splits)
  assume "f \<noteq> ''/var/lib/keel/crash-dumps/crash-'' @ se_file_stamp E @ ''.txt''"
  then show "fs_files (sc_fs (snd (collect_crash_dump_rpc E certs k u s))) f = fs_files (sc_fs s) f"
    unfolding collect_crash_dump_rpc_def
    by (intro guarded_state [where P = "\<lambda>s t. fs_files (sc_fs t) f = fs_files (sc_fs s) f"])
      (auto split: prod.splits sum.splits dest: collect_crash_dump_files)
qed

interpretation snapshot_handler: operator_handler
  "create_system_snapshot_rpc E certs l c g" "\<lambda>s f. f = ''/var/lib/keel/snapshots/snapshot-'' @ se_file_stamp E @ ''.txt''" for E certs l c g
proof
  fix s :: "'a service" and f
  show "sc_diag (snd (create_system_snapshot_rpc E certs l c g s)) = sc_diag s"
    unfolding create_system_snapshot_rpc_def
    by (rule guarded_state [where P = "\<lambda>s t. sc_diag t = sc_diag s"]) (simp_all split: prod.splits sum.splits)
  assume "f \<noteq> ''/var/lib/keel/snapshots/snapshot-'' @ se_file_stamp E @ ''.txt''"
  then show "fs_files (sc_fs (snd (create_system_snapshot_rpc E certs l c g s))) f = fs_files (sc_fs s) f"
    unfolding create_system_snapshot_rpc_def
    by (intro guarded_state [where P = "\<lambda>s t. fs_files (sc_fs t) f = fs_files (sc_fs s) f"])
      (auto split: prod.splits sum.splits dest: create_system_snapshot_files)
qed

interpretation status_reader: reading_handler "get_status E certs" for E certs
  by unfold_locales (auto simp: get_status_def intro!: guarded_state [where P = "\<lambda>s t. t = s"])

interpretation schedules_reader: reading_handler "get_update_schedule E certs" for E certs
  by unfold_locales (auto simp: get_update_schedule_def intro!: guarded_state [where P = "\<lambda>s t. t = s"])

interpretation history_reader: reading_handler "get_rollback_history E certs" for E certs
  by unfold_locales (auto simp: get_rollback_history_def intro!: guarded_state [where P = "\<lambda>s t. t = s"])

interpretation bootstrap_reader: reading_handler "get_bootstrap_status_rpc E certs" for E certs
  by unfold_locales (auto simp: get_bootstrap_status_rpc_def intro!: guarded_state [where P = "\<lambda>s t. t = s"])

interpretation netconfig_reader: reading_handler "get_network_config_rpc E certs" for E certs
  by unfold_locales (auto simp: get_network_config_rpc_def intro!: guarded_state [where P = "\<lambda>s t. t = s"])

interpretation netstatus_reader: reading_handler "get_network_status_rpc E certs" for E certs
  by unfold_locales (auto simp: get_network_status_rpc_def intro!: guarded_state [where P = "\<lambda>s t. t = s"])

interpretation debug_reader: reading_handler "get_debug_status_rpc E certs" for E certs
  by unfold_locales (auto simp: get_debug_status_rpc_def intro!: guarded_state [where P = "\<lambda>s t. t = s"])

interpretation log_reader: reading_handler "stream_logs E certs l c n" for E certs l c n
  by unfold_locales (auto simp: stream_logs_def intro!: guarded_state [where P = "\<lambda>s t. t = s"] split: cmd_outcome.splits)

interpretation dump_reader: reading_handler "analyze_crash_dump_rpc E certs p" for E certs p
  by unfold_locales (auto simp: analyze_crash_dump_rpc_def intro!: guarded_state [where P = "\<lambda>s t. t = s"])

interpretation reboot_reader: reading_handler "reboot E certs reason" for E certs reason
  by unfold_locales (auto simp: reboot_def intro!: guarded_state [where P = "\<lambda>s t. t = s"])

interpretation init_handler: operator_handler
  "init_bootstrap E pem" "\<lambda>s f. f = trusted_clients @ ''/client-'' @ se_cert_hash E pem @ ''.pem''" for E pem
  by unfold_locales (auto simp: init_bootstrap_def dest!: fs_write_frameD create_dir_all_frameD split: sum.splits prod.splits)

lemmas reading_answers =
  status_reader.answered_reads schedules_reader.answered_reads history_reader.answered_reads bootstrap_reader.answered_reads
  netconfig_reader.answered_reads netstatus_reader.answered_reads debug_reader.answered_reads log_reader.answered_reads
  dump_reader.answered_reads reboot_reader.answered_reads

section \<open>Roles\<close>

text \<open>The role a request asks for; \<open>None\<close> when it asks for none.\<close>

fun required_role :: "request \<Rightarrow> role option" where
  "required_role (InitBootstrap pem) = None"
| "required_role (Reboot reason) = Some Admin"
| "required_role (TriggerRollback reason) = Some Admin"
| "required_role (BootstrapKubernetes req) = Some Admin"
| "required_role (ConfigureNetwork req) = Some Admin"
| "required_role (EnableDebugMode d reason) = Some Admin"
| "required_role (EnableRecoveryMode d reason) = Some Admin"
| "required_role (InstallUpdate req n) = Some Operator"
| "required_role (ScheduleUpdate req) = Some Operator"
| "required_role (CancelScheduledUpdate i) = Some Operator"
| "required_role (RotateCertificate force) = Some Operator"
| "required_role (CollectCrashDump k u) = Some Operator"
| "required_role (StreamLogs l c n) = Some Operator"
| "required_role (CreateSystemSnapshot l c g) = Some Operator"
| "required_role (AnalyzeCrashDump p) = Some Operator"
| "required_role r = Some Viewer"

lemmas guarded_handlers =
  get_status_def reboot_def install_update_def schedule_update_rpc_def get_update_schedule_def cancel_scheduled_update_def
  get_health_def trigger_rollback_rpc_def get_rollback_history_def bootstrap_kubernetes_rpc_def get_bootstrap_status_rpc_def
  rotate_certificate_def configure_network_rpc_def get_network_config_rpc_def get_network_status_rpc_def enable_debug_mode_rpc_def
  get_debug_status_rpc_def collect_crash_dump_rpc_def stream_logs_def create_system_snapshot_rpc_def enable_recovery_mode_rpc_def
  analyze_crash_dump_rpc_def

lemma handle_denied:
  assumes "required_role r = Some required" "authorize (se_orgs E) certs required = Err e"
  shows "handle E certs r s = (Some e, s)"
  using assms by (cases r) (simp_all add: guarded_handlers guarded_def)

lemma authorize_short:
  assumes "role_from_cert_der orgs c = Ok role" "\<not> has_permission role required"
  obtains e where "authorize orgs (Some (c # cs)) required = Err e"
  using assms by (simp add: authorize_def)

definition admin_files :: "string set" where
  "admin_files = {CONFIG_PATH, ca_path, kubelet_kubeconfig, bootstrap_state, restart_signal, ROLLBACK_STATE_FILE}"

lemmas admin_paths = admin_files_def CONFIG_PATH_def ca_path_def kubelet_kubeconfig_def bootstrap_state_def restart_signal_def
  ROLLBACK_STATE_FILE_def

lemma admin_files_apart:
  assumes "f \<in> admin_files"
  shows "f \<noteq> ''/tmp/boot.next''" "f \<notin> set (pair_paths operational_cert operational_key)"
    "f \<noteq> ''/var/lib/keel/crash-dumps/crash-'' @ x" "f \<noteq> ''/var/lib/keel/snapshots/snapshot-'' @ x"
    "f \<noteq> trusted_clients @ x"
  using assms by (auto simp: admin_paths pair_paths_def operational_cert_def operational_key_def trusted_clients_def)

lemma get_health_state: "snd (answer (get_health E certs s)) = s\<lparr>sc_health := sc_health (snd (answer (get_health E certs s)))\<rparr>"
  by (cases rule: guarded_cases [of E certs Viewer _ s]) (auto simp: get_health_def guarded_def split: prod.splits)

text \<open>A request of an operator or of the unauthenticated bootstrap leaves the administrator's files and sessions alone.\<close>

lemma handle_operator:
  assumes "required_role r \<noteq> Some Admin" "storage_path (sc_sched s) \<notin> admin_files" "ue_tmp (se_update E) \<notin> Inr ` admin_files"
  shows "sc_diag (snd (handle E certs r s)) = sc_diag s \<and>
     (\<forall>f\<in>admin_files. fs_files (sc_fs (snd (handle E certs r s))) f = fs_files (sc_fs s) f)"
proof (cases r)
  case (InstallUpdate req n)
  have "\<forall>f\<in>admin_files. \<not> (Inr f = ue_tmp (se_update E) \<or> f = ''/tmp/boot.next'')"
    using assms(3) admin_files_apart(1) by force
  then show ?thesis using InstallUpdate install_handler.confined by simp
next
  case (ScheduleUpdate req)
  then show ?thesis using assms(2) schedule_handler.confined [of admin_files s] by auto
next
  case (CancelScheduledUpdate i)
  then show ?thesis using assms(2) cancel_handler.confined [of admin_files s] by auto
next
  case (RotateCertificate force)
  have "\<forall>f\<in>admin_files. \<not> f \<in> set (pair_paths operational_cert operational_key)"
    using admin_files_apart(2) by blast
  then show ?thesis unfolding RotateCertificate handle.simps by (rule rotate_handler.confined)
next
  case (CollectCrashDump k u)
  have "\<forall>f\<in>admin_files. \<not> f = ''/var/lib/keel/crash-dumps/crash-'' @ se_file_stamp E @ ''.txt''"
    using admin_files_apart(3) by blast
  then show ?thesis unfolding CollectCrashDump handle.simps by (rule dump_handler.confined)
next
  case (CreateSystemSnapshot l c g)
  have "\<forall>f\<in>admin_files. \<not> f = ''/var/lib/keel/snapshots/snapshot-'' @ se_file_stamp E @ ''.txt''"
    using admin_files_apart(4) by blast
  then show ?thesis unfolding CreateSystemSnapshot handle.simps by (rule snapshot_handler.confined)
next
  case (InitBootstrap pem)
  have "\<forall>f\<in>admin_files. \<not> f = trusted_clients @ ''/client-'' @ se_cert_hash E pem @ ''.pem''"
    using admin_files_apart(5) by blast
  then show ?thesis unfolding InitBootstrap handle.simps by (rule init_handler.confined)
next
  case GetHealth
  have "sc_diag (snd (answer (get_health E certs s))) = sc_diag s" "sc_fs (snd (answer (get_health E certs s))) = sc_fs s"
    by (subst get_health_state, simp)+
  then show ?thesis using GetHealth by simp
qed (use assms(1) in \<open>simp_all add: reading_answers\<close>)

lemma handle_viewer:
  assumes "required_role r = Some Viewer"
  shows "snd (handle E certs r s) = s\<lparr>sc_health := sc_health (snd (handle E certs r s))\<rparr>"
proof (cases r)
  case GetHealth
  have "snd (handle E certs GetHealth s) = snd (answer (get_health E certs s))" by simp
  then show ?thesis using get_health_state [of E certs s] GetHealth by metis
qed (use assms in \<open>simp_all add: reading_answers\<close>)

definition demo_service_env :: "(string list, unit, unit) service_env" where
  "demo_service_env =
     \<lparr>se_orgs = (\<lambda>d. Ok [Some ''keel:viewer'']), se_update = demo_env, se_sched_json = demo_json,
      se_boot_json = demo_record_json, se_net_json = demo_net_json, se_cidr = demo_cidr, se_certs = demo_cert_env,
      se_x509 = \<lparr>xp_pem = (\<lambda>s. Ok ()), xp_not_after = (\<lambda>d. Ok 0), xp_in_range = (\<lambda>t. True), xp_certs = (\<lambda>s. Ok []), xp_key = (\<lambda>s. Ok None)\<rparr>,
      se_rfc3339 = (\<lambda>t. []), se_parse_time = (\<lambda>s. Ok 0), se_now = (\<lambda>k. 0), se_uuid = ''u'', se_hostname = Ok ''n1'',
      se_probe = (\<lambda>n. (sick_probe, 0)), se_check_order = [], se_sched_order = [], se_dmesg = SpawnErr [], se_dmesg_iso = SpawnErr [],
      se_ps = SpawnErr [], se_file_stamp = ''1'', se_net_entries = None, se_ip4 = (\<lambda>i. None), se_ip6 = (\<lambda>i. None), se_cert_hash = (\<lambda>s. ''0'')\<rparr>"

definition demo_service :: "string list service" where
  "demo_service = \<lparr>sc_sched = demo_scheduler, sc_health = new_health_checker default_health_config, sc_diag = new_diagnostics_manager,
     sc_disks = demo_disks, sc_cluster = []\<rparr>"

text \<open>
  C2. Privilege separation, for a client whose certificate names the operator or the viewer
  role. No request of such a client changes the debug or recovery session, the stored
  network configuration, the files of the cluster bootstrap or the rollback record; and of
  a viewer, no request but the unauthenticated one for storing a bootstrap certificate
  changes anything but the last health results.
\<close>

theorem privilege_separation:
  assumes role: "role_from_cert_der (se_orgs E) c = Ok role" "role \<noteq> Admin"
    and paths: "storage_path (sc_sched s) \<notin> admin_files" "ue_tmp (se_update E) \<notin> Inr ` admin_files"
    and run: "handle E (Some (c # cs)) r s = (a, s')"
  shows "sc_diag s' = sc_diag s \<and> (\<forall>f\<in>admin_files. fs_files (sc_fs s') f = fs_files (sc_fs s) f) \<and>
    (role = Viewer \<and> (\<forall>pem. r \<noteq> InitBootstrap pem) \<longrightarrow> s' = s\<lparr>sc_health := sc_health s'\<rparr>)"
proof (intro conjI impI)
  have no: "\<exists>e. authorize (se_orgs E) (Some (c # cs)) q = Err e" if "\<not> has_permission role q" for q
    using authorize_short [OF role(1) that] by metis
  have "sc_diag s' = sc_diag s \<and> (\<forall>f\<in>admin_files. fs_files (sc_fs s') f = fs_files (sc_fs s) f)"
  proof (cases "required_role r = Some Admin")
    case True
    have "\<not> has_permission role Admin"
      using role(2) by (cases role) (simp_all add: has_permission_table)
    then obtain e where "authorize (se_orgs E) (Some (c # cs)) Admin = Err e" using no by blast
    then show ?thesis using handle_denied [OF True, of E "Some (c # cs)" _ s] run by simp
  next
    case False
    then show ?thesis using handle_operator [OF False paths, of "Some (c # cs)"] run by simp
  qed
  then show "sc_diag s' = sc_diag s" "\<forall>f\<in>admin_files. fs_files (sc_fs s') f = fs_files (sc_fs s) f" by blast+
  assume v: "role = Viewer \<and> (\<forall>pem. r \<noteq> InitBootstrap pem)"
  show "s' = s\<lparr>sc_health := sc_health s'\<rparr>"
  proof (cases "required_role r = Some Viewer")
    case True
    then show ?thesis using run handle_viewer [OF True, of E "Some (c # cs)" s] by simp
  next
    case False
    then obtain q where q: "required_role r = Some q" "q \<noteq> Viewer" using v by (cases r) auto
    then obtain e where "authorize (se_orgs E) (Some (c # cs)) q = Err e"
      using no [of q] v by (cases q) (auto simp: has_permission_table)
    then show ?thesis using handle_denied [OF q(1), of E "Some (c # cs)" _ s] run by simp
  qed
qed

theorem privilege_separation_witness:
  "\<exists>a s'. handle demo_service_env (Some [()]) (EnableDebugMode 60 ''x'') demo_service = (a, s') \<and>
     sc_diag s' = sc_diag demo_service \<and> s' = demo_service\<lparr>sc_health := sc_health s'\<rparr>"
proof -
  obtain a s' where run: "handle demo_service_env (Some [()]) (EnableDebugMode 60 ''x'') demo_service = (a, s')" by force
  have "role_from_cert_der (se_orgs demo_service_env) () = Ok Viewer"
    by (simp add: role_from_cert_der_def demo_service_env_def role_of_org_def)
  from privilege_separation [OF this _ _ _ run] run show ?thesis
    by (auto simp: demo_service_env_def demo_env_def demo_service_def demo_scheduler_def admin_paths)
qed

text \<open>
  C10. The stream of an update request, for any number of messages the client reads. The
  boot flags change only if the client reads all five, after the image for the inactive
  partition passed the digest check; the message that reports success is sent exactly when
  the switch of the boot partition succeeded; and until the fourth message is asked for
  nothing is written.
\<close>

theorem install_stream_order:
  assumes run: "install_stream U req n w = ((msgs, err), w')"
  shows "(n < 4 \<longrightarrow> w' = w) \<and> (n < 5 \<longrightarrow> dk_flags w' = dk_flags w) \<and>
    (dk_flags w' \<noteq> dk_flags w \<or> (\<exists>p\<in>set msgs. up_success p) \<longrightarrow>
       (\<exists>inactive. get_inactive_partition w = Ok inactive \<and>
          holds_image (ue_sha256 U) (non_empty (iu_expected_sha256 req)) (part_device inactive) w')) \<and>
    ((\<exists>p\<in>set msgs. up_success p) \<longleftrightarrow>
       5 \<le> n \<and> (\<exists>inactive saved w1. get_inactive_partition w = Ok inactive \<and>
          install_flash U req (part_device inactive) w = (Ok saved, w1) \<and>
          switch_boot_partition (ue_sgdisk U) (part_index inactive) w1 = (Ok (), w')))"
  using run
proof (cases rule: install_stream_stages)
  case early
  then show ?thesis using run by (auto simp: install_stream_def Let_def progress_def split: if_splits sum.splits prod.splits)
next
  case (flashed inactive r)
  then show ?thesis
    using install_flash_frame(1) [OF flashed(3)] run
    by (auto simp: install_stream_def Let_def progress_def split: if_splits sum.splits prod.splits)
next
  case (switched inactive saved w1 r)
  have "holds_image (ue_sha256 U) (non_empty (iu_expected_sha256 req)) (part_device inactive) w1"
    using install_flash_frame(4) [OF switched(3)] by blast
  then have "holds_image (ue_sha256 U) (non_empty (iu_expected_sha256 req)) (part_device inactive) w'"
    using switch_frame [OF switched(4)] by (simp add: holds_image_def)
  then show ?thesis using switched by auto
qed

definition demo_install :: install_request where
  "demo_install = \<lparr>iu_source_url = ''u'', iu_expected_sha256 = [], iu_is_delta = False,
     iu_fallback_to_full = False, iu_full_image_url = []\<rparr>"

lemma demo_install_stream:
  "\<exists>w'. install_stream demo_env demo_install 5 demo_disks =
     ((List.map (\<lambda>(pct, m, ok, ph). progress pct m ok ph 0)
        [(0, ''Identifying target partition...'', False, ''preparing''),
         (10, ''Target partition identified: /dev/sda3'', False, ''preparing''),
         (20, ''Downloading and flashing to /dev/sda3...'', False, ''downloading''),
         (80, ''Image flashed. Toggling boot flags...'', False, ''verifying''),
         (100, ''Update installed successfully. Reboot to apply.'', True, ''completed'')], None), w')"
proof -
  let ?w1 = "put_dev ''/dev/sda3'' (demo_device ''CDBB'') demo_disks"
  have fl: "install_flash demo_env demo_install ''/dev/sda3'' demo_disks = (Ok 0, ?w1)"
    by (simp add: install_flash_def flash_image_def demo_install_def flash_full_image_def demo_env_def dev_open_def non_empty_def
        demo_disks_def demo_device_def dev_write_all_def overwrite_def dev_sync_def verify_sha256_def Let_def)
  have "fault_free ?w1"
    by (simp add: fault_free_def demo_disks_def path_exists_def)
  then obtain w2 where "switch_boot_partition demo_sgdisk 3 ?w1 = (Ok (), w2)" using demo_switch_runs [of ?w1 3] by blast
  moreover have "ue_sgdisk demo_env = demo_sgdisk" by (simp add: demo_env_def)
  ultimately show ?thesis
    using fl by (simp add: install_stream_def demo_inactive demo_install_def Let_def)
qed

theorem install_stream_order_witness:
  "\<exists>w'. snd (install_stream demo_env demo_install 5 demo_disks) = w' \<and>
     holds_image (ue_sha256 demo_env) None ''/dev/sda3'' w'"
proof -
  obtain msgs w' where run: "install_stream demo_env demo_install 5 demo_disks = ((msgs, None), w')"
    and m: "\<exists>p\<in>set msgs. up_success p"
    using demo_install_stream by (auto simp: progress_def)
  from install_stream_order [OF run] m run show ?thesis
    by (simp add: demo_inactive demo_install_def non_empty_def)
qed

text \<open>
  C12. An update installed by request does not record the partition it leaves. An administrator's
  request for a rollback after it goes by the record from before the update: with no
  previous partition on that record it is answered with a failure and changes nothing;
  with one, on a node without faults, it succeeds and moves the boot flag to that slot,
  whichever slot the node runs from, so also to the slot that the update has just written.
  No device is written by the rollback.
\<close>

theorem install_then_rollback:
  assumes run: "install_update E certs req n s = (r, s1)"
    and tmp: "\<forall>f\<in>boot_files. ue_tmp (se_update E) \<noteq> Inr f"
    and admin: "authorize (se_orgs E) certs2 Admin = Ok ()"
    and recorded: "previous_partition (load_rollback_state (ue_json (se_update E)) (sc_disks s)) = prev"
    and out: "trigger_rollback_rpc E certs2 reason s1 = (reply, s2)"
  shows "(prev = None \<longrightarrow>
       reply = Ok (False, ''Rollback failed: No previous partition recorded for rollback'') \<and> s2 = s1) \<and>
    (\<forall>i. prev = Some i \<and> sgdisk_runs (ue_sgdisk (se_update E)) \<and> (\<forall>st. json_ok (ue_json (se_update E)) st) \<and>
       healthy_fs (sc_fs s) \<and> has_sgdisk (sc_fs s) \<longrightarrow>
       reply = Ok (True, ''Rollback completed. System will reboot to previous partition.'') \<and>
       dk_flags (sc_disks s2) i \<and> \<not> dk_flags (sc_disks s2) (other_slot i) \<and> dk_dev (sc_disks s2) = dk_dev (sc_disks s1))"
proof (intro conjI [OF impI allI] impI)
  let ?js = "ue_json (se_update E)"
  note kept = install_update_rollback_state [OF run tmp]
  show "reply = Ok (False, ''Rollback failed: No previous partition recorded for rollback'') \<and> s2 = s1" if "prev = None"
    using out recorded admin kept(1) [of ?js] that
    by (auto simp: trigger_rollback_rpc_def guarded_def rollback_to_previous_partition_def)
  fix i
  assume i: "prev = Some i \<and> sgdisk_runs (ue_sgdisk (se_update E)) \<and> (\<forall>st. json_ok ?js st) \<and> healthy_fs (sc_fs s) \<and> has_sgdisk (sc_fs s)"
  then have node: "has_sgdisk (dk_fs (sc_disks s1))" "healthy_fs (dk_fs (sc_disks s1))"
    "previous_partition (load_rollback_state ?js (sc_disks s1)) = Some i"
    using kept recorded by simp_all
  obtain w' where "rollback_to_previous_partition ?js (ue_sgdisk (se_update E)) (sc_disks s1) = (Ok (), w')"
    "dk_flags w' i" "\<not> dk_flags w' (other_slot i)" "dk_dev w' = dk_dev (sc_disks s1)"
    using rollback_runs [OF _ node(1,2) _ node(3)] i by metis
  then show "reply = Ok (True, ''Rollback completed. System will reboot to previous partition.'') \<and>
       dk_flags (sc_disks s2) i \<and> \<not> dk_flags (sc_disks s2) (other_slot i) \<and> dk_dev (sc_disks s2) = dk_dev (sc_disks s1)"
    using out admin by (auto simp: trigger_rollback_rpc_def guarded_def)
qed

text \<open>
  A node that runs from slot A after a scheduled update from slot B: the record names slot B, which
  is where the next update goes.
\<close>

definition demo_recorded :: "string list service" where
  "demo_recorded = demo_service\<lparr>sc_disks := demo_disks\<lparr>dk_fs := (dk_fs demo_disks)\<lparr>fs_files :=
     (fs_files (dk_fs demo_disks))(ROLLBACK_STATE_FILE \<mapsto> ''s3:0:n'')\<rparr>\<rparr>\<rparr>"

theorem install_then_rollback_witness:
  "\<exists>s2. trigger_rollback_rpc demo_service_env None ''bad'' (snd (install_update demo_service_env None demo_install 5 demo_recorded)) =
       (Ok (True, ''Rollback completed. System will reboot to previous partition.''), s2) \<and> dk_flags (sc_disks s2) 3 \<and>
     get_inactive_partition (sc_disks demo_recorded) = Ok \<lparr>part_device = ''/dev/sda3'', part_index = 3\<rparr>"
proof -
  let ?s1 = "snd (install_update demo_service_env None demo_install 5 demo_recorded)"
  let ?js = "ue_json (se_update demo_service_env)"
  have run: "install_update demo_service_env None demo_install 5 demo_recorded =
    (fst (install_update demo_service_env None demo_install 5 demo_recorded), ?s1)" by simp
  obtain reply s2 where out: "trigger_rollback_rpc demo_service_env None ''bad'' ?s1 = (reply, s2)" by force
  have admin: "authorize (se_orgs demo_service_env) (None :: unit list option) Admin = Ok ()" by (simp add: authorize_def)
  have tmp: "\<forall>f\<in>boot_files. ue_tmp (se_update demo_service_env) \<noteq> Inr f"
    using demo_tmp by (simp add: demo_service_env_def)
  have enc: "to_json demo_rollback_json \<lparr>previous_partition = Some 3, boot_counter = 0, last_update_time = None\<rparr> = Ok ''s3:0:n''"
    by (simp add: demo_rollback_json_def show_word_def show_nat.simps digit_char_def)
  have rec: "previous_partition (load_rollback_state ?js (sc_disks demo_recorded)) = Some 3"
    using demo_rollback_json_ok [of "\<lparr>previous_partition = Some 3, boot_counter = 0, last_update_time = None\<rparr>"] enc
    by (auto simp: json_ok_def load_rollback_state_def read_to_string_def demo_recorded_def demo_service_env_def demo_env_def demo_disks_def)
  have libs: "sgdisk_runs (ue_sgdisk (se_update demo_service_env))" "\<forall>st. json_ok ?js st"
    by (simp_all add: demo_service_env_def demo_env_def demo_sgdisk_runs demo_rollback_json_ok)
  have fs: "healthy_fs (sc_fs demo_recorded)" "has_sgdisk (sc_fs demo_recorded)"
    by (simp_all add: healthy_fs_def has_sgdisk_def demo_recorded_def demo_disks_def)
  have "get_active_partition (sc_disks demo_recorded) = get_active_partition demo_disks"
    unfolding demo_active by (simp add: demo_recorded_def disk_eval ROLLBACK_STATE_FILE_def)
  then have "get_inactive_partition (sc_disks demo_recorded) = Ok \<lparr>part_device = ''/dev/sda3'', part_index = 3\<rparr>"
    using demo_inactive by (simp add: get_inactive_partition_def)
  then show ?thesis
    using install_then_rollback [OF run tmp admin rec out] libs fs out by auto
qed

end
