(* ===== verification/Audit_Log.thy ===== *)
theory Audit_Log
  imports Keel_Prelude
begin

text \<open>
  The audit log of the agent (\<open>cmd/keel-agent/src/audit.rs\<close>): the log with its open file,
  the recording of an entry, and the layer that records one entry for every request that
  passes through it. Records are serialised by the mutex around the file, so a history of
  the log is a list of records in the order in which they took it.
\<close>

section \<open>Data\<close>

record audit_entry =
  ae_timestamp :: string
  ae_method :: string
  ae_status :: string
  ae_duration_ms :: u64

text \<open>\<open>al_writer\<close> is the file the open handle appends to.\<close>

record audit_log =
  al_path :: string
  al_writer :: "string option"

section \<open>The log\<close>

text \<open>Opening for appending creates the file when it is missing and leaves its contents.\<close>

definition open_append :: "string \<Rightarrow> fsys \<Rightarrow> (string + string) \<times> fsys" where
  "open_append p fs =
     (case fs_write_err fs p of
        Some (OpenFailed e) \<Rightarrow> (Err e, fs)
      | _ \<Rightarrow> (Ok p, fs\<lparr>fs_files := (fs_files fs)(p \<mapsto> unwrap_or [] (fs_files fs p))\<rparr>))"

text \<open>A write through an open handle; one that fails leaves a part of the line behind.\<close>

definition fs_append :: "string \<Rightarrow> string \<Rightarrow> fsys \<Rightarrow> (string + unit) \<times> fsys" where
  "fs_append p c fs =
     (case fs_write_err fs p of
        Some (WriteFailed e c') \<Rightarrow> (Err e, fs\<lparr>fs_files := (fs_files fs)(p \<mapsto> unwrap_or [] (fs_files fs p) @ c')\<rparr>)
      | _ \<Rightarrow> (Ok (), fs\<lparr>fs_files := (fs_files fs)(p \<mapsto> unwrap_or [] (fs_files fs p) @ c)\<rparr>))"

definition open_file :: "string \<Rightarrow> fsys \<Rightarrow> string option \<times> fsys" where
  "open_file path fs =
     (case (case path_parent path of None \<Rightarrow> (Ok (), fs) | Some parent \<Rightarrow> create_dir_all parent fs) of
        (Inl e, fs1) \<Rightarrow> (None, fs1)
      | (Inr _, fs1) \<Rightarrow>
          (case open_append path fs1 of (Inr f, fs2) \<Rightarrow> (Some f, fs2) | (Inl e, fs2) \<Rightarrow> (None, fs2)))"

definition new_audit_log :: "string \<Rightarrow> fsys \<Rightarrow> audit_log \<times> fsys" where
  "new_audit_log path fs =
     (case open_file path fs of (file, fs1) \<Rightarrow> (\<lparr>al_path = path, al_writer = file\<rparr>, fs1))"

definition record_entry :: "audit_entry json \<Rightarrow> audit_entry \<Rightarrow> audit_log \<Rightarrow> fsys \<Rightarrow> audit_log \<times> fsys" where
  "record_entry js entry log fs =
     (case to_json js entry of
        Inl e \<Rightarrow> (log, fs)
      | Inr line \<Rightarrow>
          (case al_writer log of
             None \<Rightarrow> (log, fs)
           | Some file \<Rightarrow>
               (case fs_append file (line @ nl) fs of
                  (Inr _, fs1) \<Rightarrow> (log, fs1)
                | (Inl e, fs1) \<Rightarrow>
                    (case open_file (al_path log) fs1 of (w, fs2) \<Rightarrow> (log\<lparr>al_writer := w\<rparr>, fs2)))))"

section \<open>The layer\<close>

text \<open>
  A response as the layer sees it: the \<open>grpc-status\<close> header, if there is one, and its text, if
  it is visible ASCII; and the HTTP status.
\<close>

record 'b http_response =
  hr_grpc_status :: "string option option"
  hr_status :: u16
  hr_body :: 'b

definition grpc_codes :: "(string \<times> string) list" where
  "grpc_codes =
     [(''0'', ''OK''), (''1'', ''CANCELLED''), (''2'', ''UNKNOWN''), (''3'', ''INVALID_ARGUMENT''),
      (''4'', ''DEADLINE_EXCEEDED''), (''5'', ''NOT_FOUND''), (''6'', ''ALREADY_EXISTS''), (''7'', ''PERMISSION_DENIED''),
      (''8'', ''RESOURCE_EXHAUSTED''), (''9'', ''FAILED_PRECONDITION''), (''10'', ''ABORTED''), (''11'', ''OUT_OF_RANGE''),
      (''12'', ''UNIMPLEMENTED''), (''13'', ''INTERNAL''), (''14'', ''UNAVAILABLE''), (''15'', ''DATA_LOSS''),
      (''16'', ''UNAUTHENTICATED'')]"

definition grpc_code_name :: "string \<Rightarrow> string" where
  "grpc_code_name code = (case map_of grpc_codes code of Some name \<Rightarrow> name | None \<Rightarrow> ''CODE_'' @ code)"

definition grpc_status_from_response :: "'b http_response \<Rightarrow> string" where
  "grpc_status_from_response resp =
     (case hr_grpc_status resp of
        Some (Some s) \<Rightarrow> grpc_code_name s
      | _ \<Rightarrow> ''HTTP '' @ show_word (hr_status resp))"

text \<open>
  One request through the layer around the service \<open>inner\<close>: its path, the milliseconds it
  took and the clock when it was answered.
\<close>

definition audit_entry_of :: "string \<Rightarrow> nat \<Rightarrow> string \<Rightarrow> string + 'b http_response \<Rightarrow> audit_entry" where
  "audit_entry_of path elapsed stamp result =
     \<lparr>ae_timestamp = stamp, ae_method = path,
      ae_status = (case result of Inr resp \<Rightarrow> grpc_status_from_response resp | Inl e \<Rightarrow> ''ERROR: '' @ e),
      ae_duration_ms = of_nat elapsed\<rparr>"

definition audit_call ::
  "audit_entry json \<Rightarrow> ('q \<Rightarrow> 's \<Rightarrow> (string + 'b http_response) \<times> 's) \<Rightarrow> string \<Rightarrow> nat \<Rightarrow> string \<Rightarrow> 'q \<Rightarrow>
   's \<Rightarrow> audit_log \<Rightarrow> fsys \<Rightarrow> (string + 'b http_response) \<times> 's \<times> audit_log \<times> fsys" where
  "audit_call js inner path elapsed stamp req s log fs =
     (case inner req s of
        (result, s1) \<Rightarrow>
          (case record_entry js (audit_entry_of path elapsed stamp result) log fs of
             (log1, fs1) \<Rightarrow> (result, s1, log1, fs1)))"

text \<open>
  A history of the layer. Between two records the rest of the system may change the file
  system, the faults of the disk included: that is the first component of a call.
\<close>

type_synonym 'q audited_request = "(fsys \<Rightarrow> fsys) \<times> string \<times> nat \<times> string \<times> 'q"

fun audited_run ::
  "audit_entry json \<Rightarrow> ('q \<Rightarrow> 's \<Rightarrow> (string + 'b http_response) \<times> 's) \<Rightarrow> 'q audited_request list \<Rightarrow>
   's \<Rightarrow> audit_log \<Rightarrow> fsys \<Rightarrow> (string + 'b http_response) list \<times> 's \<times> audit_log \<times> fsys" where
  "audited_run js inner [] s log fs = ([], s, log, fs)"
| "audited_run js inner ((others, path, elapsed, stamp, req) # calls) s log fs =
     (case audit_call js inner path elapsed stamp req s log (others fs) of
        (r, s1, log1, fs1) \<Rightarrow>
          (case audited_run js inner calls s1 log1 fs1 of (rs, rest) \<Rightarrow> (r # rs, rest)))"

text \<open>The same requests without the layer.\<close>

fun plain_run :: "('q \<Rightarrow> 's \<Rightarrow> 'r \<times> 's) \<Rightarrow> 'q list \<Rightarrow> 's \<Rightarrow> 'r list \<times> 's" where
  "plain_run inner [] s = ([], s)"
| "plain_run inner (req # reqs) s =
     (case inner req s of (r, s1) \<Rightarrow> (case plain_run inner reqs s1 of (rs, s2) \<Rightarrow> (r # rs, s2)))"

definition request_of :: "'q audited_request \<Rightarrow> 'q" where
  "request_of c = snd (snd (snd (snd c)))"

definition entry_of :: "'q audited_request \<Rightarrow> string + 'b http_response \<Rightarrow> audit_entry" where
  "entry_of c r = audit_entry_of (fst (snd c)) (fst (snd (snd c))) (fst (snd (snd (snd c)))) r"

section \<open>Lemmas\<close>

lemma grpc_codes_table:
  "distinct (List.map fst grpc_codes)" "distinct (List.map snd grpc_codes)"
  "\<forall>n\<in>set (List.map snd grpc_codes). \<forall>c. n \<noteq> ''CODE_'' @ c"
  by (simp_all add: grpc_codes_def)

lemma map_of_distinct_values:
  "distinct (List.map snd xs) \<Longrightarrow> map_of xs a = Some v \<Longrightarrow> map_of xs b = Some v \<Longrightarrow> a = b"
  by (induction xs) (auto split: if_splits dest!: map_of_SomeD, (metis image_eqI snd_conv)+)

lemma grpc_code_name_inject: "grpc_code_name a = grpc_code_name b \<longleftrightarrow> a = b"
proof
  assume eq: "grpc_code_name a = grpc_code_name b"
  have named: "\<forall>c. n \<noteq> ''CODE_'' @ c" if "map_of grpc_codes x = Some n" for x n
    using grpc_codes_table(3) map_of_SomeD [OF that] by force
  show "a = b"
  proof (cases "map_of grpc_codes a"; cases "map_of grpc_codes b")
    fix n m
    assume "map_of grpc_codes a = Some n" "map_of grpc_codes b = Some m"
    then show ?thesis using eq map_of_distinct_values [OF grpc_codes_table(2), of a n b] by (simp add: grpc_code_name_def)
  qed (use eq named in \<open>auto simp: grpc_code_name_def\<close>)
qed simp

lemma split_on_plain: "d \<notin> set xs \<Longrightarrow> split_on d xs = [xs]"
  by (induction d xs rule: split_on.induct) auto

lemma lines_Cons:
  assumes "CHR 0x0A \<notin> set l" "CHR 0x0D \<notin> set l"
  shows "lines (l @ nl @ t) = l # lines t"
proof -
  have "strip_cr l = l"
    using assms(2) last_in_set [of l] by (auto simp: strip_cr_def simp del: last_in_set)
  then show ?thesis
    using split_on_append [of "CHR 0x0A" l t] split_on_plain [OF assms(1)] by (simp add: lines_def Let_def)
qed

lemma lines_of_lines:
  "\<forall>l\<in>set ls. CHR 0x0A \<notin> set l \<and> CHR 0x0D \<notin> set l \<Longrightarrow> lines (concat (List.map (\<lambda>l. l @ nl) ls)) = ls"
  proof (induction ls)
  case (Cons l ls)
  then show ?case using lines_Cons [of l "concat (List.map (\<lambda>l. l @ nl) ls)"] by simp
qed (simp add: lines_def)

text \<open>
  What \<open>serde_json\<close> documents of its compact form: a document is one line, its control
  characters escaped, and it reads back.
\<close>

definition one_line :: "'a json \<Rightarrow> 'a \<Rightarrow> bool" where
  "one_line js x \<longleftrightarrow> json_ok js x \<and>
     (case to_json js x of Inl _ \<Rightarrow> False | Inr l \<Rightarrow> CHR 0x0A \<notin> set l \<and> CHR 0x0D \<notin> set l)"

lemma one_lineE:
  assumes "one_line js x"
  obtains l where "to_json js x = Ok l" "from_json js l = Ok x" "CHR 0x0A \<notin> set l" "CHR 0x0D \<notin> set l"
  using assms by (auto simp: one_line_def json_ok_def split: sum.splits)

text \<open>A call before which the rest of the system leaves the log file and the faults of its writes alone.\<close>

definition undisturbed :: "string \<Rightarrow> 'q audited_request \<Rightarrow> bool" where
  "undisturbed p c \<longleftrightarrow> (\<forall>fs. fs_files (fst c fs) p = fs_files fs p \<and> fs_write_err (fst c fs) p = fs_write_err fs p)"

lemma record_entry_closed:
  "al_writer log = None \<Longrightarrow> record_entry js entry log fs = (log, fs)"
  by (simp add: record_entry_def split: sum.splits)

lemma record_entry_open:
  assumes "al_writer log = Some p" "fs_write_err fs p = None" "to_json js entry = Ok l"
  shows "record_entry js entry log fs =
    (log, fs\<lparr>fs_files := (fs_files fs)(p \<mapsto> unwrap_or [] (fs_files fs p) @ l @ nl)\<rparr>)"
  using assms by (simp add: record_entry_def fs_append_def)

lemma audited_run_ConsE:
  assumes "audited_run js inner (c # calls) s log fs = (rs, s', rest)"
  obtains r s1 log1 fs1 rs1 where "inner (request_of c) s = (r, s1)"
    "record_entry js (entry_of c r) log (fst c fs) = (log1, fs1)"
    "audited_run js inner calls s1 log1 fs1 = (rs1, s', rest)" "rs = r # rs1"
proof -
  obtain others path elapsed stamp req where c: "c = (others, path, elapsed, stamp, req)" by (cases c) auto
  obtain r s1 where 1: "inner req s = (r, s1)" by force
  obtain log1 fs1 where 2: "record_entry js (audit_entry_of path elapsed stamp r) log (others fs) = (log1, fs1)" by force
  obtain rs1 rest1 where 3: "audited_run js inner calls s1 log1 fs1 = (rs1, rest1)" by (metis surj_pair)
  show thesis
    using assms 1 2 3 that by (simp add: c audit_call_def request_of_def entry_of_def)
qed

lemma audited_run_transparent:
  "audited_run js inner calls s log fs = (rs, s', rest) \<Longrightarrow> plain_run inner (List.map request_of calls) s = (rs, s')"
proof (induction calls arbitrary: s log fs rs)
  case (Cons c calls)
  from Cons(2) show ?case by (rule audited_run_ConsE) (use Cons(1) in simp)
qed simp

lemma audited_run_closed:
  "al_writer log = None \<Longrightarrow> audited_run js inner calls s log fs = (rs, s', log', fs') \<Longrightarrow>
     log' = log \<and> fs' = fold fst calls fs"
proof (induction calls arbitrary: s log fs rs)
  case (Cons c calls)
  from Cons(3) show ?case
    by (rule audited_run_ConsE) (use Cons(1,2) record_entry_closed [OF Cons(2)] in simp)
qed simp

lemma audited_run_open:
  assumes "al_writer log = Some p" "\<forall>c\<in>set calls. undisturbed p c"
    and "audited_run js inner calls s log fs = (rs, s', log', fs')"
    and "\<forall>e\<in>set (map2 entry_of calls rs). one_line js e" "fs_write_err fs p = None"
  shows "\<exists>ls. unwrap_or [] (fs_files fs' p) = unwrap_or [] (fs_files fs p) @ concat (List.map (\<lambda>l. l @ nl) ls) \<and>
     list_all2 (\<lambda>l e. to_json js e = Ok l) ls (map2 entry_of calls rs)"
  using assms(2-5)
proof (induction calls arbitrary: s fs rs)
  case (Cons c calls)
  from Cons(3) obtain r s1 log1 fs1 rs1 where r: "record_entry js (entry_of c r) log (fst c fs) = (log1, fs1)"
    "audited_run js inner calls s1 log1 fs1 = (rs1, s', log', fs')" "rs = r # rs1"
    by (rule audited_run_ConsE)
  have "one_line js (entry_of c r)" "\<forall>e\<in>set (map2 entry_of calls rs1). one_line js e"
    using Cons(4) r(3) by simp_all
  then obtain l where l: "to_json js (entry_of c r) = Ok l" by (auto elim: one_lineE)
  have u: "fs_files (fst c fs) p = fs_files fs p" "fs_write_err (fst c fs) p = None"
    using Cons(2,5) by (auto simp: undisturbed_def)
  have log: "log1 = log" and fs1: "unwrap_or [] (fs_files fs1 p) = unwrap_or [] (fs_files fs p) @ l @ nl"
    and "fs_write_err fs1 p = None"
    using record_entry_open [OF assms(1) u(2) l] r(1) u by auto
  have "\<forall>c\<in>set calls. undisturbed p c" using Cons(2) by simp
  from Cons(1) [OF this r(2) [unfolded log] \<open>\<forall>e\<in>set (map2 entry_of calls rs1). one_line js e\<close> \<open>fs_write_err fs1 p = None\<close>] obtain ls
    where "unwrap_or [] (fs_files fs' p) = unwrap_or [] (fs_files fs1 p) @ concat (List.map (\<lambda>l. l @ nl) ls)"
      "list_all2 (\<lambda>l e. to_json js e = Ok l) ls (map2 entry_of calls rs1)" by blast
  then show ?case
    using l r(3) fs1 by (intro exI [of _ "l # ls"]) simp
qed simp

lemma entries_lines:
  assumes "\<forall>e\<in>set es. one_line js e" "list_all2 (\<lambda>l e. to_json js e = Ok l) ls es"
  shows "List.map (from_json js) (lines (concat (List.map (\<lambda>l. l @ nl) ls))) = List.map Ok es"
proof -
  have "(\<forall>l\<in>set ls. CHR 0x0A \<notin> set l \<and> CHR 0x0D \<notin> set l) \<and> List.map (from_json js) ls = List.map Ok es"
    using assms(2,1)
  proof (induction ls es rule: list_all2_induct)
    case (Cons l ls e es)
    then have "one_line js e" by simp
    then show ?case by (rule one_lineE) (use Cons in auto)
  qed simp
  then show ?thesis using lines_of_lines [of ls] by simp
qed

lemma new_audit_log_open:
  assumes "new_audit_log path fs = (log, fs')" "al_writer log \<noteq> None"
  shows "al_writer log = Some path \<and> fs_files fs' path = Some (unwrap_or [] (fs_files fs path)) \<and> fs_write_err fs' = fs_write_err fs"
  using assms
  by (auto simp: new_audit_log_def open_file_def open_append_def dest!: create_dir_all_frameD
      split: prod.splits option.splits sum.splits write_fault.splits)

lemma record_entry_gives_up:
  assumes "record_entry js entry log fs = (log1, fs1)"
  shows "al_writer log1 = None \<longleftrightarrow> al_writer log = None \<or>
      (\<exists>file line e c. al_writer log = Some file \<and> to_json js entry = Ok line \<and> fs_write_err fs file = Some (WriteFailed e c) \<and>
         fst (open_file (al_path log) (snd (fs_append file (line @ nl) fs))) = None)"
proof (cases "al_writer log"; cases "to_json js entry")
  fix f line
  assume *: "al_writer log = Some f" "to_json js entry = Ok line"
  obtain r fs2 where a: "fs_append f (line @ nl) fs = (r, fs2)" by force
  obtain w fs3 where o: "open_file (al_path log) fs2 = (w, fs3)" by force
  have "(\<exists>e. r = Err e) \<longleftrightarrow> (\<exists>e c. fs_write_err fs f = Some (WriteFailed e c))"
    using a by (auto simp: fs_append_def split: option.splits write_fault.splits)
  then show ?thesis using assms * a o by (cases r) (auto simp: record_entry_def)
qed (use assms in \<open>auto simp: record_entry_def\<close>)

section \<open>Properties\<close>

text \<open>
  C29. The audit log is complete and the layer transparent. Every request through the layer
  is answered as the service answers it and leaves the state it leaves; and when the log
  could be opened, the disk takes its writes and nothing else touches the file, the lines
  appended to what the file held read back as one entry for each request, in order, with
  its path, duration and status.
\<close>

theorem audit_log_complete:
  assumes opened: "new_audit_log path fs0 = (log, fs)" "al_writer log \<noteq> None" "fs_write_err fs0 path = None"
    and calls: "\<forall>c\<in>set calls. undisturbed path c"
    and run: "audited_run js inner calls s log fs = (rs, s', log', fs')"
    and entries: "\<forall>e\<in>set (map2 entry_of calls rs). one_line js e"
  shows "plain_run inner (List.map request_of calls) s = (rs, s') \<and>
    (\<exists>t. unwrap_or [] (fs_files fs' path) = unwrap_or [] (fs_files fs0 path) @ t \<and>
       List.map (from_json js) (lines t) = List.map Ok (map2 entry_of calls rs))"
proof
  show "plain_run inner (List.map request_of calls) s = (rs, s')"
    by (rule audited_run_transparent [OF run])
  have log: "al_writer log = Some path" "fs_files fs path = Some (unwrap_or [] (fs_files fs0 path))" "fs_write_err fs path = None"
    using new_audit_log_open [OF opened(1,2)] opened(3) by simp_all
  from audited_run_open [OF log(1) calls run entries log(3)] obtain ls
    where "unwrap_or [] (fs_files fs' path) = unwrap_or [] (fs_files fs path) @ concat (List.map (\<lambda>l. l @ nl) ls)"
      "list_all2 (\<lambda>l e. to_json js e = Ok l) ls (map2 entry_of calls rs)" by blast
  then show "\<exists>t. unwrap_or [] (fs_files fs' path) = unwrap_or [] (fs_files fs0 path) @ t \<and>
       List.map (from_json js) (lines t) = List.map Ok (map2 entry_of calls rs)"
    using entries_lines [OF entries] log(2) by auto
qed

definition demo_audit_json :: "audit_entry json" where
  "demo_audit_json = \<lparr>to_json = (\<lambda>e. Ok (ae_status e)),
     from_json = (\<lambda>l. Ok \<lparr>ae_timestamp = [], ae_method = ''/m'', ae_status = l, ae_duration_ms = 5\<rparr>)\<rparr>"

definition demo_inner :: "string option \<Rightarrow> nat \<Rightarrow> (string + unit http_response) \<times> nat" where
  "demo_inner q n = (Ok \<lparr>hr_grpc_status = Option.map_option Some q, hr_status = 200, hr_body = ()\<rparr>, Suc n)"

definition demo_calls :: "string option audited_request list" where
  "demo_calls = [(\<lambda>fs. fs, ''/m'', 5, [], Some ''7''), (\<lambda>fs. fs, ''/m'', 5, [], None)]"

definition demo_audit_fs :: fsys where
  "demo_audit_fs = \<lparr>fs_files = Map.empty, fs_dirs = {}, fs_read_err = Map.empty, fs_write_err = Map.empty, fs_mkdir_err = Map.empty\<rparr>"

lemma demo_audit_opens:
  "new_audit_log ''a'' demo_audit_fs =
     (\<lparr>al_path = ''a'', al_writer = Some ''a''\<rparr>, snd (new_audit_log ''a'' demo_audit_fs))"
  by (simp add: new_audit_log_def open_file_def path_parent_def strip_slashes_def trim_end_matches_def Let_def
      create_dir_all_def demo_audit_fs_def open_append_def)

theorem audit_log_complete_witness:
  "\<exists>t. unwrap_or [] (fs_files (snd (snd (snd (audited_run demo_audit_json demo_inner demo_calls 0
       \<lparr>al_path = ''a'', al_writer = Some ''a''\<rparr> (snd (new_audit_log ''a'' demo_audit_fs)))))) ''a'') = t \<and>
     List.map (Option.map_option ae_status \<circ> result_ok \<circ> from_json demo_audit_json) (lines t) =
       [Some ''PERMISSION_DENIED'', Some ''HTTP 200'']"
proof -
  let ?run = "audited_run demo_audit_json demo_inner demo_calls 0
       \<lparr>al_path = ''a'', al_writer = Some ''a''\<rparr> (snd (new_audit_log ''a'' demo_audit_fs))"
  obtain rs s' log' fs' where run: "?run = (rs, s', log', fs')" by (metis surj_pair)
  have "rs = fst (plain_run demo_inner (List.map request_of demo_calls) 0)"
    using audited_run_transparent [OF run] by simp
  then have two: "rs = [fst (demo_inner (Some ''7'') 0), fst (demo_inner None 1)]"
    by (simp add: demo_calls_def demo_inner_def request_of_def)
  have name: "grpc_code_name ''7'' = ''PERMISSION_DENIED''" "show_word (200 :: u16) = ''200''"
    by (simp_all add: grpc_code_name_def grpc_codes_def show_word_def show_nat.simps digit_char_def)
  have es: "map2 entry_of demo_calls rs =
     [\<lparr>ae_timestamp = [], ae_method = ''/m'', ae_status = ''PERMISSION_DENIED'', ae_duration_ms = 5\<rparr>,
      \<lparr>ae_timestamp = [], ae_method = ''/m'', ae_status = ''HTTP 200'', ae_duration_ms = 5\<rparr>]"
    unfolding two
    by (simp add: demo_calls_def entry_of_def audit_entry_of_def demo_inner_def grpc_status_from_response_def name)
  have one: "\<forall>e\<in>set (map2 entry_of demo_calls rs). one_line demo_audit_json e"
    unfolding es by (simp add: one_line_def json_ok_def demo_audit_json_def)
  have quiet: "\<forall>c\<in>set demo_calls. undisturbed ''a'' c" by (simp add: demo_calls_def undisturbed_def)
  have fs: "fs_write_err demo_audit_fs ''a'' = None" "fs_files demo_audit_fs ''a'' = None" by (simp_all add: demo_audit_fs_def)
  have "al_writer \<lparr>al_path = ''a'', al_writer = Some ''a''\<rparr> \<noteq> None" by simp
  from audit_log_complete [OF demo_audit_opens this fs(1) quiet run one]
  obtain t where t: "unwrap_or [] (fs_files fs' ''a'') = t"
      "List.map (from_json demo_audit_json) (lines t) = List.map Ok (map2 entry_of demo_calls rs)"
    using fs(2) by auto
  have "List.map (Option.map_option ae_status \<circ> result_ok \<circ> from_json demo_audit_json) (lines t) =
    List.map (Option.map_option ae_status \<circ> result_ok) (List.map (from_json demo_audit_json) (lines t))" by simp
  also have "\<dots> = [Some ''PERMISSION_DENIED'', Some ''HTTP 200'']" unfolding t(2) es by simp
  finally show ?thesis using t(1) run by simp
qed

text \<open>
  A log that lost its file stays without one. The file is given up exactly when a write
  fails and opening the file anew fails with it; from then on no request is recorded
  although each is still answered: whatever requests follow and however the disk recovers,
  the files change only by what the rest of the system does.
\<close>

lemma audit_log_not_reopened:
  assumes rec: "record_entry js entry log fs = (log1, fs1)"
    and run: "audited_run js inner calls s log1 fs1 = (rs, s', log', fs')"
  shows "(al_writer log1 = None \<longleftrightarrow> al_writer log = None \<or>
      (\<exists>file line e c. al_writer log = Some file \<and> to_json js entry = Ok line \<and> fs_write_err fs file = Some (WriteFailed e c) \<and>
         fst (open_file (al_path log) (snd (fs_append file (line @ nl) fs))) = None)) \<and>
    (al_writer log1 = None \<longrightarrow> al_writer log' = None \<and> fs' = fold fst calls fs1 \<and>
       plain_run inner (List.map request_of calls) s = (rs, s'))"
proof
  show "al_writer log1 = None \<longleftrightarrow> al_writer log = None \<or>
      (\<exists>file line e c. al_writer log = Some file \<and> to_json js entry = Ok line \<and> fs_write_err fs file = Some (WriteFailed e c) \<and>
         fst (open_file (al_path log) (snd (fs_append file (line @ nl) fs))) = None)"
    by (rule record_entry_gives_up [OF rec])
  show "al_writer log1 = None \<longrightarrow> al_writer log' = None \<and> fs' = fold fst calls fs1 \<and>
       plain_run inner (List.map request_of calls) s = (rs, s')"
    using audited_run_closed [OF _ run] audited_run_transparent [OF run] by auto
qed

definition demo_full_fs :: fsys where
  "demo_full_fs = demo_audit_fs\<lparr>fs_write_err := [''d/a'' \<mapsto> WriteFailed ''full'' ''P''], fs_mkdir_err := [''d'' \<mapsto> ''read-only'']\<rparr>"

lemma audit_log_not_reopened_witness:
  "\<exists>log1 fs1 rs s' log' fs'.
     record_entry demo_audit_json (entry_of (hd demo_calls) (fst (demo_inner None 0))) \<lparr>al_path = ''d/a'', al_writer = Some ''d/a''\<rparr> demo_full_fs =
       (log1, fs1) \<and>
     audited_run demo_audit_json demo_inner demo_calls 0 log1 (fs1\<lparr>fs_write_err := Map.empty\<rparr>) = (rs, s', log', fs') \<and>
     fs_files fs' ''d/a'' = fs_files fs1 ''d/a''"
proof -
  let ?log = "\<lparr>al_path = ''d/a'', al_writer = Some ''d/a''\<rparr>" and ?e = "entry_of (hd demo_calls) (fst (demo_inner None 0))"
  let ?calls = "((\<lambda>fs. fs\<lparr>fs_write_err := Map.empty\<rparr>), snd (hd demo_calls)) # tl demo_calls"
  obtain log1 fs1 where rec: "record_entry demo_audit_json ?e ?log demo_full_fs = (log1, fs1)" by force
  have none: "al_writer log1 = None"
    using rec by (auto simp: record_entry_def demo_audit_json_def demo_full_fs_def fs_append_def open_file_def path_parent_def
        strip_slashes_def trim_end_matches_def Let_def create_dir_all_def)
  have fd: "demo_calls = (\<lambda>fs. fs, snd (hd demo_calls)) # tl demo_calls" by (simp add: demo_calls_def)
  have "audited_run demo_audit_json demo_inner demo_calls 0 log1 (fs1\<lparr>fs_write_err := Map.empty\<rparr>) =
    audited_run demo_audit_json demo_inner ?calls 0 log1 fs1"
    by (simp add: demo_calls_def)
  moreover obtain rs s' log' fs' where run: "audited_run demo_audit_json demo_inner ?calls 0 log1 fs1 = (rs, s', log', fs')"
    by (metis surj_pair)
  moreover have "fs' = fold fst ?calls fs1"
    using audit_log_not_reopened [OF rec run] none by blast
  then have "fs_files fs' ''d/a'' = fs_files fs1 ''d/a''" by (simp add: demo_calls_def)
  ultimately show ?thesis using rec by auto
qed

end
