(* ===== verification/Startup.thy ===== *)
theory Startup
  imports Node_Service Audit_Log
begin

text \<open>
  The start of the agent (\<open>main\<close> of \<open>cmd/keel-agent/src/main.rs\<close>) up to the point where it
  serves requests: the node configuration (\<open>pkg/config/src/lib.rs\<close>), the state of the service, the
  renewal daemon, TLS and the audit log; the HTTP endpoints (\<open>health.rs\<close>); and the tracker of
  boot phases of the init process (\<open>cmd/keel-init/src/telemetry.rs\<close>).
\<close>

section \<open>Node configuration\<close>

datatype config_error = CfgIo string | CfgYaml string

fun config_error_str :: "config_error \<Rightarrow> string" where
  "config_error_str (CfgIo e) = ''IO error: '' @ e"
| "config_error_str (CfgYaml e) = ''YAML error: '' @ e"

record container_config =
  ct_name :: string
  ct_image :: string

record node_config =
  nc_version :: string
  nc_hostname :: string
  nc_kubernetes_version :: "string option"
  nc_containers :: "container_config list"

text \<open>\<open>yaml\<close> is \<open>serde_yaml::from_reader\<close>.\<close>

definition load_node_config :: "(string \<Rightarrow> string + node_config) \<Rightarrow> string \<Rightarrow> fsys \<Rightarrow> config_error + node_config" where
  "load_node_config yaml path fs =
     and_then (map_err CfgIo (read_to_string path fs)) (\<lambda>text. map_err CfgYaml (yaml text))"

definition default_config :: node_config where
  "default_config = \<lparr>nc_version = ''v1'', nc_hostname = ''keel-node'', nc_kubernetes_version = None, nc_containers = []\<rparr>"

section \<open>Starting the agent\<close>

text \<open>
  The environment: the outcome of setting up telemetry, YAML, the listing of a directory as
  full paths, and the acceptance of a TLS configuration by the server builder.
\<close>

record ('c, 'der, 'key) startup_env =
  su_service :: "('c, 'der, 'key) service_env"
  su_telemetry :: "string + unit"
  su_yaml :: "string \<Rightarrow> string + node_config"
  su_dir :: "string \<Rightarrow> fsys \<Rightarrow> string + string list"
  su_accept_tls :: "server_tls_config \<Rightarrow> string + unit"

record 'c agent =
  ag_service :: "'c service"
  ag_renewal :: "cert_renewal_manager option"
  ag_config :: node_config
  ag_tls :: "server_tls_config option"
  ag_audit :: audit_log

definition agent_config_path :: string where
  "agent_config_path = ''/etc/keel/node.yaml''"

definition agent_tls :: tls_manager where
  "agent_tls = \<lparr>tm_server_cert_path = ''/etc/keel/crypto/server.pem'', tm_server_key_path = ''/etc/keel/crypto/server.key'',
     tm_bootstrap_ca_dir = ''/var/lib/keel/crypto/trusted-clients/bootstrap'',
     tm_operational_ca_path = Some ''/etc/keel/crypto/ca.pem''\<rparr>"

definition read_node_config :: "(string \<Rightarrow> string + node_config) \<Rightarrow> fsys \<Rightarrow> config_error + node_config" where
  "read_node_config yaml fs =
     (if path_exists agent_config_path fs then load_node_config yaml agent_config_path fs else Ok default_config)"

text \<open>A TLS configuration that cannot be built is given up; one the builder refuses ends the agent.\<close>

definition setup_tls :: "('c, 'der, 'key) startup_env \<Rightarrow> fsys \<Rightarrow> string + server_tls_config option" where
  "setup_tls S fs =
     (if can_configure agent_tls fs then
        (case build_tls_config (su_dir S) agent_tls fs of
           Inr cfg \<Rightarrow> and_then (su_accept_tls S cfg) (\<lambda>_. Ok (Some cfg))
         | Inl e \<Rightarrow> Ok None)
      else Ok None)"

definition renewal_daemon :: "fsys \<Rightarrow> cert_renewal_manager option" where
  "renewal_daemon fs =
     (if path_exists operational_cert fs
      then Some (new_renewal_manager \<lparr>rc_operational_cert_path = ''/var/lib/keel/crypto/operational.pem'',
             rc_operational_key_path = ''/var/lib/keel/crypto/operational.key'', rc_renewal_threshold_days = 30,
             rc_check_interval_hours = 24\<rparr>)
      else None)"

text \<open>
  The first half of \<open>main\<close>, up to the point where the executor of schedules has been spawned; from
  there on the executor runs beside the rest.
\<close>

definition begin_agent :: "('c, 'der, 'key) startup_env \<Rightarrow> disks \<Rightarrow> 'c \<Rightarrow> string + 'c service" where
  "begin_agent S w c =
     and_then (su_telemetry S) (\<lambda>_.
       Ok \<lparr>sc_sched = new_scheduler (se_sched_json (su_service S)) ''/var/lib/keel/update-schedule.json'' (dk_fs w),
           sc_health = new_health_checker default_health_config, sc_diag = new_diagnostics_manager,
           sc_disks = w, sc_cluster = c\<rparr>)"

text \<open>The second half, on the state of the service as it is by then.\<close>

definition complete_start ::
  "('c, 'der, 'key) startup_env \<Rightarrow> 'c service \<Rightarrow> (string + 'c agent) \<times> disks \<times> 'c" where
  "complete_start S s =
     (case init_k8s_certificates (se_certs (su_service S)) (dk_fs (sc_disks s)) (sc_cluster s) of
        (_, fs1, c1) \<Rightarrow>
          (let renewal = renewal_daemon fs1; w1 = (sc_disks s)\<lparr>dk_fs := fs1\<rparr> in
           case map_err config_error_str (read_node_config (su_yaml S) fs1) of
             Inl e \<Rightarrow> (Err e, w1, c1)
           | Inr config \<Rightarrow>
               (case setup_tls S fs1 of
                  Inl e \<Rightarrow> (Err e, w1, c1)
                | Inr tls \<Rightarrow>
                    (case new_audit_log ''/var/lib/keel/audit/audit.log'' fs1 of
                       (audit, fs2) \<Rightarrow>
                         (let w2 = (sc_disks s)\<lparr>dk_fs := fs2\<rparr> in
                          (Ok \<lparr>ag_service = s\<lparr>sc_disks := w2, sc_cluster := c1\<rparr>,
                               ag_renewal = renewal, ag_config = config, ag_tls = tls, ag_audit = audit\<rparr>, w2, c1))))))"

text \<open>A start during which no schedule is due.\<close>

definition start_agent ::
  "('c, 'der, 'key) startup_env \<Rightarrow> disks \<Rightarrow> 'c \<Rightarrow> (string + 'c agent) \<times> disks \<times> 'c" where
  "start_agent S w c =
     (case begin_agent S w c of
        Inl e \<Rightarrow> (Err e, w, c)
      | Inr s \<Rightarrow> complete_start S s)"

text \<open>
  The certificates the handlers see of a client: none without TLS, and what the client shows
  otherwise.
\<close>

definition peer_certs :: "'c agent \<Rightarrow> 'der list option \<Rightarrow> 'der list option" where
  "peer_certs ag shown = (case ag_tls ag of None \<Rightarrow> None | Some cfg \<Rightarrow> shown)"

section \<open>Telemetry\<close>

text \<open>
  What \<open>init_telemetry\<close> sets up: the attributes of the process, where spans are exported to, and
  the filter of the log. \<open>build\<close> is the exporter's builder, \<open>rust_log\<close> the filter of the environment
  if it has a valid one.
\<close>

record telemetry =
  tl_resource :: "(string \<times> string) list"
  tl_endpoint :: "string option"
  tl_filter :: string

definition init_telemetry ::
  "(string \<Rightarrow> string + unit) \<Rightarrow> string option \<Rightarrow> string \<Rightarrow> string option \<Rightarrow> string + telemetry" where
  "init_telemetry build rust_log service_name otlp_endpoint =
     (let resource = [(''service.name'', service_name), (''service.version'', ''0.1.0'')];
          env_filter = unwrap_or ''info'' rust_log in
      case otlp_endpoint of
        Some endpoint \<Rightarrow>
          and_then (build endpoint) (\<lambda>_.
            Ok \<lparr>tl_resource = resource, tl_endpoint = Some endpoint, tl_filter = env_filter\<rparr>)
      | None \<Rightarrow> Ok \<lparr>tl_resource = [], tl_endpoint = None, tl_filter = env_filter\<rparr>)"

text \<open>The start of \<open>main\<close>, with the endpoint from the environment.\<close>

definition main_startup ::
  "(string \<Rightarrow> string + unit) \<Rightarrow> string option \<Rightarrow> string option \<Rightarrow> ('c, 'der, 'key) startup_env \<Rightarrow> ('c, 'der, 'key) startup_env" where
  "main_startup build rust_log otlp_endpoint S =
     S\<lparr>su_telemetry := and_then (init_telemetry build rust_log ''keel-agent'' otlp_endpoint) (\<lambda>_. Ok ())\<rparr>"

text \<open>
  The end of \<open>main\<close>: whichever of the two servers ends first. The gRPC server may end with an error;
  the task of the health server returns or panics, when it cannot bind its port or axum gives
  up. A panic ends the process at once where the build says so (\<open>panic = "abort"\<close> of the release
  profile in \<open>Cargo.toml\<close>); elsewhere it is the error of the task, which \<open>main\<close> only logs.
\<close>

datatype server_end = GrpcEnds "string + unit" | HealthReturns | HealthPanics string

datatype process_end = ExitStatus nat | Aborted

definition main_warning :: "bool \<Rightarrow> server_end \<Rightarrow> string option" where
  "main_warning panic_abort x =
     (case x of
        GrpcEnds (Inl e) \<Rightarrow> Some ''gRPC server error''
      | HealthPanics e \<Rightarrow> if panic_abort then None else Some ''Health server error''
      | _ \<Rightarrow> None)"

text \<open>How the process ends, when it does not start (\<open>Inl\<close>) and when one of its servers ends.\<close>

definition main_status :: "bool \<Rightarrow> string + server_end \<Rightarrow> process_end" where
  "main_status panic_abort r =
     (case r of
        Inl e \<Rightarrow> ExitStatus 1
      | Inr (HealthPanics e) \<Rightarrow> if panic_abort then Aborted else ExitStatus 0
      | Inr _ \<Rightarrow> ExitStatus 0)"

section \<open>HTTP endpoints\<close>

text \<open>\<open>'v\<close> are the JSON numbers the system metrics are given as.\<close>

datatype 'v http_answer =
    Health string
  | Readiness string string string
  | Metrics "(string \<times> 'v) list"
  | NotFoundPage

record 'v sys_metrics =
  sm_cpu_usage :: 'v
  sm_total_memory :: 'v
  sm_used_memory :: 'v
  sm_total_swap :: 'v
  sm_used_swap :: 'v

definition healthz :: "'v http_answer" where
  "healthz = Health ''ok''"

definition readyz :: "'v http_answer" where
  "readyz = Readiness ''ready'' ''ready'' ''ready''"

definition metrics_page :: "'v sys_metrics \<Rightarrow> 'v http_answer" where
  "metrics_page m =
     Metrics [(''cpu_usage'', sm_cpu_usage m), (''total_memory_bytes'', sm_total_memory m), (''used_memory_bytes'', sm_used_memory m),
       (''total_swap_bytes'', sm_total_swap m), (''used_swap_bytes'', sm_used_swap m)]"

definition health_router :: "string \<Rightarrow> 'v sys_metrics \<Rightarrow> 'v http_answer" where
  "health_router path refreshed =
     (if path = ''/healthz'' then healthz else if path = ''/readyz'' then readyz
      else if path = ''/metrics'' then metrics_page refreshed else NotFoundPage)"

section \<open>Boot phases\<close>

text \<open>Instants are nanoseconds of the monotonic clock.\<close>

record boot_tracker =
  bt_start :: nat
  bt_phases :: "string \<rightharpoonup> nat"
  bt_current :: "(string \<times> nat) option"

definition new_boot_tracker :: "nat \<Rightarrow> boot_tracker" where
  "new_boot_tracker now = \<lparr>bt_start = now, bt_phases = Map.empty, bt_current = None\<rparr>"

definition end_current_phase :: "nat \<Rightarrow> boot_tracker \<Rightarrow> boot_tracker" where
  "end_current_phase now bt =
     (case bt_current bt of
        None \<Rightarrow> bt
      | Some (name, start) \<Rightarrow> bt\<lparr>bt_current := None, bt_phases := (bt_phases bt)(name \<mapsto> now - start)\<rparr>)"

text \<open>\<open>start_phase\<close> reads the clock twice: for the phase that ends and for the one that starts.\<close>

definition start_phase :: "string \<Rightarrow> nat \<Rightarrow> nat \<Rightarrow> boot_tracker \<Rightarrow> boot_tracker" where
  "start_phase name t1 t2 bt = (end_current_phase t1 bt)\<lparr>bt_current := Some (name, t2)\<rparr>"

record 'f boot_metrics =
  bm_total :: 'f
  bm_phases :: "string \<rightharpoonup> 'f"

text \<open>\<open>secs\<close> is \<open>Duration::as_secs_f64\<close>.\<close>

definition get_boot_metrics :: "(nat \<Rightarrow> 'f) \<Rightarrow> nat \<Rightarrow> boot_tracker \<Rightarrow> 'f boot_metrics" where
  "get_boot_metrics secs now bt =
     \<lparr>bm_total = secs (now - bt_start bt), bm_phases = map_option secs \<circ> bt_phases bt\<rparr>"

definition export_to_file ::
  "'f boot_metrics json \<Rightarrow> (nat \<Rightarrow> 'f) \<Rightarrow> nat \<Rightarrow> boot_tracker \<Rightarrow> string \<Rightarrow> fsys \<Rightarrow> (string + unit) \<times> fsys" where
  "export_to_file js secs now bt path fs =
     (case to_json js (get_boot_metrics secs now bt) of
        Inl e \<Rightarrow> (Err e, fs)
      | Inr text \<Rightarrow> fs_write path text fs)"

section \<open>Lemmas\<close>

text \<open>The start as one piece.\<close>

lemma start_agent_unfold:
  "start_agent S w c =
     (case su_telemetry S of Inl e \<Rightarrow> (Err e, w, c) | Inr _ \<Rightarrow>
      let scheduler0 = new_scheduler (se_sched_json (su_service S)) ''/var/lib/keel/update-schedule.json'' (dk_fs w);
          health = new_health_checker default_health_config in
      case init_k8s_certificates (se_certs (su_service S)) (dk_fs w) c of
        (_, fs1, c1) \<Rightarrow>
          (let renewal = renewal_daemon fs1; w1 = w\<lparr>dk_fs := fs1\<rparr> in
           case map_err config_error_str (read_node_config (su_yaml S) fs1) of
             Inl e \<Rightarrow> (Err e, w1, c1)
           | Inr config \<Rightarrow>
               (case setup_tls S fs1 of
                  Inl e \<Rightarrow> (Err e, w1, c1)
                | Inr tls \<Rightarrow>
                    (case new_audit_log ''/var/lib/keel/audit/audit.log'' fs1 of
                       (audit, fs2) \<Rightarrow>
                         (let w2 = w\<lparr>dk_fs := fs2\<rparr> in
                          (Ok \<lparr>ag_service = \<lparr>sc_sched = scheduler0, sc_health = health, sc_diag = new_diagnostics_manager,
                                 sc_disks = w2, sc_cluster = c1\<rparr>,
                               ag_renewal = renewal, ag_config = config, ag_tls = tls, ag_audit = audit\<rparr>, w2, c1))))))"
  by (cases "su_telemetry S")
    (simp_all add: start_agent_def begin_agent_def complete_start_def Let_def split: prod.splits sum.splits)

text \<open>The steps of a boot: starting a phase at two readings of the clock, or ending one.\<close>

datatype boot_event = StartPhase string nat nat | EndPhase nat

fun step_times :: "boot_event \<Rightarrow> nat list" where
  "step_times (StartPhase n t1 t2) = [t1, t2]"
| "step_times (EndPhase t) = [t]"

fun boot_step :: "boot_event \<Rightarrow> boot_tracker \<Rightarrow> boot_tracker" where
  "boot_step (StartPhase n t1 t2) bt = start_phase n t1 t2 bt"
| "boot_step (EndPhase t) bt = end_current_phase t bt"

text \<open>
  The time accounted for by the recorded phases and the running one, up to \<open>now\<close>; the clock
  has not run backwards.
\<close>

definition phase_time :: "boot_tracker \<Rightarrow> nat" where
  "phase_time bt = (\<Sum>n\<in>dom (bt_phases bt). the (bt_phases bt n))"

definition tracked :: "nat \<Rightarrow> boot_tracker \<Rightarrow> bool" where
  "tracked now bt \<longleftrightarrow> finite (dom (bt_phases bt)) \<and> bt_start bt \<le> now \<and>
     (case bt_current bt of
        None \<Rightarrow> phase_time bt \<le> now - bt_start bt
      | Some (n, start) \<Rightarrow> start \<le> now \<and> bt_start bt \<le> start \<and> phase_time bt \<le> start - bt_start bt)"

lemma phase_time_insert:
  assumes "finite (dom m)"
  shows "(\<Sum>n\<in>dom (m(k \<mapsto> d)). the ((m(k \<mapsto> d)) n)) \<le> (\<Sum>n\<in>dom m. the (m n)) + (d :: nat)"
proof -
  have "(\<Sum>n\<in>dom (m(k \<mapsto> d)). the ((m(k \<mapsto> d)) n)) = d + (\<Sum>n\<in>dom m - {k}. the ((m(k \<mapsto> d)) n))"
    using assms by (simp add: sum.insert_remove)
  also have "(\<Sum>n\<in>dom m - {k}. the ((m(k \<mapsto> d)) n)) = (\<Sum>n\<in>dom m - {k}. the (m n))"
    by (rule sum.cong) auto
  also have "\<dots> \<le> (\<Sum>n\<in>dom m. the (m n))"
    using assms by (intro sum_mono2) auto
  finally show ?thesis by (simp only: add.commute)
qed

lemma tracked_mono: "tracked t bt \<Longrightarrow> t \<le> u \<Longrightarrow> tracked u bt"
  by (auto simp: tracked_def split: option.splits)

lemma tracked_end:
  assumes "tracked t bt" "t \<le> u"
  shows "tracked u (end_current_phase u bt) \<and> bt_current (end_current_phase u bt) = None"
proof (cases "bt_current bt")
  case (Some c)
  obtain n start where c: "bt_current bt = Some (n, start)" using Some by (cases c) auto
  have *: "finite (dom (bt_phases bt))" "start \<le> t" "bt_start bt \<le> start" "phase_time bt \<le> start - bt_start bt"
    using assms(1) c by (auto simp: tracked_def)
  have "phase_time (end_current_phase u bt) \<le> phase_time bt + (u - start)"
    using phase_time_insert [OF *(1), of n "u - start"] c by (simp add: end_current_phase_def phase_time_def)
  then show ?thesis using * c assms(2) by (simp add: tracked_def end_current_phase_def)
qed (use assms in \<open>auto simp: tracked_def end_current_phase_def\<close>)

lemma tracked_start: "tracked t bt \<Longrightarrow> t \<le> t1 \<Longrightarrow> t1 \<le> t2 \<Longrightarrow> tracked t2 (start_phase n t1 t2 bt)"
  using tracked_end [of t bt t1] by (auto simp: start_phase_def tracked_def phase_time_def)

lemma end_current_start [simp]: "bt_start (end_current_phase t bt) = bt_start bt"
  by (auto simp: end_current_phase_def split: option.splits prod.splits)

lemma tracked_step:
  "tracked t bt \<Longrightarrow> sorted (t # step_times st) \<Longrightarrow> tracked (last (step_times st)) (boot_step st bt)"
  using tracked_end [of t bt] tracked_start [of t bt] by (cases st) auto

lemma tracked_run:
  "tracked t bt \<Longrightarrow> sorted (t # concat (List.map step_times sts)) \<Longrightarrow>
     tracked (last (t # concat (List.map step_times sts))) (fold boot_step sts bt)"
proof (induction sts arbitrary: t bt)
  case (Cons st sts)
  let ?u = "last (step_times st)" and ?rest = "concat (List.map step_times sts)"
  have ne: "step_times st \<noteq> []" by (cases st) auto
  have "sorted (t # step_times st)" using Cons(3) by (auto simp: sorted_append)
  then have "tracked ?u (boot_step st bt)" by (rule tracked_step [OF Cons(2)])
  moreover have "sorted (?u # ?rest)"
    using Cons(3) ne by (auto simp: sorted_append)
  ultimately have "tracked (last (?u # ?rest)) (fold boot_step sts (boot_step st bt))" by (rule Cons(1))
  then show ?case using ne by (simp add: last_append split: if_splits)
qed simp

lemma tls_roots:
  assumes "read_to_string (tm_server_cert_path t) fs = Ok cert" "read_to_string (tm_server_key_path t) fs = Ok key"
    "path_exists (tm_bootstrap_ca_dir t) fs" "dir (tm_bootstrap_ca_dir t) fs = Ok entries" "pem \<noteq> []"
    "pem \<in> set (List.map_filter (\<lambda>p. if path_extension p = Some ''pem'' then result_ok (read_to_string p fs) else None) entries)"
  shows "\<exists>cfg before after. build_tls_config dir t fs = Ok cfg \<and> tls_client_ca cfg = Some (before @ pem @ after)"
proof -
  let ?bs = "List.map_filter (\<lambda>p. if path_extension p = Some ''pem'' then result_ok (read_to_string p fs) else None) entries"
  obtain ops where b: "build_tls_config dir t fs = Ok (if join nl (?bs @ ops) \<noteq> []
      then \<lparr>tls_identity = (cert, key), tls_client_ca = Some (join nl (?bs @ ops)), tls_client_auth_optional = True\<rparr>
      else \<lparr>tls_identity = (cert, key), tls_client_ca = None, tls_client_auth_optional = False\<rparr>)"
    using assms(1-4) by (simp add: build_tls_config_def Let_def)
  have "pem \<in> set (?bs @ ops)" using assms(6) by simp
  then obtain x y where "join nl (?bs @ ops) = x @ pem @ y" using join_contains by blast
  then show ?thesis using b assms(5) by auto
qed

section \<open>Properties\<close>

text \<open>
  The phases of a boot account for no more than its time. However phases are started and
  ended, names repeated or not, with a clock that does not run backwards the durations
  recorded add up to at most the total that is reported with them.
\<close>

lemma boot_phases_bounded:
  assumes "sorted (t0 # concat (List.map step_times sts) @ [now])"
  shows "let bt = fold boot_step sts (new_boot_tracker t0); m = get_boot_metrics id now bt in
    finite (dom (bm_phases m)) \<and> (\<Sum>n\<in>dom (bm_phases m). the (bm_phases m n)) \<le> bm_total m"
proof -
  let ?bt = "fold boot_step sts (new_boot_tracker t0)" and ?last = "last (t0 # concat (List.map step_times sts))"
  have "tracked t0 (new_boot_tracker t0)" by (simp add: tracked_def new_boot_tracker_def phase_time_def)
  moreover have "sorted (t0 # concat (List.map step_times sts))" "?last \<le> now"
  proof -
    show "sorted (t0 # concat (List.map step_times sts))" using assms by (simp add: sorted_append)
    have "\<forall>x\<in>set (t0 # concat (List.map step_times sts)). x \<le> now"
      using assms by (simp only: append_Cons [symmetric] sorted_append) simp
    then show "?last \<le> now" using last_in_set [of "t0 # concat (List.map step_times sts)"] by blast
  qed
  ultimately have "tracked now ?bt" using tracked_run tracked_mono by blast
  then have "finite (dom (bt_phases ?bt))" "phase_time ?bt \<le> now - bt_start ?bt"
    by (auto simp: tracked_def split: option.splits)
  then show ?thesis by (simp add: get_boot_metrics_def Let_def phase_time_def option.map_id0)
qed

lemma boot_phases_bounded_witness:
  "let m = get_boot_metrics id 90 (fold boot_step [StartPhase ''fs'' 10 12, StartPhase ''net'' 40 41, EndPhase 80] (new_boot_tracker 5)) in
    (\<Sum>n\<in>dom (bm_phases m). the (bm_phases m n)) \<le> 85"
proof -
  have "sorted (5 # concat (List.map step_times [StartPhase ''fs'' 10 12, StartPhase ''net'' 40 41, EndPhase 80]) @ [90])" by simp
  from boot_phases_bounded [OF this] show ?thesis
    by (simp add: Let_def get_boot_metrics_def new_boot_tracker_def start_phase_def end_current_phase_def)
qed

text \<open>
  C26. How the agent starts, once telemetry is set up. It ends before serving exactly when the node configuration exists
  and cannot be loaded, or the server builder refuses the TLS configuration; otherwise it
  serves the schedules found on disk, with no session open. It serves with TLS exactly when
  the server's certificate and key exist and a configuration can be built from them; in
  every other case it serves in the clear, and then no role check refuses anything.
\<close>

theorem start_agent_outcome:
  assumes run: "start_agent S w c = (r, w', c')"
    and telemetry: "su_telemetry S = Ok ()"
    and certs: "init_k8s_certificates (se_certs (su_service S)) (dk_fs w) c = (k, fs1, c1)"
  shows "((\<exists>e. r = Err e) \<longleftrightarrow>
      (path_exists agent_config_path fs1 \<and> (\<exists>e. load_node_config (su_yaml S) agent_config_path fs1 = Err e)) \<or>
      (can_configure agent_tls fs1 \<and>
        (\<exists>cfg e. build_tls_config (su_dir S) agent_tls fs1 = Ok cfg \<and> su_accept_tls S cfg = Err e))) \<and>
    (\<forall>ag. r = Ok ag \<longrightarrow>
       schedules (sc_sched (ag_service ag)) = load_schedules (se_sched_json (su_service S)) ''/var/lib/keel/update-schedule.json'' (dk_fs w) \<and>
       sc_diag (ag_service ag) = new_diagnostics_manager \<and>
       (ag_tls ag \<noteq> None \<longleftrightarrow> can_configure agent_tls fs1 \<and> (\<exists>cfg. build_tls_config (su_dir S) agent_tls fs1 = Ok cfg)) \<and>
       (ag_tls ag = None \<longrightarrow> authorize orgs (peer_certs ag shown) role = Ok ()))"
proof (cases "read_node_config (su_yaml S) fs1")
  case (Inl e)
  then show ?thesis
    using run telemetry certs by (auto simp: start_agent_unfold Let_def read_node_config_def split: if_splits)
next
  case (Inr config)
  have cfg: "\<not> (path_exists agent_config_path fs1 \<and> (\<exists>e. load_node_config (su_yaml S) agent_config_path fs1 = Err e))"
    using Inr by (auto simp: read_node_config_def)
  show ?thesis
  proof (cases "setup_tls S fs1")
    case (Inl e)
    then have "can_configure agent_tls fs1 \<and> (\<exists>cfg e. build_tls_config (su_dir S) agent_tls fs1 = Ok cfg \<and> su_accept_tls S cfg = Err e)"
      by (auto simp: setup_tls_def and_then_eq_Ok split: if_splits sum.splits) (metis and_then.simps(2) old.sum.exhaust sum.simps(4))
    then show ?thesis using run telemetry certs Inr Inl by (auto simp: start_agent_unfold Let_def)
  next
    case tls: (Inr tls)
    obtain audit fs2 where au: "new_audit_log ''/var/lib/keel/audit/audit.log'' fs1 = (audit, fs2)" by force
    have t: "tls \<noteq> None \<longleftrightarrow> can_configure agent_tls fs1 \<and> (\<exists>cfg. build_tls_config (su_dir S) agent_tls fs1 = Ok cfg)"
      "\<not> (can_configure agent_tls fs1 \<and> (\<exists>cfg e. build_tls_config (su_dir S) agent_tls fs1 = Ok cfg \<and> su_accept_tls S cfg = Err e))"
      using tls by (auto simp: setup_tls_def and_then_eq_Ok split: if_splits sum.splits)
    show ?thesis
      using run telemetry certs Inr tls au cfg t
      by (auto simp: start_agent_unfold Let_def new_scheduler_def peer_certs_def authorize_def)
  qed
qed

text \<open>
  An endpoint the exporter refuses keeps the agent from starting, before anything else has
  happened; without an endpoint telemetry never does.
\<close>

lemma telemetry_start:
  "build e = Err m \<Longrightarrow> start_agent (main_startup build rust_log (Some e) S) w c = (Err m, w, c)"
  "su_telemetry (main_startup build rust_log None S) = Ok ()"
  by (simp_all add: start_agent_unfold main_startup_def init_telemetry_def Let_def)

definition demo_startup :: "(string list, unit, unit) startup_env" where
  "demo_startup = \<lparr>su_service = demo_service_env, su_telemetry = Ok (), su_yaml = (\<lambda>t. Err ''bad''), su_dir = (\<lambda>d fs. Ok []), su_accept_tls = (\<lambda>cfg. Ok ())\<rparr>"

theorem start_agent_outcome_witness:
  "\<exists>ag w' c'. start_agent demo_startup demo_disks [] = (Ok ag, w', c') \<and>
     authorize (\<lambda>d::unit. Err ''no'') (peer_certs ag (Some [()])) Admin = Ok ()"
proof -
  have k: "init_k8s_certificates (se_certs (su_service demo_startup)) (dk_fs demo_disks) [] = (None, dk_fs demo_disks, [])"
    by (simp add: init_k8s_certificates_def demo_disks_def path_exists_def service_account_token_def)
  have tel: "su_telemetry demo_startup = Ok ()" by (simp add: demo_startup_def)
  have no: "\<not> path_exists agent_config_path (dk_fs demo_disks)" "\<not> can_configure agent_tls (dk_fs demo_disks)"
    by (simp_all add: agent_config_path_def agent_tls_def can_configure_def demo_disks_def path_exists_def)
  obtain r w' c' where run: "start_agent demo_startup demo_disks [] = (r, w', c')" by (metis surj_pair)
  have "\<nexists>e. r = Err e"
    using start_agent_outcome [OF run tel k] no by blast
  then obtain ag where ag: "r = Ok ag" by (cases r) auto
  moreover have "ag_tls ag = None"
    using start_agent_outcome [OF run tel k] no ag by blast
  ultimately show ?thesis
    using start_agent_outcome [OF run tel k, of "\<lambda>d::unit. Err ''no''" "Some [()]" Admin] run by blast
qed

text \<open>
  C25. What anyone may send becomes a trust anchor. A certificate accepted by the unauthenticated
  request for bootstrap, of which nothing is checked but its PEM marker, is among the roots
  against which clients are verified when the TLS configuration is next built.
\<close>

theorem bootstrap_cert_becomes_root:
  assumes accepted: "init_bootstrap E pem s = (Ok (True, m), s')"
    and hash: "CHR ''/'' \<notin> set (se_cert_hash E pem)"
    and listing: "dir trusted_clients (sc_fs s') = Ok entries" "trusted_clients @ ''/client-'' @ se_cert_hash E pem @ ''.pem'' \<in> set entries"
    and server: "read_to_string (tm_server_cert_path agent_tls) (sc_fs s') = Ok cert" "read_to_string (tm_server_key_path agent_tls) (sc_fs s') = Ok key"
    and reads: "fs_read_err (sc_fs s) = Map.empty"
  shows "\<exists>cfg before after. build_tls_config dir agent_tls (sc_fs s') = Ok cfg \<and>
    tls_client_ca cfg = Some (before @ pem @ after) \<and> contains pem ''BEGIN CERTIFICATE''"
proof -
  let ?p = "trusted_clients @ ''/client-'' @ se_cert_hash E pem @ ''.pem''" and ?fs = "sc_fs s'"
  obtain fs1 where w: "create_dir_all trusted_clients (sc_fs s) = (Ok (), fs1)" "fs_write ?p pem fs1 = (Ok (), ?fs)"
    and v: "contains pem ''BEGIN CERTIFICATE''"
    using accepted by (auto simp: init_bootstrap_def validate_bootstrap_cert_def set_fs_def split: sum.splits prod.splits if_splits)
  have fs1: "fs1 = (sc_fs s)\<lparr>fs_dirs := fs_dirs (sc_fs s) \<union> set (path_prefixes trusted_clients)\<rparr>"
    using w(1) by (auto simp: create_dir_all_def split: option.splits)
  have "read_to_string ?p ?fs = Ok pem"
    by (rule read_to_string_write [OF w(2)]) (simp add: fs1 reads)
  moreover have "path_extension ?p = Some ''pem''"
    using hash by (simp add: path_extension_def file_name_def trusted_clients_def Let_def takeWhile_append)
  ultimately have "pem \<in> set (List.map_filter (\<lambda>p. if path_extension p = Some ''pem'' then result_ok (read_to_string p ?fs) else None) entries)"
    using listing(2) by (force simp: map_filter_set)
  moreover have "path_exists trusted_clients ?fs"
    using w(2) fs1 prefix_self [of trusted_clients] fs_write_frameD [OF w(2)] by (simp add: path_exists_def trusted_clients_def)
  moreover have "tm_bootstrap_ca_dir agent_tls = trusted_clients" by (simp add: agent_tls_def trusted_clients_def)
  moreover have "pem \<noteq> []" using v by auto
  ultimately show ?thesis
    using tls_roots [of agent_tls ?fs cert key dir entries pem] server listing(1) v by auto
qed

definition demo_server :: "string list service" where
  "demo_server = set_fs ((sc_fs demo_service)\<lparr>fs_files := [''/etc/keel/crypto/server.pem'' \<mapsto> ''S'', ''/etc/keel/crypto/server.key'' \<mapsto> ''T'']\<rparr>) demo_service"

theorem bootstrap_cert_becomes_root_witness:
  "\<exists>s' cfg before after. snd (init_bootstrap demo_service_env ''BEGIN CERTIFICATE'' demo_server) = s' \<and>
     build_tls_config (\<lambda>d fs. Ok [trusted_clients @ ''/client-'' @ ''0'' @ ''.pem'']) agent_tls (sc_fs s') = Ok cfg \<and>
     tls_client_ca cfg = Some (before @ ''BEGIN CERTIFICATE'' @ after)"
proof -
  have h: "se_cert_hash demo_service_env ''BEGIN CERTIFICATE'' = ''0''" by (simp add: demo_service_env_def)
  have fs: "sc_fs demo_server = \<lparr>fs_files = [''/etc/keel/crypto/server.pem'' \<mapsto> ''S'', ''/etc/keel/crypto/server.key'' \<mapsto> ''T''],
      fs_dirs = {}, fs_read_err = Map.empty, fs_write_err = Map.empty, fs_mkdir_err = Map.empty\<rparr>"
    by (simp add: demo_server_def demo_service_def demo_disks_def set_fs_def)
  have v: "validate_bootstrap_cert ''BEGIN CERTIFICATE'' = Ok ()" by (simp add: validate_bootstrap_cert_def starts_with_def)
  obtain s' where acc: "init_bootstrap demo_service_env ''BEGIN CERTIFICATE'' demo_server = (Ok (True, ''Bootstrap certificate accepted and stored''), s')"
    and f: "fs_files (sc_fs s') ''/etc/keel/crypto/server.pem'' = Some ''S''" "fs_files (sc_fs s') ''/etc/keel/crypto/server.key'' = Some ''T''"
      "fs_read_err (sc_fs s') = Map.empty"
    by (simp add: init_bootstrap_def v fs create_dir_all_def fs_write_def set_fs_def h trusted_clients_def)
  have rd: "read_to_string (tm_server_cert_path agent_tls) (sc_fs s') = Ok ''S''" "read_to_string (tm_server_key_path agent_tls) (sc_fs s') = Ok ''T''"
    using f by (simp_all add: read_to_string_def agent_tls_def)
  have "\<exists>cfg before after. build_tls_config (\<lambda>d fs. Ok [trusted_clients @ ''/client-'' @ ''0'' @ ''.pem'']) agent_tls (sc_fs s') = Ok cfg \<and>
      tls_client_ca cfg = Some (before @ ''BEGIN CERTIFICATE'' @ after) \<and> contains ''BEGIN CERTIFICATE'' ''BEGIN CERTIFICATE''"
    by (rule bootstrap_cert_becomes_root [OF acc _ refl _ rd]) (simp_all add: h fs)
  then show ?thesis using acc by auto
qed

end
