(* ===== verification/Service_Invariant.thy ===== *)
theory Service_Invariant
  imports Startup
begin

text \<open>
  What holds of the service of the agent between requests, whatever is asked of it: the type
  invariant of its state, kept by every request handler and established by the start.
\<close>

section \<open>The invariant\<close>

text \<open>
  The schedule table is well-formed, and the sessions end at most an hour after \<open>T\<close>, a bound
  on the clock readings so far.
\<close>

definition sessions_end_by :: "timestamp \<Rightarrow> diagnostics_manager \<Rightarrow> bool" where
  "sessions_end_by T d \<longleftrightarrow> (\<forall>x. debug_slot d = Some x \<longrightarrow> ds_expires_at x \<le> T + seconds 3600) \<and>
     (\<forall>x. recovery_slot d = Some x \<longrightarrow> rs_expires_at x \<le> T + seconds 3600)"

definition service_wf :: "timestamp \<Rightarrow> 'c service \<Rightarrow> bool" where
  "service_wf T s \<longleftrightarrow> wf_table (schedules (sc_sched s)) \<and> sessions_end_by T (sc_diag s)"

text \<open>The schedules of one state are kept in another: same identifiers, same storage path.\<close>

definition keeps_schedules :: "'c service \<Rightarrow> 'c service \<Rightarrow> bool" where
  "keeps_schedules s t \<longleftrightarrow> dom (schedules (sc_sched s)) \<subseteq> dom (schedules (sc_sched t)) \<and>
     storage_path (sc_sched t) = storage_path (sc_sched s)"

lemma keeps_schedules_same [simp]: "sc_sched t = sc_sched s \<Longrightarrow> keeps_schedules s t"
  by (simp add: keeps_schedules_def)

lemma keeps_schedules_trans: "keeps_schedules s t \<Longrightarrow> keeps_schedules t u \<Longrightarrow> keeps_schedules s u"
  by (auto simp only: keeps_schedules_def)

section \<open>The handlers\<close>

lemma answer_state: "snd (answer r) = snd r"
  by (cases r; cases "fst r") auto

lemma seconds_mono: "a \<le> b \<Longrightarrow> seconds a \<le> seconds b"
  by (simp add: seconds_def)

lemma clamp_seconds: "seconds (uint (clamp_duration d)) \<le> seconds 3600"
proof (rule seconds_mono)
  have "uint (clamp_duration d) = int (unat (clamp_duration d))" by simp
  then show "uint (clamp_duration d) \<le> 3600" using clamp_duration_bounds [of d] by linarith
qed

lemma enable_debug_end:
  assumes "sessions_end_by T m" "t2 \<le> T"
  shows "sessions_end_by T (snd (enable_debug_mode rfc t1 t2 uuid d reason m))"
proof -
  have "t2 + seconds (uint (clamp_duration d)) \<le> T + seconds 3600" using clamp_seconds [of d] assms(2) by linarith
  then show ?thesis
    using assms(1) by (auto simp: sessions_end_by_def enable_debug_mode_def Let_def split: option.splits if_splits)
qed

lemma enable_recovery_end:
  assumes "sessions_end_by T m" "t2 \<le> T"
  shows "sessions_end_by T (snd (enable_recovery_mode rfc t1 t2 d reason m))"
proof -
  have "t2 + seconds (uint (clamp_duration d)) \<le> T + seconds 3600" using clamp_seconds [of d] assms(2) by linarith
  then show ?thesis
    using assms(1) by (auto simp: sessions_end_by_def enable_recovery_mode_def Let_def split: option.splits if_splits)
qed

text \<open>Only two requests change the table, only two the sessions.\<close>

lemma handle_sched:
  assumes "\<And>req. r \<noteq> ScheduleUpdate req" "\<And>i. r \<noteq> CancelScheduledUpdate i"
  shows "sc_sched (snd (handle E certs r s)) = sc_sched s"
proof (cases r)
  case (InitBootstrap pem)
  then show ?thesis by (simp add: answer_state init_bootstrap_def set_fs_def split: sum.splits prod.splits)
qed (use assms in \<open>simp_all only: handle.simps answer_state guarded_handlers,
  (intro guarded_state [where P = "\<lambda>s t. sc_sched t = sc_sched s"];
   simp add: set_fs_def split: sum.splits prod.splits cmd_outcome.splits option.splits)+\<close>)

lemma handle_diag:
  assumes "\<And>d reason. r \<noteq> EnableDebugMode d reason" "\<And>d reason. r \<noteq> EnableRecoveryMode d reason"
  shows "sc_diag (snd (handle E certs r s)) = sc_diag s"
proof (cases r)
  case (InitBootstrap pem)
  then show ?thesis by (simp add: answer_state init_bootstrap_def set_fs_def split: sum.splits prod.splits)
qed (use assms in \<open>simp_all only: handle.simps answer_state guarded_handlers,
  (intro guarded_state [where P = "\<lambda>s t. sc_diag t = sc_diag s"];
   simp add: set_fs_def split: sum.splits prod.splits cmd_outcome.splits option.splits)+\<close>)

lemma schedule_handler_table:
  "wf_table (schedules (sc_sched s)) \<longrightarrow> wf_table (schedules (sc_sched (snd (schedule_update_rpc E certs req s))))"
  "keeps_schedules s (snd (schedule_update_rpc E certs req s))"
proof -
  have *: "(wf_table (schedules sch) \<longrightarrow> wf_table (schedules sch')) \<and> dom (schedules sch) \<subseteq> dom (schedules sch') \<and>
      storage_path sch' = storage_path sch"
    if "schedule_update js now uuid url sha at window auto timeout pre post delta fallback full sch fs = (r, sch', fs')"
    for js now uuid url sha at window auto timeout pre post delta fallback full sch fs r sch' fs'
    using that create_op.op_wf [of sch js now uuid url sha at window auto timeout pre post delta fallback full fs]
      create_op.op_path [of js now uuid url sha at window auto timeout pre post delta fallback full sch fs]
    by (auto simp: schedule_update_def Let_def persist_then_eq)
  show "wf_table (schedules (sc_sched s)) \<longrightarrow> wf_table (schedules (sc_sched (snd (schedule_update_rpc E certs req s))))"
    unfolding schedule_update_rpc_def
    by (rule guarded_state [where P = "\<lambda>s t. wf_table (schedules (sc_sched s)) \<longrightarrow> wf_table (schedules (sc_sched t))"])
      (auto simp: set_fs_def split: sum.splits prod.splits dest: *)
  show "keeps_schedules s (snd (schedule_update_rpc E certs req s))"
    unfolding schedule_update_rpc_def
    by (rule guarded_state [where P = keeps_schedules])
      (auto simp: set_fs_def keeps_schedules_def split: sum.splits prod.splits dest!: *)
qed

lemma cancel_handler_table:
  "wf_table (schedules (sc_sched s)) \<longrightarrow> wf_table (schedules (sc_sched (snd (cancel_scheduled_update E certs i s))))"
  "keeps_schedules s (snd (cancel_scheduled_update E certs i s))"
proof -
  have *: "(wf_table (schedules sch) \<longrightarrow> wf_table (schedules sch')) \<and> dom (schedules sch) \<subseteq> dom (schedules sch') \<and>
      storage_path sch' = storage_path sch"
    if "cancel_schedule js i sch fs = (r, sch', fs')" for js i sch fs r sch' fs'
    using that cancel_op.op_wf [of sch js i fs] cancel_op.op_path [of js i sch fs]
    by (auto simp: cancel_schedule_def persist_then_eq split: option.splits if_splits)
  show "wf_table (schedules (sc_sched s)) \<longrightarrow> wf_table (schedules (sc_sched (snd (cancel_scheduled_update E certs i s))))"
    unfolding cancel_scheduled_update_def
    by (rule guarded_state [where P = "\<lambda>s t. wf_table (schedules (sc_sched s)) \<longrightarrow> wf_table (schedules (sc_sched t))"])
      (auto simp: set_fs_def split: prod.splits dest: *)
  show "keeps_schedules s (snd (cancel_scheduled_update E certs i s))"
    unfolding cancel_scheduled_update_def
    by (rule guarded_state [where P = keeps_schedules]) (auto simp: set_fs_def keeps_schedules_def split: prod.splits dest!: *)
qed

lemma session_handlers_end:
  "se_now E 1 \<le> T \<Longrightarrow> sessions_end_by T (sc_diag s) \<longrightarrow> sessions_end_by T (sc_diag (snd (enable_debug_mode_rpc E certs d reason s)))"
  "se_now E 1 \<le> T \<Longrightarrow> sessions_end_by T (sc_diag s) \<longrightarrow> sessions_end_by T (sc_diag (snd (enable_recovery_mode_rpc E certs d reason s)))"
proof -
  assume "se_now E 1 \<le> T"
  have ends: "enable_debug_mode rfc t1 (se_now E 1) uuid d reason m = (x, m') \<Longrightarrow> sessions_end_by T m \<Longrightarrow> sessions_end_by T m'"
    "enable_recovery_mode rfc t1 (se_now E 1) d reason m = (y, m') \<Longrightarrow> sessions_end_by T m \<Longrightarrow> sessions_end_by T m'"
    for rfc t1 uuid d reason m x y m'
    using enable_debug_end [OF _ \<open>se_now E 1 \<le> T\<close>, of m rfc t1 uuid d reason]
      enable_recovery_end [OF _ \<open>se_now E 1 \<le> T\<close>, of m rfc t1 d reason] by simp_all
  show "sessions_end_by T (sc_diag s) \<longrightarrow> sessions_end_by T (sc_diag (snd (enable_debug_mode_rpc E certs d reason s)))"
    unfolding enable_debug_mode_rpc_def
    by (rule guarded_state [where P = "\<lambda>s t. sessions_end_by T (sc_diag s) \<longrightarrow> sessions_end_by T (sc_diag t)"])
      (auto simp del: One_nat_def split: sum.splits prod.splits dest: ends(1))
  show "sessions_end_by T (sc_diag s) \<longrightarrow> sessions_end_by T (sc_diag (snd (enable_recovery_mode_rpc E certs d reason s)))"
    unfolding enable_recovery_mode_rpc_def
    by (rule guarded_state [where P = "\<lambda>s t. sessions_end_by T (sc_diag s) \<longrightarrow> sessions_end_by T (sc_diag t)"])
      (auto simp del: One_nat_def split: sum.splits prod.splits dest: ends(2))
qed

lemma handle_wf:
  assumes "service_wf T s" "se_now E 1 \<le> T"
  shows "service_wf T (snd (handle E certs r s)) \<and> keeps_schedules s (snd (handle E certs r s))"
proof -
  have "wf_table (schedules (sc_sched (snd (handle E certs r s)))) \<and> keeps_schedules s (snd (handle E certs r s))"
    using assms(1) handle_sched [of r E certs s] schedule_handler_table [of s E certs] cancel_handler_table [of s E certs]
    by (cases r) (simp_all add: service_wf_def answer_state)
  moreover have "sessions_end_by T (sc_diag (snd (handle E certs r s)))"
    using assms handle_diag [of r E certs s] session_handlers_end [OF assms(2), of s certs]
    by (cases r) (simp_all add: service_wf_def answer_state)
  ultimately show ?thesis by (simp add: service_wf_def)
qed

section \<open>Property\<close>

text \<open>
  The state of the service stays well-formed under any requests of any clients. As long as
  the clock stays below \<open>T\<close>, after any sequence of requests every schedule is stored under its
  own identifier and one marked as rolled back has a reason, no session lasts longer than
  an hour beyond \<open>T\<close>, no schedule has disappeared, and the table is stored where it was.
\<close>

definition serve :: "(('c, 'der, 'key) service_env \<times> 'der list option \<times> request) list \<Rightarrow> 'c service \<Rightarrow> 'c service" where
  "serve = fold (\<lambda>(E, certs, r) s. snd (handle E certs r s))"

lemma service_stays_wf:
  assumes "service_wf T s" "\<forall>(E, certs, r)\<in>set rs. se_now E 1 \<le> T"
  shows "service_wf T (serve rs s) \<and> keeps_schedules s (serve rs s)"
  using assms
proof (induction rs arbitrary: s)
  case (Cons q rs)
  obtain E certs r where q: "q = (E, certs, r)" by (cases q)
  let ?s = "snd (handle E certs r s)"
  have h: "service_wf T ?s \<and> keeps_schedules s ?s" using Cons(2,3) q by (intro handle_wf) auto
  then have "service_wf T (serve rs ?s) \<and> keeps_schedules ?s (serve rs ?s)" using Cons(1) [of ?s] Cons(3) by simp
  then show ?case using h q keeps_schedules_trans by (auto simp: serve_def)
qed (simp add: serve_def)

lemma service_stays_wf_witness:
  "service_wf 0 (serve [(demo_service_env, None, EnableDebugMode 7200 ''x''), (demo_service_env, Some [()], CancelScheduledUpdate ''a'')] demo_service)"
proof -
  have "service_wf 0 demo_service"
    using demo_scheduler_wf by (simp add: service_wf_def demo_service_def sessions_end_by_def new_diagnostics_manager_def)
  moreover have "se_now demo_service_env 1 \<le> 0" by (simp add: demo_service_env_def)
  ultimately show ?thesis
    using service_stays_wf [of 0 demo_service
        "[(demo_service_env, None, EnableDebugMode 7200 ''x''), (demo_service_env, Some [()], CancelScheduledUpdate ''a'')]"] by simp
qed

end
