(* ===== verification/Update_Steps.thy ===== *)
theory Update_Steps
  imports Node_Service
begin

text \<open>
  An update in steps small enough to be interleaved with what else the agent does: the
  flashing of an image chunk by chunk (\<open>flash_image\<close> and \<open>flash_full_image\<close> of
  \<open>cmd/keel-agent/src/disk.rs\<close>), the stream of an update request from message to message
  (\<open>install_update\<close> of \<open>lib.rs\<close>) and the scheduled update from stage to stage
  (\<open>execute_scheduled_update\<close> of \<open>main.rs\<close>). Each machine run on its own gives what the
  definition of the whole operation gives. The application of a delta is one step. The
  property at the end says what an update request comes to that nobody disturbs.
\<close>

section \<open>Flashing chunk by chunk\<close>

text \<open>The arguments of \<open>flash_image\<close>.\<close>

record flash_job =
  fj_url :: string
  fj_device :: string
  fj_sha256 :: "string option"
  fj_delta :: bool
  fj_fallback :: "string option"

definition flash_job_image :: "update_env \<Rightarrow> flash_job \<Rightarrow> disks \<Rightarrow> (io_error + u64) \<times> disks" where
  "flash_job_image U j =
     flash_image (ue_http U) (ue_sha256 U) (ue_bspatch U) (ue_tmp U) (fj_url j) (fj_device j) (fj_sha256 j)
       (fj_delta j) (fj_fallback j)"

text \<open>
  Where \<open>flash_image\<close> is: at its start, about to send the request for a full image, in the
  download loop (items still to come, bytes hashed, offset, bytes counted), or at its end.
\<close>

datatype flash_pos =
    FlashStart
  | FlashGet nat string
  | FlashBody "(string + string) list" string nat u64
  | FlashEnd "io_error + u64"

text \<open>The device is shared, so every chunk goes to the device as it is then.\<close>

fun flash_next :: "update_env \<Rightarrow> flash_job \<Rightarrow> flash_pos \<Rightarrow> disks \<Rightarrow> flash_pos \<times> disks" where
  "flash_next U j FlashStart w =
     (if fj_delta j then
        (case apply_delta_update (ue_http U 0) (ue_sha256 U) (ue_bspatch U) (ue_tmp U) (fj_url j) (fj_device j) (fj_sha256 j) w of
           (Inr bytes_saved, w') \<Rightarrow> (FlashEnd (Ok bytes_saved), w')
         | (Inl e, w') \<Rightarrow>
             (case fj_fallback j of
                Some full_url \<Rightarrow> (FlashGet 1 full_url, w')
              | None \<Rightarrow>
                  (FlashEnd (Err (OtherError (''Delta update failed and no fallback URL provided: '' @ io_msg e))), w')))
      else (FlashGet 0 (fj_url j), w))"
| "flash_next U j (FlashGet k url) w =
     (case ue_http U k url of
        RequestFailed e \<Rightarrow> (FlashEnd (Err (OtherError (''Download failed: '' @ e))), w)
      | Response ok st len items \<Rightarrow>
          if \<not> ok then (FlashEnd (Err (OtherError (''Server returned error: '' @ st))), w)
          else case dev_open (fj_device j) w of
            Inl e \<Rightarrow> (FlashEnd (Err e), w)
          | Inr d \<Rightarrow> (FlashBody items [] 0 0, w))"
| "flash_next U j (FlashBody items hashed off n) w =
     (case dk_dev w (fj_device j) of
        None \<Rightarrow> (FlashEnd (Err (OsError enoent)), w)
      | Some d \<Rightarrow>
          (case items of
             [] \<Rightarrow>
               (FlashEnd (and_then (dev_sync d) (\<lambda>_.
                  and_then (verify_sha256 (ue_sha256 U) (fj_sha256 j) hashed) (\<lambda>_. Ok 0))), w)
           | Inl e # _ \<Rightarrow> (FlashEnd (Err (OtherError (''Stream error: '' @ e))), w)
           | Inr chunk # rest \<Rightarrow>
               (case dev_write_all off chunk d of
                  (Inl e, d') \<Rightarrow> (FlashEnd (Err e), put_dev (fj_device j) d' w)
                | (Inr _, d') \<Rightarrow>
                    (FlashBody rest (hashed @ chunk) (off + length chunk) (n + of_nat (length chunk)),
                     put_dev (fj_device j) d' w))))"
| "flash_next U j (FlashEnd r) w = (FlashEnd r, w)"

fun flash_steps :: "update_env \<Rightarrow> flash_job \<Rightarrow> nat \<Rightarrow> flash_pos \<Rightarrow> disks \<Rightarrow> flash_pos \<times> disks" where
  "flash_steps U j 0 p w = (p, w)"
| "flash_steps U j (Suc k) p w = (case flash_next U j p w of (p', w') \<Rightarrow> flash_steps U j k p' w')"

lemma flash_steps_Suc:
  "flash_next U j p w = (p', w') \<Longrightarrow> \<exists>k. flash_steps U j k p' w' = x \<Longrightarrow> \<exists>k. flash_steps U j k p w = x"
  by (metis flash_steps.simps(2) prod.case)

lemma flash_steps_done: "\<exists>k. flash_steps U j k p w = (p, w)"
  by (metis flash_steps.simps(1))

lemma flash_body_run:
  assumes "flash_stream items hashed off n d = (r, d')" "dk_dev w (fj_device j) = Some d"
  shows "\<exists>k. flash_steps U j k (FlashBody items hashed off n) w =
    (FlashEnd (case r of Inl e \<Rightarrow> Err e
       | Inr (h, m) \<Rightarrow> and_then (dev_sync d') (\<lambda>_. and_then (verify_sha256 (ue_sha256 U) (fj_sha256 j) h) (\<lambda>_. Ok 0))),
     put_dev (fj_device j) d' w)"
  using assms
proof (induction items hashed off n d arbitrary: w rule: flash_stream.induct)
  case (1 hashed off n d)
  then have "put_dev (fj_device j) d' w = w" by (auto simp: put_dev_def fun_upd_idem)
  then show ?case using 1 by (intro flash_steps_Suc [OF _ flash_steps_done]) auto
next
  case (2 e "is" hashed off n d)
  then have "put_dev (fj_device j) d' w = w" by (auto simp: put_dev_def fun_upd_idem)
  then show ?case using 2 by (intro flash_steps_Suc [OF _ flash_steps_done]) auto
next
  case (3 chunk "is" hashed off n d)
  obtain r1 d1 where wr: "dev_write_all off chunk d = (r1, d1)" by force
  have pp: "put_dev (fj_device j) d' (put_dev (fj_device j) d1 w) = put_dev (fj_device j) d' w" for d'
    by (simp add: put_dev_def)
  show ?case
  proof (cases r1)
    case (Inl e)
    then show ?thesis using 3 wr by (intro flash_steps_Suc [OF _ flash_steps_done]) auto
  next
    case (Inr u)
    have "flash_stream is (hashed @ chunk) (off + length chunk) (n + of_nat (length chunk)) d1 = (r, d')"
      using 3(2) wr Inr by simp
    from 3(1) [OF wr [symmetric] Inr this, of "put_dev (fj_device j) d1 w"]
    show ?thesis
      using 3(3) wr Inr unfolding pp by (intro flash_steps_Suc [of U j "FlashBody _ _ _ _" w]) simp_all
  qed
qed

lemma flash_get_run:
  assumes "flash_full_image (ue_http U k) (ue_sha256 U) url (fj_device j) (fj_sha256 j) w = (r, w')"
  shows "\<exists>m. flash_steps U j m (FlashGet k url) w = (FlashEnd r, w')"
proof (cases "ue_http U k url")
  case (RequestFailed e)
  then show ?thesis using assms by (intro flash_steps_Suc [OF _ flash_steps_done]) (simp add: flash_full_image_def)
next
  case (Response ok st len items)
  show ?thesis
  proof (cases "ok \<and> (\<exists>d. dev_open (fj_device j) w = Ok d)")
    case True
    then obtain d where d: "dev_open (fj_device j) w = Ok d" by blast
    then have dd: "dk_dev w (fj_device j) = Some d" by (auto simp: dev_open_def split: option.splits)
    obtain r1 d' where run: "flash_stream items [] 0 0 d = (r1, d')" by force
    have "w' = put_dev (fj_device j) d' w" "r = (case r1 of Inl e \<Rightarrow> Err e
       | Inr (h, m) \<Rightarrow> and_then (dev_sync d') (\<lambda>_. and_then (verify_sha256 (ue_sha256 U) (fj_sha256 j) h) (\<lambda>_. Ok 0)))"
      using assms True d Response run
      by (cases r1; cases "dev_sync d'"; auto simp: flash_full_image_def Let_def split: sum.splits prod.splits)+
    then show ?thesis
      using flash_body_run [OF run dd, of U] True d Response by (intro flash_steps_Suc [of U j "FlashGet k url" w]) auto
  next
    case False
    then show ?thesis
      using assms Response
      by (intro flash_steps_Suc [OF _ flash_steps_done]) (cases "dev_open (fj_device j) w"; auto simp: flash_full_image_def)
  qed
qed

text \<open>Undisturbed, the steps of a flash end where \<open>flash_image\<close> ends.\<close>

lemma flash_run:
  assumes "flash_job_image U j w = (r, w')"
  shows "\<exists>k. flash_steps U j k FlashStart w = (FlashEnd r, w')"
proof (cases "fj_delta j")
  case False
  then show ?thesis
    using assms flash_get_run [of U 0 "fj_url j" j w r w']
    by (intro flash_steps_Suc [of U j FlashStart w]) (auto simp: flash_job_image_def flash_image_def)
next
  case True
  obtain r1 w1 where d: "apply_delta_update (ue_http U 0) (ue_sha256 U) (ue_bspatch U) (ue_tmp U) (fj_url j)
      (fj_device j) (fj_sha256 j) w = (r1, w1)" by force
  show ?thesis
  proof (cases "\<exists>e full. r1 = Err e \<and> fj_fallback j = Some full")
    case True
    then obtain e full where "r1 = Err e" "fj_fallback j = Some full" by blast
    then show ?thesis
      using assms d \<open>fj_delta j\<close> flash_get_run [of U 1 full j w1 r w']
      by (intro flash_steps_Suc [of U j FlashStart w "FlashGet 1 full" w1]) (simp_all add: flash_job_image_def flash_image_def)
  next
    case False
    then show ?thesis
      using assms d \<open>fj_delta j\<close>
      by (intro flash_steps_Suc [OF _ flash_steps_done])
        (cases r1; cases "fj_fallback j"; auto simp: flash_job_image_def flash_image_def)
  qed
qed

section \<open>The stream of an update request\<close>

definition request_job :: "install_request \<Rightarrow> partition_info \<Rightarrow> flash_job" where
  "request_job req p =
     \<lparr>fj_url = iu_source_url req, fj_device = part_device p, fj_sha256 = non_empty (iu_expected_sha256 req),
      fj_delta = iu_is_delta req,
      fj_fallback = (if iu_fallback_to_full req \<and> iu_full_image_url req \<noteq> [] then Some (iu_full_image_url req) else None)\<rparr>"

datatype stream_pos =
    Opened
  | Announced
  | Targeted partition_info
  | Flashing partition_info flash_pos
  | Flashed partition_info u64
  | Closed "status option"

text \<open>One step of the stream: the message it sends, if any, the new position and the disks.\<close>

fun stream_next ::
  "update_env \<Rightarrow> install_request \<Rightarrow> stream_pos \<Rightarrow> disks \<Rightarrow> update_progress list \<times> stream_pos \<times> disks" where
  "stream_next U req Opened w =
     ([progress 0 ''Identifying target partition...'' False ''preparing'' 0], Announced, w)"
| "stream_next U req Announced w =
     (case get_inactive_partition w of
        Inl e \<Rightarrow> ([], Closed (Some (Internal (''Failed to get inactive partition: '' @ io_msg e))), w)
      | Inr inactive \<Rightarrow>
          ([progress 10 (''Target partition identified: '' @ part_device inactive) False ''preparing'' 0], Targeted inactive, w))"
| "stream_next U req (Targeted inactive) w =
     ([progress 20
         (if iu_is_delta req then ''Downloading delta and patching to '' @ part_device inactive @ ''...''
          else ''Downloading and flashing to '' @ part_device inactive @ ''...'')
         False ''downloading'' 0], Flashing inactive FlashStart, w)"
| "stream_next U req (Flashing inactive (FlashEnd (Inl e))) w =
     ([], Closed (Some (Internal (''Flash error: '' @ io_msg e))), w)"
| "stream_next U req (Flashing inactive (FlashEnd (Inr bytes_saved))) w =
     ([progress 80 ''Image flashed. Toggling boot flags...'' False ''verifying'' bytes_saved], Flashed inactive bytes_saved, w)"
| "stream_next U req (Flashing inactive p) w =
     (case flash_next U (request_job req inactive) p w of (p', w') \<Rightarrow> ([], Flashing inactive p', w'))"
| "stream_next U req (Flashed inactive bytes_saved) w =
     (case switch_boot_partition (ue_sgdisk U) (part_index inactive) w of
        (Inl e, w') \<Rightarrow> ([], Closed (Some (Internal (''Failed to switch boot partition: '' @ io_msg e))), w')
      | (Inr _, w') \<Rightarrow>
          ([progress 100
              (if 0 < bytes_saved
               then ''Update installed successfully. Saved '' @ show_word bytes_saved @ '' bytes. Reboot to apply.''
               else ''Update installed successfully. Reboot to apply.'')
              True ''completed'' bytes_saved], Closed None, w'))"
| "stream_next U req (Closed err) w = ([], Closed err, w)"

fun stream_steps ::
  "update_env \<Rightarrow> install_request \<Rightarrow> nat \<Rightarrow> stream_pos \<Rightarrow> disks \<Rightarrow> update_progress list \<times> stream_pos \<times> disks" where
  "stream_steps U req 0 p w = ([], p, w)"
| "stream_steps U req (Suc k) p w =
     (case stream_next U req p w of (m, p1, w1) \<Rightarrow>
        (case stream_steps U req k p1 w1 of (ms, p2, w2) \<Rightarrow> (m @ ms, p2, w2)))"

lemma stream_steps_Suc:
  assumes "stream_next U req p w = (m, p1, w1)" "\<exists>k. stream_steps U req k p1 w1 = (ms, p2, w2)"
  shows "\<exists>k. stream_steps U req k p w = (m @ ms, p2, w2)"
proof -
  obtain k where "stream_steps U req k p1 w1 = (ms, p2, w2)" using assms(2) by blast
  then have "stream_steps U req (Suc k) p w = (m @ ms, p2, w2)" using assms(1) by simp
  then show ?thesis by blast
qed

lemma stream_steps_done: "\<exists>k. stream_steps U req k p w = ([], p, w)"
  by (metis stream_steps.simps(1))

lemma stream_flash_steps:
  "flash_steps U (request_job req inactive) k p w = (FlashEnd r, w') \<Longrightarrow>
     \<exists>m. stream_steps U req m (Flashing inactive p) w = ([], Flashing inactive (FlashEnd r), w')"
proof (induction k arbitrary: p w)
  case 0
  then show ?case using stream_steps_done [of U req "Flashing inactive (FlashEnd r)" w'] by simp
next
  case (Suc k)
  obtain p1 w1 where n: "flash_next U (request_job req inactive) p w = (p1, w1)" by force
  then have IH: "\<exists>m. stream_steps U req m (Flashing inactive p1) w1 = ([], Flashing inactive (FlashEnd r), w')"
    using Suc by simp
  show ?case
  proof (cases "\<exists>r'. p = FlashEnd r'")
    case True
    then show ?thesis using n IH by auto
  next
    case False
    then have "stream_next U req (Flashing inactive p) w = ([], Flashing inactive p1, w1)"
      using n by (cases p) simp_all
    from stream_steps_Suc [OF this IH] show ?thesis by simp
  qed
qed

lemma request_job_flash: "flash_job_image U (request_job req p) w = install_flash U req (part_device p) w"
  by (simp add: flash_job_image_def request_job_def install_flash_def)

lemma stream_steps_append:
  assumes "\<exists>k. stream_steps U req k p w = (ms1, p1, w1)" "\<exists>k. stream_steps U req k p1 w1 = (ms2, p2, w2)"
  shows "\<exists>k. stream_steps U req k p w = (ms1 @ ms2, p2, w2)"
proof -
  obtain k where "stream_steps U req k p w = (ms1, p1, w1)" using assms(1) by blast
  then show ?thesis
    using assms(2)
  proof (induction k arbitrary: p w ms1)
    case (Suc k)
    obtain m q v where n: "stream_next U req p w = (m, q, v)" by (metis prod_cases3)
    obtain ms where ms: "stream_steps U req k q v = (ms, p1, w1)" "ms1 = m @ ms"
      using Suc(2) n by (auto split: prod.splits)
    show ?case using stream_steps_Suc [OF n Suc(1) [OF ms(1) Suc(3)]] ms(2) by simp
  qed simp
qed

text \<open>From the request for an image to the message that it has been written.\<close>

lemma stream_flash_run:
  assumes "install_flash U req (part_device inactive) w = (r, w')"
  shows "\<exists>k. stream_steps U req k (Flashing inactive FlashStart) w = ([], Flashing inactive (FlashEnd r), w')"
proof -
  obtain k where "flash_steps U (request_job req inactive) k FlashStart w = (FlashEnd r, w')"
    using flash_run [of U "request_job req inactive" w r w'] assms request_job_flash by metis
  then show ?thesis by (rule stream_flash_steps)
qed

lemma stream_opening:
  assumes "get_inactive_partition w = Ok inactive"
  shows "\<exists>k. stream_steps U req k Opened w =
    ([progress 0 ''Identifying target partition...'' False ''preparing'' 0,
      progress 10 (''Target partition identified: '' @ part_device inactive) False ''preparing'' 0,
      progress 20
         (if iu_is_delta req then ''Downloading delta and patching to '' @ part_device inactive @ ''...''
          else ''Downloading and flashing to '' @ part_device inactive @ ''...'')
         False ''downloading'' 0], Flashing inactive FlashStart, w)"
  using assms by (intro exI [of _ 3]) (simp add: numeral_3_eq_3)

lemma install_stream_short:
  assumes "install_stream U req n w = ((msgs, err), w')" "n \<le> 3 \<or> (\<exists>e. get_inactive_partition w = Err e)"
  shows "\<exists>k pos. stream_steps U req k Opened w = (msgs, pos, w') \<and> (err \<noteq> None \<or> 5 \<le> n \<longrightarrow> pos = Closed err)"
proof (cases "get_inactive_partition w")
  case (Inl e)
  then show ?thesis
    using assms by (intro exI [of _ "min n 2"]) (auto simp: install_stream_def Let_def numeral_2_eq_2 split: if_splits)
next
  case (Inr inactive)
  then have "n = 0 \<or> n = 1 \<or> n = 2 \<or> n = 3" using assms(2) by auto
  then show ?thesis
    using assms(1) Inr by (intro exI [of _ n]) (auto simp: install_stream_def Let_def numeral_2_eq_2 numeral_3_eq_3)
qed

lemma install_stream_long:
  assumes run: "install_stream U req n w = ((msgs, err), w')" and n: "4 \<le> n"
    and i: "get_inactive_partition w = Ok inactive"
  shows "\<exists>k pos. stream_steps U req k Opened w = (msgs, pos, w') \<and> (err \<noteq> None \<or> 5 \<le> n \<longrightarrow> pos = Closed err)"
proof -
  obtain r1 w1 where f: "install_flash U req (part_device inactive) w = (r1, w1)" by force
  note flashed = stream_steps_append [OF stream_opening [OF i] stream_flash_run [OF f]]
  show ?thesis
  proof (cases r1)
    case (Inl e)
    have "\<exists>k. stream_steps U req k (Flashing inactive (FlashEnd r1)) w1 =
        ([], Closed (Some (Internal (''Flash error: '' @ io_msg e))), w1)"
      using Inl by (intro exI [of _ 1]) simp
    from stream_steps_append [OF flashed this] show ?thesis
      using run n i f Inl by (auto simp: install_stream_def Let_def)
  next
    case (Inr saved)
    have "\<exists>k. stream_steps U req k (Flashing inactive (FlashEnd r1)) w1 =
        ([progress 80 ''Image flashed. Toggling boot flags...'' False ''verifying'' saved], Flashed inactive saved, w1)"
      using Inr by (intro exI [of _ 1]) simp
    note four = stream_steps_append [OF flashed this]
    show ?thesis
    proof (cases "n = 4")
      case True
      then show ?thesis using four run i f Inr by (auto simp: install_stream_def Let_def)
    next
      case False
      obtain m p2 w2 where sw: "stream_next U req (Flashed inactive saved) w1 = (m, p2, w2)" by (metis prod_cases3)
      then have "\<exists>k. stream_steps U req k (Flashed inactive saved) w1 = (m, p2, w2)"
        by (intro exI [of _ 1]) simp
      from stream_steps_append [OF four this] show ?thesis
        using run n False i f Inr sw
        by (cases "fst (switch_boot_partition (ue_sgdisk U) (part_index inactive) w1)")
          (auto simp: install_stream_def Let_def split: prod.splits)
    qed
  qed
qed

section \<open>A scheduled update\<close>

definition schedule_job :: "update_schedule \<Rightarrow> partition_info \<Rightarrow> flash_job" where
  "schedule_job s p =
     \<lparr>fj_url = source_url s, fj_device = part_device p, fj_sha256 = expected_sha256 s, fj_delta = is_delta s,
      fj_fallback = fallback_of s\<rparr>"

datatype update_pos =
    UpdateStart
  | PreHook partition_info
  | UpdateFlash partition_info flash_pos
  | PostHook partition_info
  | RecordActive partition_info
  | SwitchBoot partition_info
  | UpdateEnd "string + unit"

fun update_next :: "update_env \<Rightarrow> update_schedule \<Rightarrow> update_pos \<Rightarrow> disks \<Rightarrow> update_pos \<times> disks" where
  "update_next U s UpdateStart w =
     (case get_inactive_partition w of
        Inl e \<Rightarrow> (UpdateEnd (Err (io_msg e)), w)
      | Inr inactive \<Rightarrow> (PreHook inactive, w))"
| "update_next U s (PreHook inactive) w =
     (case opt_hook (ue_hook U) (pre_update_hook s) w of
        (Inl e, w') \<Rightarrow> (UpdateEnd (Err e), w')
      | (Inr _, w') \<Rightarrow> (UpdateFlash inactive FlashStart, w'))"
| "update_next U s (UpdateFlash inactive (FlashEnd (Inl e))) w = (UpdateEnd (Err (io_msg e)), w)"
| "update_next U s (UpdateFlash inactive (FlashEnd (Inr saved))) w = (PostHook inactive, w)"
| "update_next U s (UpdateFlash inactive p) w =
     (case flash_next U (schedule_job s inactive) p w of (p', w') \<Rightarrow> (UpdateFlash inactive p', w'))"
| "update_next U s (PostHook inactive) w =
     (case opt_hook (ue_hook U) (post_update_hook s) w of
        (Inl e, w') \<Rightarrow> (UpdateEnd (Err e), w')
      | (Inr _, w') \<Rightarrow> (RecordActive inactive, w'))"
| "update_next U s (RecordActive inactive) w =
     (SwitchBoot inactive, snd (record_active_partition_for_rollback (ue_json U) (ue_stamp U) w))"
| "update_next U s (SwitchBoot inactive) w =
     (case switch_boot_partition (ue_sgdisk U) (part_index inactive) w of
        (Inl e, w') \<Rightarrow> (UpdateEnd (Err (io_msg e)), w')
      | (Inr _, w') \<Rightarrow> (UpdateEnd (Ok ()), w'))"
| "update_next U s (UpdateEnd r) w = (UpdateEnd r, w)"

fun update_steps :: "update_env \<Rightarrow> update_schedule \<Rightarrow> nat \<Rightarrow> update_pos \<Rightarrow> disks \<Rightarrow> update_pos \<times> disks" where
  "update_steps U s 0 p w = (p, w)"
| "update_steps U s (Suc k) p w = (case update_next U s p w of (p', w') \<Rightarrow> update_steps U s k p' w')"

lemma update_steps_Suc:
  "update_next U s p w = (p', w') \<Longrightarrow> \<exists>k. update_steps U s k p' w' = x \<Longrightarrow> \<exists>k. update_steps U s k p w = x"
  by (metis update_steps.simps(2) prod.case)

lemma update_steps_done: "\<exists>k. update_steps U s k p w = (p, w)"
  by (metis update_steps.simps(1))

lemma update_flash_steps:
  assumes "flash_steps U (schedule_job s inactive) k p w = (FlashEnd r, w')"
    and "\<exists>m. update_steps U s m (UpdateFlash inactive (FlashEnd r)) w' = x"
  shows "\<exists>m. update_steps U s m (UpdateFlash inactive p) w = x"
  using assms
proof (induction k arbitrary: p w)
  case (Suc k)
  obtain p1 w1 where n: "flash_next U (schedule_job s inactive) p w = (p1, w1)" by force
  then have IH: "\<exists>m. update_steps U s m (UpdateFlash inactive p1) w1 = x" using Suc by simp
  show ?case
  proof (cases "\<exists>r'. p = FlashEnd r'")
    case True
    then show ?thesis using n IH by auto
  next
    case False
    then have "update_next U s (UpdateFlash inactive p) w = (UpdateFlash inactive p1, w1)" using n by (cases p) simp_all
    from update_steps_Suc [OF this IH] show ?thesis .
  qed
qed simp

lemma update_tail_run:
  assumes "opt_hook (ue_hook U) (post_update_hook s) w = (h, w1)"
    and "w2 = snd (record_active_partition_for_rollback (ue_json U) (ue_stamp U) w1)"
    and "switch_boot_partition (ue_sgdisk U) (part_index inactive) w2 = (q, w3)"
  shows "\<exists>k. update_steps U s k (PostHook inactive) w =
    (case h of Inl e \<Rightarrow> (UpdateEnd (Err e), w1) | Inr _ \<Rightarrow> (UpdateEnd (map_err io_msg q), w3))"
proof (cases h)
  case (Inl e)
  then show ?thesis using assms(1) by (intro exI [of _ 1]) simp
next
  case (Inr u)
  have "\<exists>k. update_steps U s k (SwitchBoot inactive) w2 = (UpdateEnd (map_err io_msg q), w3)"
    using assms(3) by (intro update_steps_Suc [OF _ update_steps_done]) (cases q; simp)
  then have "\<exists>k. update_steps U s k (RecordActive inactive) w1 = (UpdateEnd (map_err io_msg q), w3)"
    by (rule update_steps_Suc [rotated]) (simp add: assms(2))
  then show ?thesis using assms(1) Inr by (intro update_steps_Suc [of U s "PostHook inactive" w "RecordActive inactive" w1]) simp_all
qed

text \<open>Undisturbed, the stages of a scheduled update end where the whole function ends.\<close>

lemma scheduled_update_run:
  assumes "execute_scheduled_update U s w = (r, w')"
  shows "\<exists>k. update_steps U s k UpdateStart w = (UpdateEnd r, w')"
proof (cases "get_inactive_partition w")
  case (Inl e)
  then show ?thesis
    using assms by (intro update_steps_Suc [OF _ update_steps_done]) (simp add: execute_scheduled_update_def)
next
  case i: (Inr p)
  obtain r1 w1 where h1: "opt_hook (ue_hook U) (pre_update_hook s) w = (r1, w1)" by force
  obtain r2 w2 where f: "flash_schedule U s (part_device p) w1 = (r2, w2)" by force
  obtain r3 w3 where h2: "opt_hook (ue_hook U) (post_update_hook s) w2 = (r3, w3)" by force
  obtain w4 where w4: "w4 = snd (record_active_partition_for_rollback (ue_json U) (ue_stamp U) w3)" by blast
  obtain q w5 where sw: "switch_boot_partition (ue_sgdisk U) (part_index p) w4 = (q, w5)" by force
  have "flash_job_image U (schedule_job s p) w1 = (r2, w2)"
    using f by (simp add: flash_job_image_def schedule_job_def flash_schedule_def)
  then obtain k where k: "flash_steps U (schedule_job s p) k FlashStart w1 = (FlashEnd r2, w2)"
    using flash_run by blast
  let ?out = "case r2 of Inl e \<Rightarrow> (UpdateEnd (Err (io_msg e)), w2)
       | Inr _ \<Rightarrow> (case r3 of Inl e \<Rightarrow> (UpdateEnd (Err e), w3) | Inr _ \<Rightarrow> (UpdateEnd (map_err io_msg q), w5))"
  have "\<exists>m. update_steps U s m (UpdateFlash p (FlashEnd r2)) w2 = ?out"
  proof (cases r2)
    case (Inl e)
    then show ?thesis by (intro exI [of _ 1]) simp
  next
    case (Inr saved)
    have "\<exists>m. update_steps U s m (PostHook p) w2 = ?out"
      unfolding Inr sum.case(2) by (rule update_tail_run [OF h2 w4 sw])
    then show ?thesis by (rule update_steps_Suc [rotated]) (simp add: Inr)
  qed
  then have flash: "\<exists>m. update_steps U s m (UpdateFlash p FlashStart) w1 = ?out"
    by (rule update_flash_steps [OF k])
  have res: "execute_scheduled_update U s w =
      (case r1 of Inl e \<Rightarrow> (Err e, w1) | Inr _ \<Rightarrow>
        (case r2 of Inl e \<Rightarrow> (Err (io_msg e), w2) | Inr _ \<Rightarrow>
          (case r3 of Inl e \<Rightarrow> (Err e, w3) | Inr _ \<Rightarrow> (map_err io_msg q, w5))))"
    using i h1 f h2 w4 sw by (cases r1; cases r2; cases r3; cases q) (simp_all add: execute_scheduled_update_def Let_def)
  have "\<exists>k. update_steps U s k (PreHook p) w = (UpdateEnd r, w')"
  proof (cases r1)
    case (Inl e)
    then show ?thesis using assms res h1 by (intro update_steps_Suc [OF _ update_steps_done]) auto
  next
    case (Inr u)
    then show ?thesis
      using assms res h1 flash
      by (intro update_steps_Suc [of U s "PreHook p" w "UpdateFlash p FlashStart" w1])
        (auto split: sum.splits)
  qed
  then show ?thesis using i by (intro update_steps_Suc [of U s UpdateStart w "PreHook p" w]) simp_all
qed

text \<open>The stream of a request, down to the chunks, ends as the whole operation does.\<close>

lemma install_stream_run:
  assumes "install_stream U req n w = ((msgs, err), w')"
  shows "\<exists>k pos. stream_steps U req k Opened w = (msgs, pos, w') \<and> (err \<noteq> None \<or> 5 \<le> n \<longrightarrow> pos = Closed err)"
proof (cases "n \<le> 3 \<or> (\<exists>e. get_inactive_partition w = Err e)")
  case True
  then show ?thesis using install_stream_short [OF assms] by blast
next
  case False
  then obtain inactive where "get_inactive_partition w = Ok inactive" by (cases "get_inactive_partition w") auto
  then show ?thesis using install_stream_long [OF assms] False by simp
qed

section \<open>An image that is served whole\<close>

lemma overwrite_append:
  "off \<le> length b \<Longrightarrow> overwrite (off + length c) e (overwrite off c b) = overwrite off (c @ e) b"
  by (simp add: overwrite_def ac_simps)

lemma flash_stream_serves:
  assumes "off + length (concat chunks) \<le> dev_limit d" "off \<le> length (dev_bytes d)"
  shows "\<exists>m. flash_stream (List.map Inr chunks) hashed off n d =
    (Ok (hashed @ concat chunks, m), d\<lparr>dev_bytes := overwrite off (concat chunks) (dev_bytes d)\<rparr>)"
  using assms
proof (induction chunks arbitrary: hashed off n d)
  case Nil
  then show ?case by (simp add: overwrite_def)
next
  case (Cons c cs)
  let ?d = "d\<lparr>dev_bytes := overwrite off c (dev_bytes d)\<rparr>"
  have wr: "dev_write_all off c d = (Ok (), ?d)" using Cons(2) by (simp add: dev_write_all_def)
  have "off + length c \<le> length (dev_bytes ?d)" using Cons(3) by (simp add: overwrite_def)
  then obtain m where "flash_stream (List.map Inr cs) (hashed @ c) (off + length c) (n + of_nat (length c)) ?d =
      (Ok ((hashed @ c) @ concat cs, m), ?d\<lparr>dev_bytes := overwrite (off + length c) (concat cs) (dev_bytes ?d)\<rparr>)"
    using Cons(1) [of "off + length c" ?d "hashed @ c" "n + of_nat (length c)"] Cons(2) by (auto simp: add.assoc)
  then show ?case using wr overwrite_append [OF Cons(3)] by simp
qed

lemma flash_full_image_serves:
  assumes "get url = Response True st len (List.map Inr chunks)" "dk_dev w p = Some d"
    and "dev_open_err d = None" "dev_sync_err d = None" "length (concat chunks) \<le> dev_limit d"
  shows "flash_full_image get sha256 url p expected w =
    (and_then (verify_sha256 sha256 expected (concat chunks)) (\<lambda>_. Ok 0),
     put_dev p (d\<lparr>dev_bytes := concat chunks @ drop (length (concat chunks)) (dev_bytes d)\<rparr>) w)"
proof -
  obtain m where "flash_stream (List.map Inr chunks) [] 0 0 d =
      (Ok (concat chunks, m), d\<lparr>dev_bytes := concat chunks @ drop (length (concat chunks)) (dev_bytes d)\<rparr>)"
    using flash_stream_serves [of 0 chunks d "[]" 0] assms(5) by (auto simp: overwrite_def)
  then show ?thesis
    using assms(1-4) by (simp add: flash_full_image_def dev_open_def dev_sync_def Let_def split: sum.splits)
qed

section \<open>Property\<close>

text \<open>
  C11. An update request that nobody disturbs installs what the server serves. On a node without
  faults, for a full image that the server serves in any chunks and that fits the inactive
  device, the stream, taken step by step down to the chunks, comes to its end: the inactive
  device then starts with the image and is unchanged behind it, and no other device has
  changed. If the request gave no digest or the digest is that of the image, the stream ends
  without an error, its fifth and last message reports success, and the boot flag is on the
  inactive slot and off the other one. Otherwise it ends with the error of the mismatch after
  three messages, none of which reports success, and the boot flags are as before.
\<close>

theorem undisturbed_stream_installs:
  assumes target: "get_inactive_partition w = Ok p" "dk_dev w (part_device p) = Some d"
    and device: "dev_open_err d = None" "dev_sync_err d = None" "length (concat chunks) \<le> dev_limit d"
    and server: "\<not> iu_is_delta req" "ue_http U 0 (iu_source_url req) = Response True st len (List.map Inr chunks)"
    and node: "sgdisk_runs (ue_sgdisk U)" "has_sgdisk (dk_fs w)"
  shows "\<exists>k msgs err w'. stream_steps U req k Opened w = (msgs, Closed err, w') \<and>
    dk_dev w' = (dk_dev w)(part_device p \<mapsto>
      d\<lparr>dev_bytes := concat chunks @ drop (length (concat chunks)) (dev_bytes d)\<rparr>) \<and>
    (if iu_expected_sha256 req = [] \<or> ue_sha256 U (concat chunks) = to_lowercase (iu_expected_sha256 req)
     then err = None \<and> length msgs = 5 \<and> up_success (last msgs) \<and>
       dk_flags w' = ((dk_flags w)(other_slot (part_index p) := False))(part_index p := True)
     else err = Some (Internal (''Flash error: SHA256 mismatch: expected '' @ iu_expected_sha256 req @
              '', got '' @ ue_sha256 U (concat chunks))) \<and>
       length msgs = 3 \<and> (\<forall>m\<in>set msgs. \<not> up_success m) \<and> dk_flags w' = dk_flags w)"
proof -
  let ?img = "concat chunks" and ?e = "iu_expected_sha256 req"
  let ?w1 = "put_dev (part_device p) (d\<lparr>dev_bytes := ?img @ drop (length ?img) (dev_bytes d)\<rparr>) w"
  have fl: "install_flash U req (part_device p) w = (and_then (verify_sha256 (ue_sha256 U) (non_empty ?e) ?img) (\<lambda>_. Ok 0), ?w1)"
    using flash_full_image_serves [of "ue_http U 0", OF server(2) target(2) device] server(1) by (simp add: install_flash_def flash_image_def)
  obtain w2 where sw: "switch_boot_partition (ue_sgdisk U) (part_index p) ?w1 = (Ok (), w2)"
    "dk_flags w2 = ((dk_flags ?w1)(other_slot (part_index p) := False))(part_index p := True)"
    using switch_runs [OF node(1), of ?w1 "part_index p"] node(2) by auto
  have "dk_dev w2 = dk_dev ?w1" using switch_frame [OF sw(1)] by simp
  obtain msgs err w' where run: "install_stream U req 5 w = ((msgs, err), w')" by (metis surj_pair)
  then obtain k where k: "stream_steps U req k Opened w = (msgs, Closed err, w')" using install_stream_run [OF run] by auto
  show ?thesis
  proof (cases "?e = [] \<or> ue_sha256 U ?img = to_lowercase ?e")
    case True
    then have "verify_sha256 (ue_sha256 U) (non_empty ?e) ?img = Ok ()" by (auto simp: verify_sha256_def non_empty_def)
    then show ?thesis
      using k run True sw \<open>dk_dev w2 = dk_dev ?w1\<close> target(1) fl
      by (intro exI [of _ k] exI [of _ msgs] exI [of _ err] exI [of _ w']) (auto simp: install_stream_def Let_def progress_def)
  next
    case False
    then have "verify_sha256 (ue_sha256 U) (non_empty ?e) ?img =
        Err (InvalidData (''SHA256 mismatch: expected '' @ ?e @ '', got '' @ ue_sha256 U ?img))"
      by (auto simp: verify_sha256_def non_empty_def Let_def)
    then show ?thesis
      using k run False target(1) fl
      by (intro exI [of _ k] exI [of _ msgs] exI [of _ err] exI [of _ w']) (auto simp: install_stream_def Let_def progress_def)
  qed
qed

theorem undisturbed_stream_installs_witness:
  "\<exists>k msgs w'. stream_steps demo_env demo_install k Opened demo_disks = (msgs, Closed None, w') \<and> length msgs = 5 \<and>
     map_option dev_bytes (dk_dev w' ''/dev/sda3'') = Some ''CDBB'' \<and> dk_flags w' 3 \<and> \<not> dk_flags w' 2"
proof -
  have d: "dk_dev demo_disks (part_device \<lparr>part_device = ''/dev/sda3'', part_index = 3\<rparr>) = Some (demo_device ''BBBB'')"
    by (simp add: demo_disks_def)
  have h: "ue_http demo_env 0 (iu_source_url demo_install) = Response True ''200 OK'' (Some 2) (List.map Inr [''C'', ''D''])"
    by (simp add: demo_env_def)
  have n: "sgdisk_runs (ue_sgdisk demo_env)" "has_sgdisk (dk_fs demo_disks)"
    by (simp_all add: demo_env_def demo_sgdisk_runs has_sgdisk_def demo_disks_def)
  have "iu_expected_sha256 demo_install = []" by (simp add: demo_install_def)
  moreover have "dev_open_err (demo_device ''BBBB'') = None" "dev_sync_err (demo_device ''BBBB'') = None"
    "length (concat [''C'', ''D'']) \<le> dev_limit (demo_device ''BBBB'')" "\<not> iu_is_delta demo_install"
    by (simp_all add: demo_device_def demo_install_def)
  ultimately obtain k msgs w' where run: "stream_steps demo_env demo_install k Opened demo_disks = (msgs, Closed None, w')"
    and "length msgs = 5" "dk_flags w' = ((dk_flags demo_disks)(other_slot 3 := False))(3 := True)"
    "dk_dev w' = (dk_dev demo_disks)(''/dev/sda3'' \<mapsto> (demo_device ''BBBB'')\<lparr>dev_bytes := ''CDBB''\<rparr>)"
    using undisturbed_stream_installs [OF demo_inactive d _ _ _ _ h n] by (auto simp: demo_device_def)
  then show ?thesis
    by (intro exI [of _ k] exI [of _ msgs] exI [of _ w']) (simp add: run other_slot_def SLOT_A_INDEX_def SLOT_B_INDEX_def)
qed

end
