(* ===== verification/Scheduler_Lock.thy ===== *)
theory Scheduler_Lock
  imports Scheduler
begin

text \<open>
  The scheduler under concurrent callers (\<open>cmd/keel-agent/src/update_scheduler.rs\<close>), at the
  granularity of its lock. A call changes the table under the write lock, drops the lock,
  and then writes the file under the read lock: other calls may change the table in between,
  and several calls may be writing the file at the same time. \<open>fs::write\<close> truncates the
  file when it opens it and then writes the document piece by piece, each writer at its own
  offset. The theory Scheduler has every call as a whole; here its two parts are steps of
  their own.
\<close>

section \<open>The critical section of a call\<close>

text \<open>
  What a call does under the write lock: it returns at once with a result, or it leaves a
  new table and goes on to write the file.
\<close>

fun edit_cmd :: "sched_cmd \<Rightarrow> scheduler \<Rightarrow> (string + unit) + scheduler" where
  "edit_cmd (CmdSchedule now uuid url sha at window auto timeout pre post delta fb full) sch =
     Inr (sch\<lparr>schedules := (schedules sch)(uuid \<mapsto>
       make_schedule now uuid url sha at window auto timeout pre post delta fb full)\<rparr>)"
| "edit_cmd (CmdCancel i) sch =
     (case schedules sch i of
        Some s \<Rightarrow>
          if sched_status s = Pending
          then Inr (sch\<lparr>schedules := (schedules sch)(i \<mapsto> s\<lparr>sched_status := Cancelled\<rparr>)\<rparr>)
          else Inl (Err (''Cannot cancel schedule in status: '' @ schedule_status_str (sched_status s)))
      | None \<Rightarrow> Inl (Err (''Schedule not found: '' @ i)))"
| "edit_cmd (CmdStatus now i st err) sch =
     (case schedules sch i of
        Some s \<Rightarrow> Inr (sch\<lparr>schedules := (schedules sch)(i \<mapsto> set_status now st err s)\<rparr>)
      | None \<Rightarrow> Inl (Err (''Schedule not found: '' @ i)))"
| "edit_cmd (CmdTrigger now i reason) sch =
     (case schedules sch i of
        Some s \<Rightarrow> Inr (sch\<lparr>schedules := (schedules sch)(i \<mapsto> mark_rolled_back now reason s)\<rparr>)
      | None \<Rightarrow> Inl (Err (''Schedule not found: '' @ i)))"
| "edit_cmd (CmdRegister ks now reason) sch =
     (case map_option sched_id (max_by_key started_at (filter is_active (hash_values ks (schedules sch)))) of
        Some i \<Rightarrow>
          Inr (case schedules sch i of
                 Some s \<Rightarrow> sch\<lparr>schedules := (schedules sch)(i \<mapsto> mark_rolled_back now reason s)\<rparr>
               | None \<Rightarrow> sch)
      | None \<Rightarrow> Inl (Ok ()))"

text \<open>A call that nobody interrupts is its critical section followed by the write.\<close>

lemma run_cmd_split:
  "run_cmd js c sch fs =
     (case edit_cmd c sch of Inl r \<Rightarrow> (r, sch, fs) | Inr sch' \<Rightarrow> persist_then js () sch' fs)"
proof (cases c)
  case (CmdSchedule now uuid url sha at window auto timeout pre post delta fb full)
  then show ?thesis
    by (auto simp: schedule_update_def Let_def persist_then_def split: prod.splits sum.splits)
qed (auto simp: cancel_schedule_def update_status_def trigger_rollback_def register_rollback_def Let_def
    split: option.splits)

lemma edit_cmd_path: "edit_cmd c sch = Inr sch' \<Longrightarrow> storage_path sch' = storage_path sch"
  by (cases c) (auto split: option.splits if_splits)

section \<open>Writing a file piece by piece\<close>

text \<open>\<open>write(2)\<close> at an offset: a gap before it is filled with zero bytes.\<close>

definition write_at :: "nat \<Rightarrow> string \<Rightarrow> string \<Rightarrow> string" where
  "write_at off c b = take off (b @ replicate (off - length b) CHR 0x00) @ c @ drop (off + length c) b"

lemma write_at_length: "length (write_at off c b) = max (length b) (off + length c)"
  by (auto simp: write_at_def)

lemma write_at_nth:
  "p < length (write_at off c b) \<Longrightarrow> write_at off c b ! p =
     (if p < off then (if p < length b then b ! p else CHR 0x00)
      else if p < off + length c then c ! (p - off) else b ! p)"
  by (auto simp: write_at_def nth_append min_def)

text \<open>\<open>b\<close> agrees with the document \<open>d\<close> up to \<open>k\<close> and is not longer.\<close>

definition agrees :: "string \<Rightarrow> nat \<Rightarrow> string \<Rightarrow> bool" where
  "agrees d k b \<longleftrightarrow> k \<le> length b \<and> length b \<le> length d \<and> (\<forall>p<k. b ! p = d ! p)"

lemma agrees_start: "agrees d 0 []"
  by (simp add: agrees_def)

lemma agrees_full: "agrees d (length d) b \<longleftrightarrow> b = d"
  by (auto simp: agrees_def intro: nth_equalityI)

text \<open>Whoever writes a piece of the document, what agreed still agrees.\<close>

lemma agrees_write:
  assumes "agrees d k b" "j + n \<le> length d"
  shows "agrees d k (write_at j (take n (drop j d)) b)"
  using assms by (auto simp: agrees_def write_at_length write_at_nth)

lemma agrees_write_own:
  assumes "agrees d k b" "k + n \<le> length d"
  shows "agrees d (k + n) (write_at k (take n (drop k d)) b)"
  using assms by (auto simp: agrees_def write_at_length write_at_nth)

section \<open>Steps\<close>

text \<open>
  Where a call is: it returned from its critical section without a change, it waits for
  the read lock, it is writing the document with so many bytes behind it, or it is over.
\<close>

datatype call = Refused "string + unit" | Edited | Writing string nat | Persisted | NotPersisted string

text \<open>\<open>lk_opener\<close> is an auxiliary variable of the proofs: the call that opened the file last.\<close>

record lock_state =
  lk_sched :: scheduler
  lk_fs :: fsys
  lk_calls :: "nat \<rightharpoonup> call"
  lk_opener :: "nat option"

abbreviation lk_file :: "lock_state \<Rightarrow> string option" where
  "lk_file x \<equiv> fs_files (lk_fs x) (storage_path (lk_sched x))"

definition lock_free :: "lock_state \<Rightarrow> bool" where
  "lock_free x \<longleftrightarrow> (\<forall>i d k. lk_calls x i \<noteq> Some (Writing d k))"

definition set_call :: "nat \<Rightarrow> call \<Rightarrow> lock_state \<Rightarrow> lock_state" where
  "set_call i c x = x\<lparr>lk_calls := (lk_calls x)(i \<mapsto> c)\<rparr>"

definition set_file :: "string \<Rightarrow> lock_state \<Rightarrow> lock_state" where
  "set_file b x = x\<lparr>lk_fs := (lk_fs x)\<lparr>fs_files := (fs_files (lk_fs x))(storage_path (lk_sched x) \<mapsto> b)\<rparr>\<rparr>"

definition make_parent :: "scheduler \<Rightarrow> fsys \<Rightarrow> fsys" where
  "make_parent sch fs =
     (case path_parent (storage_path sch) of None \<Rightarrow> fs | Some parent \<Rightarrow> snd (create_dir_all parent fs))"

text \<open>The first step of the write: the directory is made and the file is truncated.\<close>

definition open_file_for :: "nat \<Rightarrow> string \<Rightarrow> lock_state \<Rightarrow> lock_state" where
  "open_file_for i d x =
     set_file [] (set_call i (Writing d 0) (x\<lparr>lk_fs := make_parent (lk_sched x) (lk_fs x), lk_opener := Some i\<rparr>))"

inductive lstep :: "schedule_map json \<Rightarrow> lock_state \<Rightarrow> lock_state \<Rightarrow> bool" for js where
  refuse: "lk_calls x i = None \<Longrightarrow> lock_free x \<Longrightarrow> edit_cmd c (lk_sched x) = Inl r \<Longrightarrow>
     lstep js x (set_call i (Refused r) x)"
| edit: "lk_calls x i = None \<Longrightarrow> lock_free x \<Longrightarrow> edit_cmd c (lk_sched x) = Inr sch \<Longrightarrow>
     lstep js x (set_call i Edited (x\<lparr>lk_sched := sch\<rparr>))"
| serialize_fails: "lk_calls x i = Some Edited \<Longrightarrow> to_json js (schedules (lk_sched x)) = Err e \<Longrightarrow>
     lstep js x (set_call i (NotPersisted (''Failed to serialize schedules: '' @ e)) x)"
| open_fails: "lk_calls x i = Some Edited \<Longrightarrow> to_json js (schedules (lk_sched x)) = Ok d \<Longrightarrow>
     lstep js x (set_call i (NotPersisted (''Failed to write schedules: '' @ e))
       (x\<lparr>lk_fs := make_parent (lk_sched x) (lk_fs x)\<rparr>))"
| opens: "lk_calls x i = Some Edited \<Longrightarrow> to_json js (schedules (lk_sched x)) = Ok d \<Longrightarrow>
     lstep js x (open_file_for i d x)"
| writes: "lk_calls x i = Some (Writing d k) \<Longrightarrow> 0 < n \<Longrightarrow> k + n \<le> length d \<Longrightarrow> lk_file x = Some b \<Longrightarrow>
     lstep js x (set_file (write_at k (take n (drop k d)) b) (set_call i (Writing d (k + n)) x))"
| write_fails: "lk_calls x i = Some (Writing d k) \<Longrightarrow>
     lstep js x (set_call i (NotPersisted (''Failed to write schedules: '' @ e)) x)"
| closes: "lk_calls x i = Some (Writing d (length d)) \<Longrightarrow> lstep js x (set_call i Persisted x)"

inductive_cases lstep_elim: "lstep js x y"

lemma set_call_simps [simp]:
  "lk_sched (set_call i c x) = lk_sched x" "lk_fs (set_call i c x) = lk_fs x"
  "lk_opener (set_call i c x) = lk_opener x" "lk_calls (set_call i c x) = (lk_calls x)(i \<mapsto> c)"
  by (simp_all add: set_call_def)

lemma set_file_simps [simp]:
  "lk_sched (set_file b x) = lk_sched x" "lk_calls (set_file b x) = lk_calls x"
  "lk_opener (set_file b x) = lk_opener x"
  "fs_files (lk_fs (set_file b x)) = (fs_files (lk_fs x))(storage_path (lk_sched x) \<mapsto> b)"
  "fs_read_err (lk_fs (set_file b x)) = fs_read_err (lk_fs x)"
  by (simp_all add: set_file_def)

lemma make_parent_simps [simp]:
  "fs_files (make_parent sch fs) = fs_files fs" "fs_read_err (make_parent sch fs) = fs_read_err fs"
  by (simp_all add: make_parent_def split: option.splits)

lemma open_file_for_simps [simp]:
  "lk_sched (open_file_for i d x) = lk_sched x" "lk_opener (open_file_for i d x) = Some i"
  "lk_calls (open_file_for i d x) = (lk_calls x)(i \<mapsto> Writing d 0)"
  "fs_files (lk_fs (open_file_for i d x)) = (fs_files (lk_fs x))(storage_path (lk_sched x) \<mapsto> [])"
  "fs_read_err (lk_fs (open_file_for i d x)) = fs_read_err (lk_fs x)"
  by (simp_all add: open_file_for_def)

section \<open>The invariant\<close>

text \<open>
  Every writer writes the document of the table as it is, since the table cannot change
  while someone writes. A change that did not reach the disk belongs to a call that is
  still to write or has failed (\<open>behind\<close>). Otherwise the file agrees with the document as
  far as the last opener has come, whatever the other writers do.
\<close>

fun lagging :: "call \<Rightarrow> bool" where
  "lagging Edited = True"
| "lagging (NotPersisted e) = True"
| "lagging c = False"

definition behind :: "lock_state \<Rightarrow> bool" where
  "behind x \<longleftrightarrow> (\<exists>i c. lk_calls x i = Some c \<and> lagging c)"

definition writers_ok :: "schedule_map json \<Rightarrow> lock_state \<Rightarrow> bool" where
  "writers_ok js x \<longleftrightarrow> (\<forall>i d k. lk_calls x i = Some (Writing d k) \<longrightarrow>
     to_json js (schedules (lk_sched x)) = Ok d \<and> k \<le> length d \<and> lk_opener x \<noteq> None)"

fun file_ok :: "schedule_map json \<Rightarrow> lock_state \<Rightarrow> call option \<Rightarrow> bool" where
  "file_ok js x (Some (Writing d k)) = (\<exists>b. lk_file x = Some b \<and> agrees d k b)"
| "file_ok js x (Some Persisted) =
     (behind x \<or> (\<exists>d. to_json js (schedules (lk_sched x)) = Ok d \<and> lk_file x = Some d))"
| "file_ok js x (Some (NotPersisted e)) = True"
| "file_ok js x c = False"

definition lock_inv :: "schedule_map json \<Rightarrow> lock_state \<Rightarrow> lock_state \<Rightarrow> bool" where
  "lock_inv js x0 x \<longleftrightarrow> writers_ok js x \<and>
     storage_path (lk_sched x) = storage_path (lk_sched x0) \<and> fs_read_err (lk_fs x) = fs_read_err (lk_fs x0) \<and>
     (case lk_opener x of
        Some i \<Rightarrow> file_ok js x (lk_calls x i)
      | None \<Rightarrow> (\<forall>i. lk_calls x i \<noteq> Some Persisted) \<and>
          (behind x \<or> lk_sched x = lk_sched x0 \<and> lk_file x = lk_file x0))"

lemma behind_set_call [simp]: "lagging c \<Longrightarrow> behind (set_call i c x)"
  by (auto simp: behind_def)

lemma behind_same:
  assumes "lk_calls y = (lk_calls x)(i \<mapsto> c)" "\<not> lagging c" "\<And>c'. lk_calls x i = Some c' \<Longrightarrow> \<not> lagging c'"
  shows "behind y \<longleftrightarrow> behind x"
  unfolding behind_def assms(1) using assms(2,3) by (metis fun_upd_apply option.inject)

lemma file_ok_behind:
  "file_ok js x c \<Longrightarrow> behind y \<Longrightarrow> (\<forall>d k. c \<noteq> Some (Writing d k)) \<or> lk_file y = lk_file x \<Longrightarrow> file_ok js y c"
  by (cases "(js, x, c)" rule: file_ok.cases) auto

lemma file_ok_cong:
  assumes "lk_sched y = lk_sched x" "lk_file y = lk_file x" "behind x \<Longrightarrow> behind y"
  shows "file_ok js x c \<Longrightarrow> file_ok js y c"
  using assms by (cases "(js, x, c)" rule: file_ok.cases) auto

lemma writers_ok_upd:
  assumes "writers_ok js x" "lk_sched y = lk_sched x" "lk_opener x \<noteq> None \<Longrightarrow> lk_opener y \<noteq> None"
    and "lk_calls y = (lk_calls x)(i \<mapsto> c)"
    and "\<And>d k. c = Writing d k \<Longrightarrow> to_json js (schedules (lk_sched x)) = Ok d \<and> k \<le> length d \<and> lk_opener y \<noteq> None"
  shows "writers_ok js y"
  unfolding writers_ok_def
proof (intro allI impI)
  fix j d k assume "lk_calls y j = Some (Writing d k)"
  then show "to_json js (schedules (lk_sched y)) = Ok d \<and> k \<le> length d \<and> lk_opener y \<noteq> None"
    using assms by (cases "j = i") (simp_all add: writers_ok_def)
qed

lemma lock_inv_writers: "lock_inv js x0 x \<Longrightarrow> writers_ok js x"
  by (simp add: lock_inv_def)

text \<open>A step that ends one call with a failure, or that starts one, leaves the file alone.\<close>

lemma lock_inv_behind:
  assumes "lock_inv js x0 x" "writers_ok js y" "behind y" "lk_opener y = lk_opener x"
    and "storage_path (lk_sched y) = storage_path (lk_sched x)" "fs_read_err (lk_fs y) = fs_read_err (lk_fs x)"
    and "\<And>j. lk_opener x = Some j \<Longrightarrow>
      lk_calls y j = lk_calls x j \<and> lock_free x \<or> (\<exists>e. lk_calls y j = Some (NotPersisted e)) \<or>
      lk_calls y j = lk_calls x j \<and> lk_file y = lk_file x"
    and "\<And>j. lk_opener x = None \<Longrightarrow> lk_calls y j \<noteq> Some Persisted"
  shows "lock_inv js x0 y"
proof (cases "lk_opener x")
  case None
  then show ?thesis using assms by (auto simp: lock_inv_def)
next
  case (Some j)
  have "file_ok js x (lk_calls x j)" using assms(1) Some by (simp add: lock_inv_def)
  then have "file_ok js y (lk_calls y j)"
    using assms(7) [OF Some] assms(3) file_ok_behind [of js x "lk_calls x j" y] by (elim disjE) (auto simp: lock_free_def)
  then show ?thesis using assms(1-6) Some by (simp add: lock_inv_def)
qed

lemma lstep_inv:
  assumes "lstep js x y" "lock_inv js x0 x"
  shows "lock_inv js x0 y"
  using assms(1)
proof (cases rule: lstep.cases)
  case (refuse i c r)
  have "behind y \<longleftrightarrow> behind x" by (rule behind_same [of _ _ i "Refused r"]) (use refuse in simp_all)
  moreover have "writers_ok js y" by (rule writers_ok_upd [OF lock_inv_writers [OF assms(2)], of _ i]) (use refuse in auto)
  moreover have "file_ok js y (lk_calls y j)" if "lk_opener x = Some j" for j
  proof -
    have "file_ok js x (lk_calls x j)" using assms(2) that by (simp add: lock_inv_def)
    moreover from this have "j \<noteq> i" using refuse by (cases "j = i") auto
    ultimately show ?thesis using refuse \<open>behind y \<longleftrightarrow> behind x\<close> file_ok_cong [of y x js "lk_calls x j"] by simp
  qed
  ultimately show ?thesis using assms(2) refuse by (auto simp: lock_inv_def split: option.splits)
next
  case (edit i c sch)
  show ?thesis
  proof (rule lock_inv_behind [OF assms(2)])
    show "writers_ok js y" using edit by (auto simp: writers_ok_def lock_free_def)
    show "behind y" using edit by simp
    fix j assume "lk_opener x = Some j"
    then have "file_ok js x (lk_calls x j)" using assms(2) by (simp add: lock_inv_def)
    then have "j \<noteq> i" using edit by (cases "j = i") auto
    then show "lk_calls y j = lk_calls x j \<and> lock_free x \<or> (\<exists>e. lk_calls y j = Some (NotPersisted e)) \<or>
      lk_calls y j = lk_calls x j \<and> lk_file y = lk_file x" using edit by simp
  qed (use assms(2) edit edit_cmd_path in \<open>auto simp: lock_inv_def\<close>)
next
  case (serialize_fails i e)
  show ?thesis
  proof (rule lock_inv_behind [OF assms(2)])
    show "writers_ok js y" by (rule writers_ok_upd [OF lock_inv_writers [OF assms(2)], of _ i]) (use serialize_fails in auto)
    show "behind y" using serialize_fails by simp
  qed (use assms(2) serialize_fails in \<open>auto simp: lock_inv_def\<close>)
next
  case (open_fails i d e)
  show ?thesis
  proof (rule lock_inv_behind [OF assms(2)])
    show "writers_ok js y" by (rule writers_ok_upd [OF lock_inv_writers [OF assms(2)], of _ i]) (use open_fails in auto)
    show "behind y" using open_fails by simp
  qed (use assms(2) open_fails in \<open>auto simp: lock_inv_def\<close>)
next
  case (opens i d)
  then have "writers_ok js y"
    by (intro writers_ok_upd [OF lock_inv_writers [OF assms(2)], of _ i]) auto
  then show ?thesis using assms(2) agrees_start opens by (simp add: lock_inv_def)
next
  case (writes i d k n b)
  have w: "to_json js (schedules (lk_sched x)) = Ok d" "lk_opener x \<noteq> None"
    using assms(2) writes by (auto simp: lock_inv_def writers_ok_def)
  then obtain j where j: "lk_opener x = Some j" by auto
  have ok: "file_ok js x (lk_calls x j)" using assms(2) j by (simp add: lock_inv_def)
  have wr: "to_json js (schedules (lk_sched x)) = Ok d'" if "lk_calls x j' = Some (Writing d' k')" for j' d' k'
    using assms(2) that by (auto simp: lock_inv_def writers_ok_def)
  have bh: "behind y \<longleftrightarrow> behind x" by (rule behind_same [of _ _ i "Writing d (k + n)"]) (use writes in simp_all)
  have "file_ok js y (lk_calls y j)"
  proof (cases "j = i")
    case True
    then show ?thesis using ok writes agrees_write_own [of d k b n] by auto
  next
    case False
    then show ?thesis
      using ok writes w(1) bh wr [of j] agrees_write [of d _ b k n] agrees_full [of d b]
        agrees_full [of d "write_at k (take n (drop k d)) b"]
      by (cases "(js, x, lk_calls x j)" rule: file_ok.cases) auto
  qed
  moreover have "writers_ok js y"
    by (rule writers_ok_upd [OF lock_inv_writers [OF assms(2)], of _ i]) (use writes w in auto)
  ultimately show ?thesis using assms(2) j writes by (simp add: lock_inv_def)
next
  case (write_fails i d k e)
  show ?thesis
  proof (rule lock_inv_behind [OF assms(2)])
    show "writers_ok js y" by (rule writers_ok_upd [OF lock_inv_writers [OF assms(2)], of _ i]) (use write_fails in auto)
    show "behind y" using write_fails by simp
  qed (use assms(2) write_fails in \<open>auto simp: lock_inv_def\<close>)
next
  case (closes i d)
  have w: "to_json js (schedules (lk_sched x)) = Ok d" "lk_opener x \<noteq> None"
    using assms(2) closes by (auto simp: lock_inv_def writers_ok_def)
  then obtain j where j: "lk_opener x = Some j" by auto
  have ok: "file_ok js x (lk_calls x j)" using assms(2) j by (simp add: lock_inv_def)
  have bh: "behind y \<longleftrightarrow> behind x" by (rule behind_same [of _ _ i Persisted]) (use closes in simp_all)
  have "file_ok js y (lk_calls y j)"
  proof (cases "j = i")
    case True
    then show ?thesis using ok closes w(1) agrees_full by auto
  next
    case False
    then show ?thesis using ok closes bh file_ok_cong [of y x js "lk_calls x j"] by simp
  qed
  moreover have "writers_ok js y"
    by (rule writers_ok_upd [OF lock_inv_writers [OF assms(2)], of _ i]) (use closes in auto)
  ultimately show ?thesis using assms(2) j closes by (simp add: lock_inv_def)
qed

lemma lsteps_inv: "(lstep js)\<^sup>*\<^sup>* x y \<Longrightarrow> lock_inv js x0 x \<Longrightarrow> lock_inv js x0 y"
  by (induction rule: rtranclp_induct) (auto intro: lstep_inv)

definition idle_lock :: "scheduler \<Rightarrow> fsys \<Rightarrow> lock_state" where
  "idle_lock sch fs = \<lparr>lk_sched = sch, lk_fs = fs, lk_calls = Map.empty, lk_opener = None\<rparr>"

lemma idle_inv: "lock_inv js (idle_lock sch fs) (idle_lock sch fs)"
  by (simp add: lock_inv_def idle_lock_def writers_ok_def)

section \<open>Properties\<close>

text \<open>
  C15. Durability under concurrency: however the calls of any number of callers interleave,
  at a moment when every call that changed the table has reported success and none is on
  its way, the file holds the table that is in memory, so that starting the scheduler
  again gives that table. This holds although the lock is dropped between the change and
  the write and several calls may write the file at the same time.
\<close>

theorem quiet_scheduler_durable:
  assumes start: "sch = new_scheduler js path fs"
    and run: "(lstep js)\<^sup>*\<^sup>* (idle_lock sch fs) y"
    and quiet: "\<forall>i c. lk_calls y i = Some c \<longrightarrow> c = Persisted \<or> (\<exists>r. c = Refused r)"
    and json: "json_ok js (schedules (lk_sched y))" and reads: "fs_read_err fs path = None"
  shows "new_scheduler js path (lk_fs y) = lk_sched y"
proof -
  let ?x = "idle_lock sch fs"
  have inv: "lock_inv js ?x y" by (rule lsteps_inv [OF run idle_inv])
  have path: "storage_path (lk_sched y) = path" "fs_read_err (lk_fs y) path = None"
    using inv start reads by (auto simp: lock_inv_def idle_lock_def new_scheduler_def)
  have nb: "\<not> behind y" using quiet by (fastforce simp: behind_def)
  show ?thesis
  proof (cases "lk_opener y")
    case None
    with inv nb have "lk_sched y = sch" "fs_files (lk_fs y) path = fs_files fs path"
      using path by (auto simp: lock_inv_def idle_lock_def)
    then show ?thesis
      using start path reads by (simp add: new_scheduler_def load_schedules_def read_to_string_def)
  next
    case (Some i)
    with inv have ok: "file_ok js y (lk_calls y i)" by (simp add: lock_inv_def)
    then have "lk_calls y i = Some Persisted" using quiet by (cases "lk_calls y i") force+
    with ok nb obtain d where "to_json js (schedules (lk_sched y)) = Ok d" "lk_file y = Some d" by auto
    with path json show ?thesis
      by (simp add: new_scheduler_def load_schedules_def read_to_string_def json_ok_def)
  qed
qed

text \<open>A demonstration: two callers that create a schedule each and whose writes overlap.\<close>

definition two_call :: "string \<Rightarrow> sched_cmd" where
  "two_call u = CmdSchedule 0 u ''http://images/os.squashfs'' None (Some 10) (Some 60) True (Some 30) None None False False None"

definition two_table :: schedule_map where
  "two_table = [''a'' \<mapsto> demo_schedule ''a'' (Some 10), ''b'' \<mapsto> demo_schedule ''b'' (Some 10)]"

definition two_json :: "schedule_map json" where
  "two_json = \<lparr>to_json = (\<lambda>_. Ok ''ab''), from_json = (\<lambda>d. if d = ''ab'' then Ok two_table else Err ''eof'')\<rparr>"

definition two_fs :: fsys where
  "two_fs = empty_fs\<lparr>fs_files := [''/s.json'' \<mapsto> ''ab'']\<rparr>"

lemma two_edit:
  "edit_cmd (two_call u) sch = Inr (sch\<lparr>schedules := (schedules sch)(u \<mapsto> demo_schedule u (Some 10))\<rparr>)"
  by (simp add: two_call_def demo_schedule_def)

lemma two_start: "new_scheduler two_json p empty_fs = \<lparr>schedules = Map.empty, storage_path = p\<rparr>"
  by (simp add: new_scheduler_def load_schedules_def read_to_string_def empty_fs_def)

lemma two_run:
  "\<exists>y. (lstep two_json)\<^sup>*\<^sup>* (idle_lock (new_scheduler two_json ''/s.json'' empty_fs) empty_fs) y \<and>
     lk_calls y = [0 \<mapsto> Persisted, 1 \<mapsto> Persisted] \<and> schedules (lk_sched y) = two_table"
proof -
  let ?x = "idle_lock (new_scheduler two_json ''/s.json'' empty_fs) empty_fs"
  let ?add = "\<lambda>i u x. set_call i Edited (x\<lparr>lk_sched := (lk_sched x)\<lparr>schedules := (schedules (lk_sched x))(u \<mapsto> demo_schedule u (Some 10))\<rparr>\<rparr>)"
  let ?put = "\<lambda>i k n b x. set_file (write_at k (take n (drop k ''ab'')) b) (set_call i (Writing ''ab'' (k + n)) x)"
  let ?e0 = "?add 0 ''a'' ?x" let ?e1 = "?add 1 ''b'' ?e0"
  let ?o0 = "open_file_for 0 ''ab'' ?e1" let ?w0 = "?put 0 0 1 [] ?o0"
  let ?o1 = "open_file_for 1 ''ab'' ?w0" let ?w1 = "?put 0 1 1 [] ?o1"
  let ?w2 = "?put 1 0 2 (write_at 1 ''b'' []) ?w1"
  let ?c0 = "set_call 0 Persisted ?w2" let ?c1 = "set_call 1 Persisted ?c0"
  have s0: "lstep two_json ?x ?e0" by (rule lstep.edit [OF _ _ two_edit]) (simp_all add: idle_lock_def lock_free_def)
  have s1: "lstep two_json ?e0 ?e1" by (rule lstep.edit [OF _ _ two_edit]) (simp_all add: idle_lock_def lock_free_def)
  have s2: "lstep two_json ?e1 ?o0" "lstep two_json ?w0 ?o1"
    by (rule lstep.opens; simp add: two_json_def)+
  have s3: "lstep two_json ?o0 ?w0" "lstep two_json ?o1 ?w1" "lstep two_json ?w1 ?w2"
    by (rule lstep.writes; simp)+
  have s4: "lstep two_json ?w2 ?c0" "lstep two_json ?c0 ?c1"
    by (rule lstep.closes [of _ _ "''ab''"]; simp)+
  note step = converse_rtranclp_into_rtranclp [where r = "lstep two_json"]
  have "(lstep two_json)\<^sup>*\<^sup>* ?x ?c1"
    by (rule step [OF s0 step [OF s1 step [OF s2(1) step [OF s3(1) step [OF s2(2) step [OF s3(2) step [OF s3(3)
        step [OF s4(1) r_into_rtranclp [where r = "lstep two_json", OF s4(2)]]]]]]]]])
  moreover have "schedules (lk_sched ?c1) = two_table"
    by (simp add: idle_lock_def two_start two_table_def)
  moreover have "lk_calls ?c1 = [0 \<mapsto> Persisted, 1 \<mapsto> Persisted]" by (auto simp: idle_lock_def)
  ultimately show ?thesis by blast
qed

theorem quiet_scheduler_durable_witness:
  "\<exists>y :: lock_state. lk_calls y = [0 \<mapsto> Persisted, 1 \<mapsto> Persisted] \<and> new_scheduler two_json ''/s.json'' (lk_fs y) = lk_sched y \<and>
     schedules (lk_sched y) = two_table"
proof -
  obtain y where y: "(lstep two_json)\<^sup>*\<^sup>* (idle_lock (new_scheduler two_json ''/s.json'' empty_fs) empty_fs) y"
    "lk_calls y = [0 \<mapsto> Persisted, 1 \<mapsto> Persisted]" "schedules (lk_sched y) = two_table"
    using two_run by blast
  have "new_scheduler two_json ''/s.json'' (lk_fs y) = lk_sched y"
    by (rule quiet_scheduler_durable [OF refl y(1)])
      (use y in \<open>auto simp: json_ok_def two_json_def empty_fs_def split: if_splits\<close>)
  then show ?thesis using y(2,3) by (intro exI [of _ y] conjI)
qed

text \<open>
  C16. A crash while the file is being written can forget every schedule. From any moment at
  which nobody writes and the file holds the table, a call that changes the table takes
  the disk through three stages: the old table, then a file that has been truncated and
  from which an agent would start with an empty table, then the new table.
\<close>

theorem crash_forgets_schedules:
  assumes free: "lk_calls x i = None" "lock_free x" and edit: "edit_cmd c (lk_sched x) = Inr sch"
    and json: "json_ok js (schedules sch)" "from_json js [] = Err e"
    and disk: "new_scheduler js path (lk_fs x) = lk_sched x" and reads: "fs_read_err (lk_fs x) path = None"
  shows "\<exists>y z u. lstep js x y \<and> lstep js y z \<and> (lstep js)\<^sup>*\<^sup>* z u \<and>
    new_scheduler js path (lk_fs y) = lk_sched x \<and>
    schedules (new_scheduler js path (lk_fs z)) = Map.empty \<and>
    lk_calls u i = Some Persisted \<and> new_scheduler js path (lk_fs u) = sch"
proof -
  obtain d where d: "to_json js (schedules sch) = Ok d" "from_json js d = Ok (schedules sch)"
    using json(1) by (auto simp: json_ok_def split: sum.splits)
  have path: "storage_path (lk_sched x) = path" "storage_path sch = path"
    using arg_cong [OF disk, of storage_path] edit_cmd_path [OF edit] by (simp_all add: new_scheduler_def)
  let ?y = "set_call i Edited (x\<lparr>lk_sched := sch\<rparr>)"
  let ?z = "open_file_for i d ?y"
  let ?v = "set_file (write_at 0 (take (length d) (drop 0 d)) []) (set_call i (Writing d (0 + length d)) ?z)"
  let ?u = "set_call i Persisted ?v"
  have "0 < length d" using d json(2) by (cases d) auto
  then have "lstep js ?z ?v" using path by (intro lstep.writes) simp_all
  moreover have "lstep js ?v ?u" by (rule lstep.closes [of _ _ d]) simp
  moreover have "lstep js x ?y" by (rule lstep.edit [OF free edit])
  moreover have "lstep js ?y ?z" by (rule lstep.opens) (use d in simp_all)
  moreover have "new_scheduler js path (lk_fs ?y) = lk_sched x" using disk by simp
  moreover have "schedules (new_scheduler js path (lk_fs ?z)) = Map.empty" "new_scheduler js path (lk_fs ?u) = sch"
    using path reads json(2) d
    by (simp_all add: new_scheduler_def load_schedules_def read_to_string_def write_at_def)
  ultimately show ?thesis
    by (intro exI [of _ ?y] exI [of _ ?z] exI [of _ ?u])
      (simp add: converse_rtranclp_into_rtranclp [of "lstep js" ?z ?v])
qed

theorem crash_forgets_schedules_witness:
  "\<exists>y z. lstep two_json (idle_lock (new_scheduler two_json ''/s.json'' two_fs) two_fs) y \<and> lstep two_json y z \<and>
     schedules (new_scheduler two_json ''/s.json'' (lk_fs y)) = two_table \<and>
     schedules (new_scheduler two_json ''/s.json'' (lk_fs z)) = Map.empty"
proof -
  let ?s = "\<lparr>schedules = two_table, storage_path = ''/s.json''\<rparr>" let ?x = "idle_lock ?s two_fs"
  have l: "new_scheduler two_json ''/s.json'' two_fs = ?s"
    by (simp add: new_scheduler_def load_schedules_def read_to_string_def two_fs_def two_json_def empty_fs_def)
  have x: "lk_sched ?x = ?s" "lk_fs ?x = two_fs" "lk_calls ?x 0 = None" "lock_free ?x"
    by (simp_all add: idle_lock_def lock_free_def)
  have j: "json_ok two_json two_table" "from_json two_json [] = Err ''eof''" "fs_read_err two_fs ''/s.json'' = None"
    by (simp_all add: json_ok_def two_json_def two_fs_def empty_fs_def)
  have e: "edit_cmd (two_call ''b'') (lk_sched ?x) = Inr ?s"
    unfolding x two_edit by (auto simp: two_table_def)
  have "\<exists>y z u. lstep two_json ?x y \<and> lstep two_json y z \<and> (lstep two_json)\<^sup>*\<^sup>* z u \<and>
    new_scheduler two_json ''/s.json'' (lk_fs y) = lk_sched ?x \<and>
    schedules (new_scheduler two_json ''/s.json'' (lk_fs z)) = Map.empty \<and>
    lk_calls u 0 = Some Persisted \<and> new_scheduler two_json ''/s.json'' (lk_fs u) = ?s"
    by (rule crash_forgets_schedules [OF x(3,4) e, of _ "''eof''"]) (simp_all only: x j l scheduler.select_convs)
  then show ?thesis unfolding l x by (metis (no_types, lifting) scheduler.select_convs(1))
qed

end
