(* ===== verification/Root_Partition.thy ===== *)
theory Root_Partition
  imports Service_Invariant Update_Steps Scheduler_Lock
begin

text \<open>
  What the agent does with the disks besides updating a slot: which files decide the
  partition it believes to run from, that no request handler, background task or step of
  an update changes them, and that a step of an update writes no device but its target.
\<close>

section \<open>What decides the running partition\<close>

text \<open>
  The agent learns which partition it runs from from two files of the kernel and the symbolic
  links of the disks. \<open>same_root\<close>: two states of the disks that do not differ in these.
\<close>

definition root_files :: "string set" where
  "root_files = {''/proc/cmdline'', ''/proc/mounts''}"

definition fs_same_root :: "fsys \<Rightarrow> fsys \<Rightarrow> bool" where
  "fs_same_root fs fs' \<longleftrightarrow> fs_read_err fs' = fs_read_err fs \<and> (\<forall>f\<in>root_files. fs_files fs' f = fs_files fs f)"

definition same_root :: "disks \<Rightarrow> disks \<Rightarrow> bool" where
  "same_root w w' \<longleftrightarrow> dk_links w' = dk_links w \<and> fs_same_root (dk_fs w) (dk_fs w')"

lemma fs_same_root_refl [simp]: "fs_same_root fs fs"
  by (simp add: fs_same_root_def)

lemma fs_same_root_trans [trans]: "fs_same_root a b \<Longrightarrow> fs_same_root b c \<Longrightarrow> fs_same_root a c"
  by (simp add: fs_same_root_def)

lemma same_root_refl [simp]: "same_root w w"
  by (simp add: same_root_def)

lemma same_root_trans: "same_root a b \<Longrightarrow> same_root b c \<Longrightarrow> same_root a c"
  using fs_same_root_trans by (auto simp: same_root_def)

lemma same_root_fs: "same_root w (w\<lparr>dk_fs := fs\<rparr>) \<longleftrightarrow> fs_same_root (dk_fs w) fs"
  by (simp add: same_root_def)

lemma same_root_active:
  assumes "same_root w w'"
  shows "get_active_partition w' = get_active_partition w" "get_inactive_partition w' = get_inactive_partition w"
proof -
  have rp: "root_param w' ps = root_param w ps" for ps
    using assms by (induction ps) (simp_all add: resolve_partuuid_def same_root_def split: option.splits)
  have rd: "read_to_string f (dk_fs w') = read_to_string f (dk_fs w)" if "f \<in> root_files" for f
    using assms that by (intro read_to_string_cong) (simp_all add: same_root_def fs_same_root_def)
  have files: "read_to_string ''/proc/cmdline'' (dk_fs w') = read_to_string ''/proc/cmdline'' (dk_fs w)"
    "read_to_string ''/proc/mounts'' (dk_fs w') = read_to_string ''/proc/mounts'' (dk_fs w)"
    by (simp_all add: rd root_files_def)
  show "get_active_partition w' = get_active_partition w"
    unfolding get_active_partition_def rp files ..
  then show "get_inactive_partition w' = get_inactive_partition w" by (simp add: get_inactive_partition_def)
qed

section \<open>The file operations leave it alone\<close>

lemma root_fs_write: "fs_write p c fs = (r, fs') \<Longrightarrow> p \<notin> root_files \<Longrightarrow> fs_same_root fs fs'"
  by (auto simp: fs_same_root_def dest!: fs_write_frameD)

lemma root_create_dir_all: "create_dir_all p fs = (r, fs') \<Longrightarrow> fs_same_root fs fs'"
  by (auto simp: fs_same_root_def dest!: create_dir_all_frameD)

lemma root_create_dir_all_snd: "fs_same_root fs (snd (create_dir_all p fs))"
  by (metis prod.collapse root_create_dir_all)

lemma root_after_dir: "fs_same_root (snd (create_dir_all p a)) b \<Longrightarrow> fs_same_root a b"
  using fs_same_root_trans root_create_dir_all_snd by blast

lemma root_remove_file: "p \<notin> root_files \<Longrightarrow> fs_same_root fs (remove_file p fs)"
  by (auto simp: fs_same_root_def remove_file_def)

lemma root_fs_copy: "q \<notin> root_files \<Longrightarrow> fs_same_root fs (snd (fs_copy p q fs))"
  by (auto simp: fs_copy_def intro: root_fs_write split: sum.splits) (metis prod.collapse root_fs_write)

lemma root_open_file:
  assumes "open_file p fs = (h, fs')" "p \<notin> root_files"
  shows "fs_same_root fs fs' \<and> (\<forall>f. h = Some f \<longrightarrow> f = p)"
proof -
  have app: "fs_same_root a (snd (open_append p a)) \<and> (\<forall>f. fst (open_append p a) = Inr f \<longrightarrow> f = p)" for a
    using assms(2) by (auto simp: open_append_def fs_same_root_def split: option.splits write_fault.splits)
  have dir: "fs_same_root fs (snd (case path_parent p of None \<Rightarrow> (Ok (), fs) | Some q \<Rightarrow> create_dir_all q fs))"
    by (cases "path_parent p") (simp_all add: root_create_dir_all_snd)
  show ?thesis
    using assms(1) dir app fs_same_root_trans
    by (auto simp: open_file_def split: prod.splits sum.splits) (metis fst_conv snd_conv)+
qed

lemma root_record_entry:
  assumes "record_entry js e log fs = (log', fs')" "al_path log \<notin> root_files" "\<forall>f. al_writer log = Some f \<longrightarrow> f = al_path log"
  shows "fs_same_root fs fs' \<and> al_path log' = al_path log \<and> (\<forall>f. al_writer log' = Some f \<longrightarrow> f = al_path log')"
proof -
  have app: "fs_same_root fs (snd (fs_append (al_path log) c fs))" for c
    using assms(2) by (auto simp: fs_append_def fs_same_root_def split: option.splits write_fault.splits)
  show ?thesis
  proof (cases "al_writer log")
    case None
    then show ?thesis using assms(1) by (auto simp: record_entry_def split: sum.splits)
  next
    case (Some f)
    have f: "f = al_path log" using Some assms(3) by simp
    show ?thesis
    proof (cases "to_json js e")
      case (Inl m)
      then show ?thesis using assms by (simp add: record_entry_def)
    next
      case (Inr line)
      obtain r fs1 where ap: "fs_append f (line @ nl) fs = (r, fs1)" by force
      obtain h fs2 where op: "open_file (al_path log) fs1 = (h, fs2)" by force
      have "fs_same_root fs fs1" using app [of "line @ nl"] ap f by simp
      then show ?thesis
        using assms(1,3) Inr Some ap op root_open_file [OF op assms(2)] fs_same_root_trans
        by (auto simp: record_entry_def split: sum.splits)
    qed
  qed
qed

lemma root_persist_then:
  assumes "persist_then js v sch fs = (r, sch', fs')" "storage_path sch \<notin> root_files"
  shows "fs_same_root fs fs'"
proof -
  let ?fs1 = "case path_parent (storage_path sch) of None \<Rightarrow> fs | Some parent \<Rightarrow> snd (create_dir_all parent fs)"
  have "fs_same_root fs ?fs1" by (simp add: root_create_dir_all_snd split: option.splits)
  moreover have "fs_same_root ?fs1 fs' \<or> fs' = fs"
    using assms by (auto simp: persist_then_def persist_schedules_def Let_def intro: root_fs_write
      split: prod.splits sum.splits)
  ultimately show ?thesis using fs_same_root_trans by auto
qed

lemma root_run_cmd:
  assumes "run_cmd js c sch fs = (r, sch', fs')" "storage_path sch \<notin> root_files"
  shows "fs_same_root fs fs'"
  using assms root_persist_then edit_cmd_path
  by (fastforce simp: run_cmd_split split: sum.splits)

lemma root_schedule_update:
  assumes "schedule_update js now uuid url sha at window auto timeout pre post delta fb full sch fs = (r, sch', fs')"
    and "storage_path sch \<notin> root_files"
  shows "fs_same_root fs fs'"
  using assms root_persist_then by (fastforce simp: schedule_update_def Let_def)

lemma root_cancel:
  "cancel_schedule js i sch fs = (r, sch', fs') \<Longrightarrow> storage_path sch \<notin> root_files \<Longrightarrow> fs_same_root fs fs'"
  using root_run_cmd [of js "CmdCancel i"] by simp

lemma root_backup_pair:
  "c @ ''.backup'' \<notin> root_files \<Longrightarrow> k @ ''.backup'' \<notin> root_files \<Longrightarrow> fs_same_root fs (backup_pair c k fs)"
  unfolding backup_pair_def by (auto intro: fs_same_root_trans [OF root_fs_copy root_fs_copy])

lemma root_write_pair:
  "write_pair c k cp kp fs = (r, fs') \<Longrightarrow> c \<notin> root_files \<Longrightarrow> k \<notin> root_files \<Longrightarrow> fs_same_root fs fs'"
  by (auto simp: write_pair_def split: prod.splits sum.splits dest!: root_fs_write intro: fs_same_root_trans)

lemma root_paths [simp]:
  "''/tmp/boot.next'' \<notin> root_files" "ROLLBACK_STATE_FILE \<notin> root_files" "CONFIG_PATH \<notin> root_files"
  "ca_path \<notin> root_files" "kubelet_kubeconfig \<notin> root_files" "bootstrap_state \<notin> root_files" "restart_signal \<notin> root_files"
  "operational_cert \<notin> root_files" "operational_key \<notin> root_files" "operational_cert @ ''.backup'' \<notin> root_files"
  "operational_key @ ''.backup'' \<notin> root_files" "trusted_clients @ x \<notin> root_files"
  "''/var/lib/keel/crash-dumps/crash-'' @ x \<notin> root_files" "''/var/lib/keel/snapshots/snapshot-'' @ x \<notin> root_files"
  by (simp_all add: root_files_def admin_paths operational_cert_def operational_key_def trusted_clients_def)

lemma root_save_network: "save_network ip js cfg fs = (r, fs') \<Longrightarrow> fs_same_root fs fs'"
  by (auto simp: save_network_def save_network_to_def split: prod.splits sum.splits option.splits
    dest!: root_create_dir_all root_fs_write intro: fs_same_root_trans)

lemma root_configure_network: "configure_network ip js req fs = (r, fs') \<Longrightarrow> fs_same_root fs fs'"
  by (auto simp: configure_network_def split: prod.splits sum.splits dest: root_save_network)

lemma root_write_or: "write_or m p c fs = (r, fs') \<Longrightarrow> p \<notin> root_files \<Longrightarrow> fs_same_root fs fs'"
  by (auto simp: write_or_def split: prod.splits sum.splits dest: root_fs_write)

lemma root_save_bootstrap: "save_bootstrap js cfg bootstrap_state fs = (r, fs') \<Longrightarrow> fs_same_root fs fs'"
  by (auto simp: save_bootstrap_def split: prod.splits sum.splits option.splits
    dest!: root_create_dir_all root_fs_write intro: fs_same_root_trans)

lemma root_prepare: "prepare_k8s_directories b fs = (r, fs') \<Longrightarrow> fs_same_root fs fs'"
  by (auto simp: prepare_k8s_directories_def split: prod.splits dest: root_create_dir_all)

lemma root_bootstrap:
  assumes "bootstrap_kubernetes b64 js now host req fs = (r, fs')"
  shows "fs_same_root fs fs'"
  using assms
  by (auto simp: bootstrap_kubernetes_def split: prod.splits sum.splits if_splits
    dest!: root_prepare root_write_or root_save_bootstrap root_after_dir) (meson fs_same_root_trans)+

lemma root_crash_dump: "collect_crash_dump stamp created dmesg ps k u fs = (r, fs') \<Longrightarrow> fs_same_root fs fs'"
  by (auto simp: collect_crash_dump_def collect_crash_dump_to_def Let_def root_files_def split: prod.splits sum.splits
    dest!: root_create_dir_all root_fs_write intro: fs_same_root_trans)

lemma root_snapshot: "create_system_snapshot i stamp created dmesg l c g fs = (r, fs') \<Longrightarrow> fs_same_root fs fs'"
  by (auto simp: create_system_snapshot_def create_system_snapshot_to_def Let_def root_files_def split: prod.splits sum.splits
    dest!: root_create_dir_all root_fs_write intro: fs_same_root_trans)

lemma root_switch:
  assumes "switch_boot_partition sg i w = (r, w')"
  shows "same_root w w' \<and> dk_dev w' = dk_dev w"
  using assms root_fs_write
  by (auto simp: switch_boot_partition_def same_root_def Let_def split: option.splits prod.splits cmd_outcome.splits if_splits)
    (metis prod.collapse root_fs_write root_paths(1))

lemma root_save_state:
  assumes "save_rollback_state js s w = (r, w')"
  shows "same_root w w' \<and> dk_dev w' = dk_dev w"
  using assms
  by (auto simp: save_rollback_state_def same_root_def split: option.splits prod.splits sum.splits
    dest!: root_create_dir_all root_fs_write intro: fs_same_root_trans)

lemma root_rollback:
  assumes "rollback_to_previous_partition js sg w = (r, w')"
  shows "same_root w w' \<and> dk_dev w' = dk_dev w"
  using assms
  by (auto simp: rollback_to_previous_partition_def split: option.splits prod.splits sum.splits
    dest!: root_switch root_save_state intro: same_root_trans)

lemma root_record:
  assumes "record_active_partition_for_rollback js stamp w = (r, w')"
  shows "same_root w w' \<and> dk_dev w' = dk_dev w"
  using assms by (auto simp: record_active_partition_for_rollback_def split: sum.splits dest: root_save_state)

section \<open>The requests leave it alone\<close>

lemma set_fs_disks: "sc_disks (set_fs fs s) = (sc_disks s)\<lparr>dk_fs := fs\<rparr>"
  by (simp add: set_fs_def)

text \<open>What a request that installs nothing does to the disks: files, boot flags, no device.\<close>

definition quiet_disks :: "disks \<Rightarrow> disks \<Rightarrow> bool" where
  "quiet_disks w w' \<longleftrightarrow> same_root w w' \<and> dk_dev w' = dk_dev w"

lemma quiet_refl [simp]: "quiet_disks w w"
  by (simp add: quiet_disks_def)

lemma quiet_trans: "quiet_disks a b \<Longrightarrow> quiet_disks b c \<Longrightarrow> quiet_disks a c"
  using same_root_trans by (auto simp: quiet_disks_def)

lemma quiet_fs: "quiet_disks w (w\<lparr>dk_fs := fs\<rparr>) \<longleftrightarrow> fs_same_root (dk_fs w) fs"
  by (simp add: quiet_disks_def same_root_fs)

definition keeps_root :: "'c service \<Rightarrow> 'c service \<Rightarrow> bool" where
  "keeps_root s t \<longleftrightarrow> (storage_path (sc_sched s) \<notin> root_files \<longrightarrow> quiet_disks (sc_disks s) (sc_disks t))"

lemma keeps_root_refl [simp]: "keeps_root s s"
  by (simp add: keeps_root_def)

lemmas keeps_root_simps = keeps_root_def set_fs_disks quiet_fs

lemma table_handlers_keep_root:
  "keeps_root s (snd (schedule_update_rpc E certs req s))" "keeps_root s (snd (cancel_scheduled_update E certs i s))"
  unfolding schedule_update_rpc_def cancel_scheduled_update_def
  by (rule guarded_state [where P = keeps_root];
    auto simp: keeps_root_simps split: prod.splits sum.splits dest: root_schedule_update root_cancel)+

lemma admin_handlers_keep_root:
  "keeps_root s (snd (bootstrap_kubernetes_rpc E certs breq s))" "keeps_root s (snd (configure_network_rpc E certs nreq s))"
  "keeps_root s (snd (trigger_rollback_rpc E certs reason s))"
  unfolding bootstrap_kubernetes_rpc_def configure_network_rpc_def trigger_rollback_rpc_def
  by (rule guarded_state [where P = keeps_root];
    auto simp: keeps_root_simps quiet_disks_def same_root_fs split: prod.splits sum.splits
      dest: root_bootstrap root_configure_network root_rollback)+

lemma diagnostic_handlers_keep_root:
  "keeps_root s (snd (collect_crash_dump_rpc E certs k u s))" "keeps_root s (snd (create_system_snapshot_rpc E certs l c g s))"
  "keeps_root s (snd (enable_debug_mode_rpc E certs d reason s))" "keeps_root s (snd (enable_recovery_mode_rpc E certs d reason s))"
  "keeps_root s (snd (get_health E certs s))"
  unfolding collect_crash_dump_rpc_def create_system_snapshot_rpc_def enable_debug_mode_rpc_def enable_recovery_mode_rpc_def get_health_def
  by (rule guarded_state [where P = keeps_root];
    auto simp: keeps_root_simps split: prod.splits sum.splits dest: root_crash_dump root_snapshot)+

lemma root_renewed_pair:
  assumes "write_pair c k cp kp (backup_pair c k fs) = (q, fs')" "{c, k, c @ ''.backup'', k @ ''.backup''} \<inter> root_files = {}"
  shows "fs_same_root fs fs'"
  using root_write_pair [OF assms(1)] root_backup_pair [of c k fs] assms(2) fs_same_root_trans by auto

lemma certificate_handlers_keep_root:
  "keeps_root s (snd (init_bootstrap E pem s))" "keeps_root s (snd (rotate_certificate E certs force s))"
proof -
  show "keeps_root s (snd (init_bootstrap E pem s))"
    by (auto simp: init_bootstrap_def keeps_root_simps split: sum.splits prod.splits
      dest!: root_create_dir_all root_fs_write intro: fs_same_root_trans)
  show "keeps_root s (snd (rotate_certificate E certs force s))"
    unfolding rotate_certificate_def
    by (rule guarded_state [where P = keeps_root])
      (auto simp: keeps_root_simps split: prod.splits sum.splits option.splits dest: root_renewed_pair)
qed

lemmas handlers_keep_root = table_handlers_keep_root admin_handlers_keep_root diagnostic_handlers_keep_root certificate_handlers_keep_root

lemma handle_keeps_root:
  assumes "\<And>req n. r \<noteq> InstallUpdate req n"
  shows "keeps_root s (snd (handle E certs r s))"
proof (cases r)
  case (InstallUpdate req n)
  then show ?thesis using assms by simp
qed (simp_all add: reading_answers, simp_all add: answer_state handlers_keep_root)

section \<open>The steps of an update\<close>

lemma flash_next_frame:
  assumes "flash_next U j p w = (p', w')" "\<forall>f\<in>root_files. ue_tmp U \<noteq> Inr f"
  shows "same_root w w' \<and> dk_flags w' = dk_flags w \<and> (\<forall>q. q \<noteq> fj_device j \<longrightarrow> dk_dev w' q = dk_dev w q)"
proof (cases p)
  case FlashStart
  let ?d = "apply_delta_update (ue_http U 0) (ue_sha256 U) (ue_bspatch U) (ue_tmp U) (fj_url j) (fj_device j) (fj_sha256 j) w"
  have "same_root w (snd ?d) \<and> dk_flags (snd ?d) = dk_flags w \<and> (\<forall>q. q \<noteq> fj_device j \<longrightarrow> dk_dev (snd ?d) q = dk_dev w q)"
    using assms(2) by (simp add: same_root_def fs_same_root_def delta_writer.write_links delta_writer.write_reads
      delta_writer.write_flags delta_writer.write_other) (metis delta_writer.write_files)
  moreover have "w' = w \<or> w' = snd ?d"
    using assms(1) FlashStart by (auto split: if_splits prod.splits sum.splits option.splits)
  ultimately show ?thesis by auto
next
  case (FlashBody items hashed off n)
  then have "w' = w \<or> (\<exists>d. w' = put_dev (fj_device j) d w)"
    using assms(1) by (auto split: option.splits list.splits sum.splits prod.splits)
  then show ?thesis by (auto simp: same_root_def)
qed (use assms in \<open>auto split: http_reply.splits if_splits sum.splits\<close>)

fun stream_target :: "stream_pos \<Rightarrow> partition_info option" where
  "stream_target (Targeted p) = Some p"
| "stream_target (Flashing p q) = Some p"
| "stream_target (Flashed p n) = Some p"
| "stream_target q = None"

fun update_target :: "update_pos \<Rightarrow> partition_info option" where
  "update_target (PreHook p) = Some p"
| "update_target (UpdateFlash p q) = Some p"
| "update_target (PostHook p) = Some p"
| "update_target (RecordActive p) = Some p"
| "update_target (SwitchBoot p) = Some p"
| "update_target q = None"

text \<open>
  The contract of a machine that updates a slot: it finds its target once, keeps it, and writes
  no device but its target.
\<close>

definition slot_step :: "partition_info option \<Rightarrow> disks \<Rightarrow> partition_info option \<Rightarrow> disks \<Rightarrow> bool" where
  "slot_step t w t' w' \<longleftrightarrow> same_root w w' \<and>
     (\<forall>p. t' = Some p \<longrightarrow> t = Some p \<or> get_inactive_partition w = Ok p) \<and>
     (\<forall>q. dk_dev w' q \<noteq> dk_dev w q \<longrightarrow> (\<exists>p. t = Some p \<and> q = part_device p))"

lemma stream_flash_slot:
  assumes "stream_next U req (Flashing inactive q) w = (m, p', w')" "\<forall>f\<in>root_files. ue_tmp U \<noteq> Inr f"
  shows "slot_step (Some inactive) w (stream_target p') w'"
proof (cases "\<exists>r. q = FlashEnd r")
  case True
  then obtain r where "q = FlashEnd r" by blast
  then show ?thesis using assms(1) by (cases r) (auto simp: slot_step_def)
next
  case False
  obtain q' w1 where n: "flash_next U (request_job req inactive) q w = (q', w1)" by force
  then have "p' = Flashing inactive q'" "w' = w1" using assms(1) False by (cases q; auto)+
  then show ?thesis using flash_next_frame [OF n assms(2)] by (auto simp: slot_step_def request_job_def)
qed

lemma stream_next_slot:
  assumes "stream_next U req p w = (m, p', w')" "\<forall>f\<in>root_files. ue_tmp U \<noteq> Inr f"
  shows "slot_step (stream_target p) w (stream_target p') w'"
proof (cases p)
  case (Flashing inactive q)
  then show ?thesis using stream_flash_slot [of U req inactive q w m p' w'] assms by simp
next
  case (Flashed inactive saved)
  then show ?thesis using assms by (auto simp: slot_step_def split: prod.splits sum.splits dest!: root_switch)
qed (use assms in \<open>auto simp: slot_step_def split: sum.splits\<close>)

lemma same_boot_root: "same_boot w w' \<Longrightarrow> same_root w w'"
  by (auto simp: same_boot_def same_root_def fs_same_root_def boot_files_def root_files_def)

lemma root_in_boot_files: "\<forall>f\<in>boot_files. t \<noteq> Inr f \<Longrightarrow> \<forall>f\<in>root_files. t \<noteq> Inr f"
  by (auto simp: boot_files_def root_files_def)

lemma update_flash_slot:
  assumes "update_next U s (UpdateFlash inactive q) w = (p', w')" "\<forall>f\<in>root_files. ue_tmp U \<noteq> Inr f"
  shows "slot_step (Some inactive) w (update_target p') w'"
proof (cases "\<exists>r. q = FlashEnd r")
  case True
  then obtain r where "q = FlashEnd r" by blast
  then show ?thesis using assms(1) by (cases r) (auto simp: slot_step_def)
next
  case False
  obtain q' w1 where n: "flash_next U (schedule_job s inactive) q w = (q', w1)" by force
  then have "p' = UpdateFlash inactive q'" "w' = w1" using assms(1) False by (cases q; auto)+
  then show ?thesis using flash_next_frame [OF n assms(2)] by (auto simp: slot_step_def schedule_job_def)
qed

lemma update_next_slot:
  assumes "update_next U s p w = (p', w')" "\<forall>f\<in>boot_files. ue_tmp U \<noteq> Inr f" "hook_benign (ue_hook U)"
  shows "slot_step (update_target p) w (update_target p') w'"
proof -
  have hook: "same_root w w1 \<and> dk_dev w1 = dk_dev w" if "opt_hook (ue_hook U) h w = (r, w1)" for h r w1
    using opt_hook_benign [OF assms(3) that] same_boot_root by blast
  show ?thesis
  proof (cases p)
    case (UpdateFlash inactive q)
    then show ?thesis
      using update_flash_slot [of U s inactive q w p' w'] assms(1) root_in_boot_files [OF assms(2)] by simp
  next
    case (RecordActive inactive)
    obtain r w1 where "record_active_partition_for_rollback (ue_json U) (ue_stamp U) w = (r, w1)" by force
    then show ?thesis using assms(1) RecordActive root_record by (fastforce simp: slot_step_def)
  next
    case (SwitchBoot inactive)
    then show ?thesis using assms(1) by (auto simp: slot_step_def split: prod.splits sum.splits dest!: root_switch)
  next
    case (PreHook inactive)
    then show ?thesis using assms(1) by (auto simp: slot_step_def split: prod.splits sum.splits dest!: hook)
  next
    case (PostHook inactive)
    then show ?thesis using assms(1) by (auto simp: slot_step_def split: prod.splits sum.splits dest!: hook)
  qed (use assms in \<open>auto simp: slot_step_def split: sum.splits\<close>)
qed

text \<open>
  What the composed system relies on: in an environment that is \<open>ok\<close> a machine keeps to its
  slot. Then the running partition stays the running one and is not written, and the target
  stays the inactive one.
\<close>

locale slot_machine =
  fixes step :: "'u \<Rightarrow> 'p \<Rightarrow> disks \<Rightarrow> 'p \<times> disks" and ok :: "'u \<Rightarrow> bool" and target :: "'p \<Rightarrow> partition_info option"
  assumes step_slot: "ok u \<Longrightarrow> step u p w = (p', w') \<Longrightarrow> slot_step (target p) w (target p') w'"
begin

lemma step_root: "ok u \<Longrightarrow> step u p w = (p', w') \<Longrightarrow> same_root w w'"
  using step_slot by (auto simp: slot_step_def)

lemma step_running:
  assumes "ok u" "step u p w = (p', w')" "get_active_partition w = Ok a"
    and "\<And>q. target p = Some q \<Longrightarrow> get_inactive_partition w = Ok q"
  shows "get_active_partition w' = Ok a" "dk_dev w' (part_device a) = dk_dev w (part_device a)"
    "target p' = Some q \<Longrightarrow> get_inactive_partition w' = Ok q"
proof -
  note slot = step_slot [OF assms(1,2), unfolded slot_step_def]
  note same = same_root_active [OF step_root [OF assms(1,2)]]
  show "get_active_partition w' = Ok a" using same assms(3) by simp
  show "target p' = Some q \<Longrightarrow> get_inactive_partition w' = Ok q" using same slot assms(4) by metis
  show "dk_dev w' (part_device a) = dk_dev w (part_device a)"
  proof (rule ccontr)
    assume "dk_dev w' (part_device a) \<noteq> dk_dev w (part_device a)"
    then obtain q where q: "target p = Some q" "part_device a = part_device q" using slot by blast
    then have "part_device q \<noteq> part_device a"
      using assms(3,4) inactive_device_neq [of w a] by (auto simp: get_inactive_partition_def Let_def)
    then show False using q(2) by simp
  qed
qed

lemma step_devices:
  assumes "ok u" "step u p w = (p', w')" "dk_dev w' q \<noteq> dk_dev w q"
  obtains r where "target p = Some r" "q = part_device r"
  using step_slot [OF assms(1,2)] assms(3) by (auto simp: slot_step_def)

end

interpretation stream_machine: slot_machine
  "\<lambda>U p w. snd (stream_next U req p w)" "\<lambda>U. \<forall>f\<in>root_files. ue_tmp U \<noteq> Inr f" stream_target for req
  by unfold_locales (metis prod.collapse stream_next_slot)

interpretation update_machine: slot_machine
  "\<lambda>U. update_next U s" "\<lambda>U. (\<forall>f\<in>boot_files. ue_tmp U \<noteq> Inr f) \<and> hook_benign (ue_hook U)" update_target for s
  by unfold_locales (auto intro: update_next_slot)

section \<open>Background tasks\<close>

lemma root_update_status:
  "storage_path (nd_sched n) \<notin> root_files \<Longrightarrow> quiet_disks (nd_disks n) (nd_disks (nd_update_status js now i st err n))"
  using root_run_cmd [of js "CmdStatus now i st err" "nd_sched n" "dk_fs (nd_disks n)"]
  by (simp add: nd_update_status_def quiet_fs split: prod.splits)

lemma root_supervisor:
  assumes "rollback_supervisor js rjs sg env hks ks1 ks2 now hc n = (asked, hc', n')" "storage_path (nd_sched n) \<notin> root_files"
  shows "quiet_disks (nd_disks n) (nd_disks n')"
proof -
  obtain r sch' fs' where reg: "register_rollback js ks2 now ''Critical health failure at boot'' (nd_sched n) (dk_fs (nd_disks n)) = (r, sch', fs')"
    by (metis prod_cases3)
  then have "fs_same_root (dk_fs (nd_disks n)) fs'"
    using root_run_cmd [of js "CmdRegister ks2 now ''Critical health failure at boot''"] assms(2) by simp
  then have q: "quiet_disks (nd_disks n) ((nd_disks n)\<lparr>dk_fs := fs'\<rparr>)" by (simp add: quiet_fs)
  obtain rb w where rb: "rollback_to_previous_partition rjs sg ((nd_disks n)\<lparr>dk_fs := fs'\<rparr>) = (rb, w)" by force
  have "nd_disks n' = nd_disks n \<or> nd_disks n' = w"
    using assms(1) reg rb by (cases rb) (auto simp: rollback_supervisor_def Let_def split: option.splits prod.splits if_splits)
  then show ?thesis using q quiet_trans [OF q, of w] root_rollback [OF rb] by (auto simp: quiet_disks_def)
qed

lemma root_renewal:
  assumes "check_and_renew X E t1 t2 mgr fs c m = (r, fs', c', m')"
    and "rm_cert_path mgr = operational_cert" "rm_key_path mgr = operational_key"
  shows "fs_same_root fs fs'"
proof -
  obtain q fs1 c1 where t: "trigger_renewal E mgr fs c = (q, fs1, c1)" by (metis prod_cases3)
  then have "fs_same_root fs fs1"
    using assms(2,3)
    by (auto simp: trigger_renewal_def split: if_splits option.splits prod.splits sum.splits dest: root_renewed_pair)
  moreover have "fs' = fs \<or> fs' = fs1"
    using assms(1) t by (cases q) (auto simp: check_and_renew_def split: if_splits sum.splits bool.splits)
  ultimately show ?thesis by auto
qed

end
