(* ===== verification/Agent_System.thy ===== *)
theory Agent_System
  imports Root_Partition
begin

text \<open>
  The running agent as one system (\<open>cmd/keel-agent/src/main.rs\<close>): the requests of any number of
  clients, the streams of update requests that are open, the executor of scheduled
  updates, the rollback supervisor and the renewal of the certificate, all working on the
  state of the service and interleaved in any order.
\<close>

section \<open>State\<close>

text \<open>
  To the state of the service the system adds what its tasks have in hand: the open streams of
  update requests, the schedules the executor has polled and the update it is at, whether
  the rollback supervisor is still to act, the renewal task, if one was started, and the audit log.
\<close>

record 'c running =
  rn_service :: "'c service"
  rn_streams :: "nat \<rightharpoonup> install_request \<times> stream_pos"
  rn_work :: "update_schedule list"
  rn_job :: "(update_schedule \<times> update_pos) option"
  rn_supervisor :: bool
  rn_renewal :: "cert_renewal_manager option"
  rn_metrics :: cert_metrics
  rn_audit :: audit_log

abbreviation rn_disks :: "'c running \<Rightarrow> disks" where
  "rn_disks x \<equiv> sc_disks (rn_service x)"

definition set_disks :: "disks \<Rightarrow> 'c running \<Rightarrow> 'c running" where
  "set_disks w x = x\<lparr>rn_service := (rn_service x)\<lparr>sc_disks := w\<rparr>\<rparr>"

text \<open>What \<open>main\<close> has spawned when it starts to serve.\<close>

definition launch :: "'c agent \<Rightarrow> 'c running" where
  "launch ag =
     \<lparr>rn_service = ag_service ag, rn_streams = Map.empty, rn_work = [], rn_job = None, rn_supervisor = True,
      rn_renewal = ag_renewal ag, rn_metrics = new_cert_metrics, rn_audit = ag_audit ag\<rparr>"

text \<open>The scheduler and the disks of the service as the node of the background tasks.\<close>

definition node_of :: "'c service \<Rightarrow> node" where
  "node_of s = \<lparr>nd_sched = sc_sched s, nd_disks = sc_disks s\<rparr>"

definition with_node :: "node \<Rightarrow> 'c service \<Rightarrow> 'c service" where
  "with_node n s = s\<lparr>sc_sched := nd_sched n, sc_disks := nd_disks n\<rparr>"

section \<open>Steps\<close>

definition open_stream :: "nat \<Rightarrow> install_request \<Rightarrow> 'c running \<Rightarrow> 'c running" where
  "open_stream i req x = x\<lparr>rn_streams := (rn_streams x)(i \<mapsto> (req, Opened))\<rparr>"

definition advance_stream :: "update_env \<Rightarrow> nat \<Rightarrow> 'c running \<Rightarrow> 'c running" where
  "advance_stream U i x =
     (case rn_streams x i of
        None \<Rightarrow> x
      | Some (req, p) \<Rightarrow>
          (case stream_next U req p (rn_disks x) of (m, p', w) \<Rightarrow>
             (set_disks w x)\<lparr>rn_streams := (rn_streams x)(i \<mapsto> (req, p'))\<rparr>))"

definition advance_job :: "update_env \<Rightarrow> 'c running \<Rightarrow> 'c running" where
  "advance_job U x =
     (case rn_job x of
        None \<Rightarrow> x
      | Some (s, p) \<Rightarrow>
          (case update_next U s p (rn_disks x) of (p', w) \<Rightarrow> (set_disks w x)\<lparr>rn_job := Some (s, p')\<rparr>))"

definition set_status_of ::
  "schedule_map json \<Rightarrow> timestamp \<Rightarrow> string \<Rightarrow> schedule_status \<Rightarrow> string option \<Rightarrow> 'c running \<Rightarrow> 'c running" where
  "set_status_of js now i st err x =
     x\<lparr>rn_service := with_node (nd_update_status js now i st err (node_of (rn_service x))) (rn_service x)\<rparr>"

definition supervise :: "('c, 'der, 'key) service_env \<Rightarrow> string list \<Rightarrow> 'c running \<Rightarrow> 'c running" where
  "supervise E ks x =
     (case rollback_supervisor (se_sched_json E) (ue_json (se_update E)) (ue_sgdisk (se_update E)) (se_probe E)
             (se_check_order E) (se_sched_order E) ks (se_now E 0) (sc_health (rn_service x)) (node_of (rn_service x)) of
        (_, hc, n) \<Rightarrow> x\<lparr>rn_service := (with_node n (rn_service x))\<lparr>sc_health := hc\<rparr>, rn_supervisor := False\<rparr>)"

definition renew :: "('c, 'der, 'key) service_env \<Rightarrow> cert_renewal_manager \<Rightarrow> 'c running \<Rightarrow> 'c running" where
  "renew E mgr x =
     (case check_and_renew (se_x509 E) (se_certs E) (se_now E 0) (se_now E 1) mgr (sc_fs (rn_service x))
             (sc_cluster (rn_service x)) (rn_metrics x) of
        (_, fs, c, m) \<Rightarrow> x\<lparr>rn_service := (set_fs fs (rn_service x))\<lparr>sc_cluster := c\<rparr>, rn_metrics := m\<rparr>)"

definition log_request :: "audit_entry json \<Rightarrow> audit_entry \<Rightarrow> 'c running \<Rightarrow> 'c running" where
  "log_request js entry x =
     (case record_entry js entry (rn_audit x) (sc_fs (rn_service x)) of
        (log, fs) \<Rightarrow> x\<lparr>rn_service := set_fs fs (rn_service x), rn_audit := log\<rparr>)"

text \<open>
  The environment \<open>E\<close> of a step has the answers of the outside world in it; \<open>ok\<close> says which
  environments occur. A client may hang up at any time, which drops its stream. The layer
  around the service records what was answered; which entries those are is left open.
\<close>

inductive astep :: "(('c, 'der, 'key) service_env \<Rightarrow> bool) \<Rightarrow> 'c running \<Rightarrow> 'c running \<Rightarrow> bool" for ok where
  request: "ok E \<Longrightarrow> (\<And>req n. r \<noteq> InstallUpdate req n) \<Longrightarrow>
     astep ok x (x\<lparr>rn_service := snd (handle E certs r (rn_service x))\<rparr>)"
| accepting: "ok E \<Longrightarrow> rn_streams x i = None \<Longrightarrow> authorize (se_orgs E) certs Operator = Ok () \<Longrightarrow>
     astep ok x (open_stream i req x)"
| streaming: "ok E \<Longrightarrow> astep ok x (advance_stream (se_update E) i x)"
| hang_up: "astep ok x (x\<lparr>rn_streams := (rn_streams x)(i := None)\<rparr>)"
| poll: "ok E \<Longrightarrow> rn_work x = [] \<Longrightarrow> rn_job x = None \<Longrightarrow>
     astep ok x (x\<lparr>rn_work := get_due_schedules (se_now E 0) (se_sched_order E) (sc_sched (rn_service x))\<rparr>)"
| expire: "ok E \<Longrightarrow> rn_work x = s # ss \<Longrightarrow> rn_job x = None \<Longrightarrow> \<not> is_within_maintenance_window (se_now E 0) s \<Longrightarrow>
     astep ok x ((set_status_of (se_sched_json E) (se_now E 1) (sched_id s) Failed
       (Some ''Maintenance window expired'') x)\<lparr>rn_work := ss\<rparr>)"
| start: "ok E \<Longrightarrow> rn_work x = s # ss \<Longrightarrow> rn_job x = None \<Longrightarrow> is_within_maintenance_window (se_now E 0) s \<Longrightarrow>
     astep ok x ((set_status_of (se_sched_json E) (se_now E 1) (sched_id s) Running None x)
       \<lparr>rn_work := ss, rn_job := Some (s, UpdateStart)\<rparr>)"
| executing: "ok E \<Longrightarrow> astep ok x (advance_job (se_update E) x)"
| finish: "ok E \<Longrightarrow> rn_job x = Some (s, UpdateEnd r) \<Longrightarrow>
     astep ok x ((set_status_of (se_sched_json E) (se_now E 0) (sched_id s)
         (case r of Inr _ \<Rightarrow> Completed | Inl _ \<Rightarrow> Failed) (case r of Inr _ \<Rightarrow> None | Inl e \<Rightarrow> Some e) x)\<lparr>rn_job := None\<rparr>)"
| supervisor: "ok E \<Longrightarrow> rn_supervisor x \<Longrightarrow> astep ok x (supervise E ks x)"
| renewal: "ok E \<Longrightarrow> rn_renewal x = Some mgr \<Longrightarrow> astep ok x (renew E mgr x)"
| logging: "astep ok x (log_request js entry x)"

inductive_cases astep_elim: "astep ok x y"

section \<open>The table and the sessions\<close>

text \<open>The type invariant of the service, now under every task of the agent.\<close>

lemma with_node_simps [simp]:
  "sc_sched (with_node n s) = nd_sched n" "sc_disks (with_node n s) = nd_disks n" "sc_diag (with_node n s) = sc_diag s"
  by (simp_all add: with_node_def)

lemma node_of_simps [simp]: "nd_sched (node_of s) = sc_sched s" "nd_disks (node_of s) = sc_disks s"
  by (simp_all add: node_of_def)

lemma set_disks_simps [simp]:
  "rn_disks (set_disks w x) = w" "sc_sched (rn_service (set_disks w x)) = sc_sched (rn_service x)"
  "sc_diag (rn_service (set_disks w x)) = sc_diag (rn_service x)" "rn_streams (set_disks w x) = rn_streams x"
  "rn_job (set_disks w x) = rn_job x" "rn_work (set_disks w x) = rn_work x" "rn_renewal (set_disks w x) = rn_renewal x" "rn_audit (set_disks w x) = rn_audit x"
  by (simp_all add: set_disks_def)

text \<open>\<open>service_grows T s t\<close>: from \<open>s\<close> to \<open>t\<close> the invariant is kept and no schedule is lost.\<close>

definition service_grows :: "timestamp \<Rightarrow> 'c service \<Rightarrow> 'c service \<Rightarrow> bool" where
  "service_grows T s t \<longleftrightarrow> (service_wf T s \<longrightarrow> service_wf T t) \<and> keeps_schedules s t"

lemma service_grows_refl: "sc_sched t = sc_sched s \<Longrightarrow> sc_diag t = sc_diag s \<Longrightarrow> service_grows T s t"
  by (simp add: service_grows_def service_wf_def)

lemma service_grows_cmd:
  assumes "run_cmd js c (sc_sched s) fs = (r, sc_sched t, fs')" "sc_diag t = sc_diag s"
    and "created_ids [c] = {}"
  shows "service_grows T s t"
proof -
  have "wf_table (schedules (sc_sched s)) \<longrightarrow> wf_table (schedules (sc_sched t))"
    "storage_path (sc_sched t) = storage_path (sc_sched s)"
    using run_cmd_wf [of "sc_sched s" js c fs] run_cmd_path [of js c "sc_sched s" fs] assms(1) by simp_all
  moreover have "dom (schedules (sc_sched s)) \<subseteq> dom (schedules (sc_sched t))"
    using run_cmd_keeps_plan [of "sc_sched s" _ _ c js fs] assms(1,3) by (fastforce simp: dom_def)
  ultimately show ?thesis using assms(2) by (simp add: service_grows_def service_wf_def keeps_schedules_def)
qed

lemma set_status_of_grows: "service_grows T (rn_service x) (rn_service (set_status_of js now i st err x))"
proof (rule service_grows_cmd [of js "CmdStatus now i st err" _ "sc_fs (rn_service x)"])
  let ?n = "nd_update_status js now i st err (node_of (rn_service x))"
  show "run_cmd js (CmdStatus now i st err) (sc_sched (rn_service x)) (sc_fs (rn_service x)) =
    (fst (update_status js now i st err (sc_sched (rn_service x)) (sc_fs (rn_service x))),
     sc_sched (rn_service (set_status_of js now i st err x)), dk_fs (nd_disks ?n))"
    by (simp add: set_status_of_def nd_update_status_def split: prod.splits)
qed (simp_all add: set_status_of_def)

lemma supervise_grows: "service_grows T (rn_service x) (rn_service (supervise E ks x))"
proof -
  let ?s = "rn_service x" let ?c = "CmdRegister ks (se_now E 0) ''Critical health failure at boot''"
  obtain r sch' fs' where reg: "run_cmd (se_sched_json E) ?c (sc_sched ?s) (sc_fs ?s) = (r, sch', fs')"
    by (metis prod_cases3)
  obtain asked hc n where run: "rollback_supervisor (se_sched_json E) (ue_json (se_update E)) (ue_sgdisk (se_update E)) (se_probe E)
      (se_check_order E) (se_sched_order E) ks (se_now E 0) (sc_health ?s) (node_of ?s) = (asked, hc, n)"
    by (metis prod_cases3)
  have t: "sc_sched (rn_service (supervise E ks x)) = nd_sched n" "sc_diag (rn_service (supervise E ks x)) = sc_diag ?s"
    by (simp_all add: supervise_def run)
  have "nd_sched n = sc_sched ?s \<or> nd_sched n = sch'"
    using run reg by (auto simp: rollback_supervisor_def Let_def split: option.splits prod.splits if_splits sum.splits)
  then show ?thesis
  proof
    assume "nd_sched n = sch'"
    then show ?thesis using service_grows_cmd [of "se_sched_json E" ?c ?s "sc_fs ?s" r _ fs' T] reg t by simp
  qed (simp add: t service_grows_refl)
qed

lemma handle_keeps: "keeps_schedules s (snd (handle E certs r s))"
  using handle_sched [of r E certs s] schedule_handler_table(2) [of s E certs] cancel_handler_table(2) [of s E certs]
  by (cases r) (simp_all add: answer_state)

lemma astep_grows:
  assumes "astep ok x y" "\<And>E. ok E \<Longrightarrow> se_now E 1 \<le> T"
  shows "service_grows T (rn_service x) (rn_service y)"
  using assms(1)
proof (cases rule: astep.cases)
  case (request E r certs)
  then show ?thesis
    using request handle_wf [of T "rn_service x" E certs r] handle_keeps [of "rn_service x" E certs r] assms(2)
    by (simp add: service_grows_def)
qed (auto simp: service_grows_refl open_stream_def advance_stream_def advance_job_def renew_def log_request_def set_status_of_grows supervise_grows
  split: option.splits prod.splits)

text \<open>
  C13. Whatever the clients request and however the requests, the updates in progress, the
  executor, the supervisor and the renewal interleave: as long as the clock stays below
  \<open>T\<close>, the agent's table stays well-formed, no session lasts longer than an hour beyond \<open>T\<close>,
  no schedule ever disappears, and the table is stored where it was.
\<close>

theorem agent_stays_wf:
  assumes "(astep (\<lambda>E. se_now E 1 \<le> T))\<^sup>*\<^sup>* x y" "service_wf T (rn_service x)"
  shows "service_wf T (rn_service y) \<and> keeps_schedules (rn_service x) (rn_service y)"
  using assms(1)
proof (induction rule: rtranclp_induct)
  case base
  then show ?case using assms(2) by simp
next
  case (step y z)
  have "service_grows T (rn_service y) (rn_service z)" by (rule astep_grows [OF step(2)]) simp
  then show ?case using step(3) keeps_schedules_trans by (auto simp: service_grows_def)
qed

definition demo_running :: "string list running" where
  "demo_running =
     \<lparr>rn_service = demo_service, rn_streams = Map.empty, rn_work = [], rn_job = None, rn_supervisor = True, rn_renewal = None,
      rn_metrics = new_cert_metrics,
      rn_audit = \<lparr>al_path = ''/var/lib/keel/audit/audit.log'', al_writer = None\<rparr>\<rparr>"

theorem agent_stays_wf_witness:
  "\<exists>s. s = snd (handle demo_service_env None (EnableDebugMode 7200 ''x'') demo_service) \<and> service_wf 0 s \<and> debug_slot (sc_diag s) \<noteq> None"
proof -
  let ?r = "EnableDebugMode 7200 ''x''" and ?s = "snd (handle demo_service_env None (EnableDebugMode 7200 ''x'') demo_service)"
  have "service_wf 0 (rn_service demo_running)"
    using demo_scheduler_wf by (simp add: service_wf_def demo_running_def demo_service_def sessions_end_by_def new_diagnostics_manager_def)
  moreover have step: "astep (\<lambda>E :: (string list, unit, unit) service_env. se_now E 1 \<le> 0) demo_running
      (demo_running\<lparr>rn_service := snd (handle demo_service_env None ?r (rn_service demo_running))\<rparr>)"
    by (rule astep.request) (simp_all add: demo_service_env_def)
  ultimately have "service_wf 0 ?s"
    using agent_stays_wf [OF r_into_rtranclp [of "astep _", OF step]] by (simp add: demo_running_def)
  then show ?thesis by (auto simp: enable_debug_mode_rpc_def guarded_def authorize_def answer_state demo_service_def new_diagnostics_manager_def enable_debug_mode_def Let_def)
qed

section \<open>The running partition\<close>

text \<open>
  An environment is calm when the hooks of the schedules stay clear of the boot path and the
  temporary file of a download is not one of the files that decide the running partition.
  The digest function is the same in all of them.
\<close>

definition calm :: "(string \<Rightarrow> string) \<Rightarrow> ('c, 'der, 'key) service_env \<Rightarrow> bool" where
  "calm sha256 E \<longleftrightarrow> ue_sha256 (se_update E) = sha256 \<and> hook_benign (ue_hook (se_update E)) \<and>
     (\<forall>f\<in>boot_files. ue_tmp (se_update E) \<noteq> Inr f)"

definition targets :: "'c running \<Rightarrow> partition_info set" where
  "targets x = {p. (\<exists>i req q. rn_streams x i = Some (req, q) \<and> stream_target q = Some p) \<or>
     (\<exists>s q. rn_job x = Some (s, q) \<and> update_target q = Some p)}"

definition log_placed :: "audit_log \<Rightarrow> bool" where
  "log_placed log \<longleftrightarrow> al_path log \<notin> root_files \<and> (\<forall>f. al_writer log = Some f \<longrightarrow> f = al_path log)"

definition well_placed :: "'c running \<Rightarrow> bool" where
  "well_placed x \<longleftrightarrow> storage_path (sc_sched (rn_service x)) \<notin> root_files \<and>
     (\<forall>mgr. rn_renewal x = Some mgr \<longrightarrow> rm_cert_path mgr = operational_cert \<and> rm_key_path mgr = operational_key) \<and>
     log_placed (rn_audit x)"

definition root_inv :: "partition_info \<Rightarrow> device option \<Rightarrow> 'c running \<Rightarrow> bool" where
  "root_inv a d x \<longleftrightarrow> well_placed x \<and> get_active_partition (rn_disks x) = Ok a \<and> dk_dev (rn_disks x) (part_device a) = d \<and>
     (\<forall>p\<in>targets x. get_inactive_partition (rn_disks x) = Ok p)"

lemma root_inv_quiet:
  assumes "root_inv a d x" "quiet_disks (rn_disks x) (rn_disks y)" "targets y \<subseteq> targets x" "well_placed y"
  shows "root_inv a d y"
  using assms same_root_active [of "rn_disks x" "rn_disks y"] by (auto simp: root_inv_def quiet_disks_def)

lemma well_placed_path:
  "well_placed x \<Longrightarrow> storage_path (sc_sched (rn_service y)) = storage_path (sc_sched (rn_service x)) \<Longrightarrow>
     rn_renewal y = rn_renewal x \<Longrightarrow> log_placed (rn_audit y) \<Longrightarrow> well_placed y"
  by (simp add: well_placed_def)

lemma log_request_placed:
  assumes "well_placed x"
  shows "log_placed (rn_audit (log_request js entry x)) \<and> quiet_disks (rn_disks x) (rn_disks (log_request js entry x))"
proof -
  obtain log fs where run: "record_entry js entry (rn_audit x) (sc_fs (rn_service x)) = (log, fs)" by force
  have "al_path (rn_audit x) \<notin> root_files" "\<forall>f. al_writer (rn_audit x) = Some f \<longrightarrow> f = al_path (rn_audit x)"
    using assms by (simp_all add: well_placed_def log_placed_def)
  then show ?thesis
    using root_record_entry [OF run] by (auto simp: log_request_def run log_placed_def set_fs_disks quiet_fs)
qed

lemma log_request_simps:
  "rn_streams (log_request js entry x) = rn_streams x" "rn_job (log_request js entry x) = rn_job x"
  by (simp_all add: log_request_def split: prod.splits)

lemma astep_well_placed:
  assumes "astep ok x y" "well_placed x"
  shows "well_placed y"
proof (rule well_placed_path [OF assms(2)])
  define T where "T = (0 :: timestamp)"
  have "keeps_schedules (rn_service x) (rn_service y)"
    using assms(1)
  proof (cases rule: astep.cases)
    case (request E r certs)
    then show ?thesis using handle_keeps by simp
  next
    case (expire E s ss)
    then show ?thesis using set_status_of_grows [of T x] by (simp add: service_grows_def)
  next
    case (start E s ss)
    then show ?thesis using set_status_of_grows [of T x] by (simp add: service_grows_def)
  next
    case (finish E s r)
    then show ?thesis using set_status_of_grows [of T x] by (simp add: service_grows_def)
  next
    case (supervisor E ks)
    then show ?thesis using supervise_grows [of T x E ks] by (simp add: service_grows_def)
  qed (auto simp: open_stream_def advance_stream_def advance_job_def renew_def log_request_def split: option.splits prod.splits)
  then show "storage_path (sc_sched (rn_service y)) = storage_path (sc_sched (rn_service x))"
    by (simp add: keeps_schedules_def)
  show "rn_renewal y = rn_renewal x"
    using assms(1) by (cases rule: astep.cases) (auto simp: open_stream_def advance_stream_def advance_job_def renew_def
      set_status_of_def supervise_def log_request_def split: option.splits prod.splits)
  show "log_placed (rn_audit y)"
    using assms(1)
  proof (cases rule: astep.cases)
    case (logging js entry)
    then show ?thesis using log_request_placed [OF assms(2)] by simp
  qed (use assms(2) in \<open>auto simp: open_stream_def advance_stream_def advance_job_def renew_def set_status_of_def
    supervise_def well_placed_def split: option.splits prod.splits\<close>)
qed

lemma set_status_of_quiet:
  "storage_path (sc_sched (rn_service x)) \<notin> root_files \<Longrightarrow> quiet_disks (rn_disks x) (rn_disks (set_status_of js now i st err x))"
  using root_update_status [of "node_of (rn_service x)"] by (simp add: set_status_of_def)

lemma set_status_of_simps [simp]:
  "rn_streams (set_status_of js now i st err x) = rn_streams x" "rn_job (set_status_of js now i st err x) = rn_job x"
  "rn_work (set_status_of js now i st err x) = rn_work x" "rn_renewal (set_status_of js now i st err x) = rn_renewal x"
  by (simp_all add: set_status_of_def)

lemma targetsI:
  "rn_streams x i = Some (req, q) \<Longrightarrow> stream_target q = Some p \<Longrightarrow> p \<in> targets x"
  "rn_job x = Some (s, q') \<Longrightarrow> update_target q' = Some p \<Longrightarrow> p \<in> targets x"
  by (auto simp: targets_def)

text \<open>A step writes a device only as a step of an update.\<close>

lemma astep_quiet:
  assumes "astep ok x y" "well_placed x"
  obtains (streaming) E i where "ok E" "y = advance_stream (se_update E) i x"
    | (executing) E where "ok E" "y = advance_job (se_update E) x"
    | (quiet) "quiet_disks (rn_disks x) (rn_disks y)" "targets y \<subseteq> targets x"
proof -
  note cases = that
  have path: "storage_path (sc_sched (rn_service x)) \<notin> root_files" using assms(2) by (simp add: well_placed_def)
  have "(\<exists>E i. ok E \<and> y = advance_stream (se_update E) i x) \<or> (\<exists>E. ok E \<and> y = advance_job (se_update E) x) \<or>
    quiet_disks (rn_disks x) (rn_disks y) \<and> targets y \<subseteq> targets x"
    using assms(1)
  proof (cases rule: astep.cases)
    case (request E r certs)
    then show ?thesis using handle_keeps_root [of r "rn_service x" E certs] path by (auto simp: keeps_root_def targets_def)
  next
    case (accepting E i certs req)
    then show ?thesis by (auto simp: open_stream_def targets_def split: if_splits)
  next
    case (hang_up i)
    then show ?thesis by (auto simp: targets_def split: if_splits)
  next
    case (finish E s r)
    then show ?thesis using set_status_of_quiet [OF path] by (auto simp: targets_def)
  next
    case (expire E s ss)
    then show ?thesis using set_status_of_quiet [OF path] by (auto simp: targets_def)
  next
    case (start E s ss)
    then show ?thesis using set_status_of_quiet [OF path] by (auto simp: targets_def)
  next
    case (supervisor E ks)
    then show ?thesis
      using root_supervisor [of "se_sched_json E" _ _ _ _ _ _ _ _ "node_of (rn_service x)"] path
      by (auto simp: supervise_def targets_def split: prod.splits)
  next
    case (renewal E mgr)
    obtain r fs c m where run: "check_and_renew (se_x509 E) (se_certs E) (se_now E 0) (se_now E 1) mgr (sc_fs (rn_service x))
      (sc_cluster (rn_service x)) (rn_metrics x) = (r, fs, c, m)" by (metis prod_cases4)
    then have "fs_same_root (sc_fs (rn_service x)) fs"
      using root_renewal [OF run] renewal assms(2) by (simp add: well_placed_def)
    then show ?thesis using renewal run by (auto simp: renew_def targets_def set_fs_disks quiet_fs)
  next
    case (logging js entry)
    then show ?thesis using log_request_placed [OF assms(2)] by (simp add: targets_def log_request_simps)
  qed (auto simp: targets_def)
  then show thesis using cases by blast
qed

lemma calm_tmp: "calm sha256 E \<Longrightarrow> \<forall>f\<in>root_files. ue_tmp (se_update E) \<noteq> Inr f"
  using root_in_boot_files by (auto simp: calm_def)

lemma advance_stream_inv:
  assumes "calm sha256 E" "root_inv a d x" "well_placed (advance_stream (se_update E) i x)"
  shows "root_inv a d (advance_stream (se_update E) i x)"
proof (cases "rn_streams x i")
  case None
  then show ?thesis using assms(2) by (simp add: advance_stream_def)
next
  case (Some rp)
  obtain req p where rp: "rp = (req, p)" by force
  obtain m p' w where n: "stream_next (se_update E) req p (rn_disks x) = (m, p', w)" by (metis prod_cases3)
  let ?y = "advance_stream (se_update E) i x"
  have y: "rn_disks ?y = w" "rn_streams ?y = (rn_streams x)(i \<mapsto> (req, p'))" "rn_job ?y = rn_job x"
    using Some rp n by (simp_all add: advance_stream_def)
  have act: "get_active_partition (rn_disks x) = Ok a" using assms(2) by (simp add: root_inv_def)
  have tgt: "stream_target p = Some q \<Longrightarrow> get_inactive_partition (rn_disks x) = Ok q" for q
    using assms(2) Some rp targetsI(1) [of x i req p q] by (auto simp: root_inv_def)
  have s: "snd (stream_next (se_update E) req p (rn_disks x)) = (p', w)" using n by simp
  note run = stream_machine.step_running [OF calm_tmp [OF assms(1)] s act tgt]
  have root: "get_inactive_partition w = get_inactive_partition (rn_disks x)"
    by (rule same_root_active(2) [OF stream_machine.step_root [OF calm_tmp [OF assms(1)] s]])
  have "\<forall>q\<in>targets ?y. get_inactive_partition w = Ok q"
    using assms(2) run(3) root targetsI unfolding root_inv_def targets_def [of ?y] y by (fastforce split: if_splits)
  then show ?thesis using assms(2,3) run(1,2) y by (simp add: root_inv_def)
qed

lemma advance_job_inv:
  assumes "calm sha256 E" "root_inv a d x" "well_placed (advance_job (se_update E) x)"
  shows "root_inv a d (advance_job (se_update E) x)"
proof (cases "rn_job x")
  case None
  then show ?thesis using assms(2) by (simp add: advance_job_def)
next
  case (Some sp)
  obtain s p where sp: "sp = (s, p)" by force
  obtain p' w where n: "update_next (se_update E) s p (rn_disks x) = (p', w)" by force
  let ?y = "advance_job (se_update E) x"
  have y: "rn_disks ?y = w" "rn_streams ?y = rn_streams x" "rn_job ?y = Some (s, p')"
    using Some sp n by (simp_all add: advance_job_def)
  have act: "get_active_partition (rn_disks x) = Ok a" using assms(2) by (simp add: root_inv_def)
  have tgt: "update_target p = Some q \<Longrightarrow> get_inactive_partition (rn_disks x) = Ok q" for q
    using assms(2) Some sp targetsI(2) [of x s p q] by (auto simp: root_inv_def)
  have ok: "(\<forall>f\<in>boot_files. ue_tmp (se_update E) \<noteq> Inr f) \<and> hook_benign (ue_hook (se_update E))"
    using assms(1) by (simp add: calm_def)
  note run = update_machine.step_running [OF ok n act tgt]
  have root: "get_inactive_partition w = get_inactive_partition (rn_disks x)"
    by (rule same_root_active(2) [OF update_machine.step_root [OF ok n]])
  have "\<forall>q\<in>targets ?y. get_inactive_partition w = Ok q"
    using assms(2) run(3) root targetsI(1) unfolding root_inv_def targets_def [of ?y] y by fastforce
  then show ?thesis using assms(2,3) run(1,2) y by (simp add: root_inv_def)
qed

lemma astep_root_inv:
  assumes "astep (calm sha256) x y" "root_inv a d x"
  shows "root_inv a d y"
proof -
  have wp: "well_placed x" "well_placed y" using astep_well_placed [OF assms(1)] assms(2) by (simp_all add: root_inv_def)
  from assms(1) wp(1) show ?thesis
  proof (cases rule: astep_quiet)
    case (streaming E i)
    then show ?thesis using advance_stream_inv assms(2) wp by simp
  next
    case (executing E)
    then show ?thesis using advance_job_inv assms(2) wp by simp
  next
    case quiet
    then show ?thesis using root_inv_quiet assms(2) wp by blast
  qed
qed

lemma new_audit_log_placed:
  assumes "new_audit_log p fs = (log, fs')" "p \<notin> root_files"
  shows "log_placed log" "fs_same_root fs fs'"
proof -
  obtain h where "open_file p fs = (h, fs')" "log = \<lparr>al_path = p, al_writer = h\<rparr>"
    using assms(1) by (auto simp: new_audit_log_def split: prod.splits)
  then show "log_placed log" "fs_same_root fs fs'" using root_open_file assms(2) by (auto simp: log_placed_def)
qed

lemma launch_simps:
  assumes "start_agent S w c = (Ok ag, w', c')"
  shows "well_placed (launch ag)" "rn_disks (launch ag) = w'" "targets (launch ag) = {}"
proof -
  have "''/var/lib/keel/audit/audit.log'' \<notin> root_files" by (simp add: root_files_def)
  then have "log_placed (ag_audit ag)"
    using assms new_audit_log_placed(1) by (fastforce simp: start_agent_unfold Let_def split: sum.splits prod.splits)
  then show "well_placed (launch ag)"
    using assms by (auto simp: start_agent_unfold Let_def launch_def well_placed_def new_scheduler_def root_files_def renewal_daemon_def
      new_renewal_manager_def operational_cert_def operational_key_def split: sum.splits prod.splits if_splits)
  show "rn_disks (launch ag) = w'"
    using assms by (auto simp: start_agent_unfold Let_def launch_def split: sum.splits prod.splits)
  show "targets (launch ag) = {}" by (simp add: targets_def launch_def)
qed

lemma asteps_root_inv: "(astep (calm sha256))\<^sup>*\<^sup>* x y \<Longrightarrow> root_inv a d x \<Longrightarrow> root_inv a d y"
  by (induction rule: rtranclp_induct) (auto intro: astep_root_inv)

lemma demo_start:
  "\<exists>ag w' c'. start_agent demo_startup demo_disks [] = (Ok ag, w', c') \<and> quiet_disks demo_disks w'"
proof -
  have k: "init_k8s_certificates (se_certs (su_service demo_startup)) (dk_fs demo_disks) [] = (None, dk_fs demo_disks, [])"
    by (simp add: init_k8s_certificates_def demo_disks_def path_exists_def service_account_token_def)
  have no: "\<not> path_exists agent_config_path (dk_fs demo_disks)" "\<not> can_configure agent_tls (dk_fs demo_disks)"
    by (simp_all add: agent_config_path_def agent_tls_def can_configure_def demo_disks_def path_exists_def)
  obtain log fs where log: "new_audit_log ''/var/lib/keel/audit/audit.log'' (dk_fs demo_disks) = (log, fs)" by force
  have "fs_same_root (dk_fs demo_disks) fs" using new_audit_log_placed(2) [OF log] by (simp add: root_files_def)
  then show ?thesis
    using k no log by (simp add: quiet_fs start_agent_unfold demo_startup_def read_node_config_def setup_tls_def Let_def)
qed

lemma demo_start_partitions:
  assumes "quiet_disks demo_disks w'"
  shows "get_active_partition w' = Ok \<lparr>part_device = ''/dev/sda2'', part_index = 2\<rparr>"
    "get_inactive_partition w' = Ok \<lparr>part_device = ''/dev/sda3'', part_index = 3\<rparr>" "dk_dev w' = dk_dev demo_disks"
  using assms same_root_active [of demo_disks w'] demo_active demo_inactive by (simp_all add: quiet_disks_def)

lemma demo_calm: "calm (ue_sha256 demo_env) demo_service_env"
  using demo_hook_benign demo_tmp by (simp add: calm_def demo_service_env_def)

text \<open>
  The partition the node runs from is never written. However the requests of the clients,
  the open update streams, the executor, the supervisor and the renewal interleave after
  the start of the agent, the agent goes on to take the same partition for the running
  one, and that device keeps its contents.
\<close>

lemma running_partition_never_written:
  assumes start: "start_agent S w c = (Ok ag, w', c')"
    and run: "(astep (calm sha256))\<^sup>*\<^sup>* (launch ag) y"
    and active: "get_active_partition w' = Ok a"
  shows "get_active_partition (rn_disks y) = Ok a \<and> dk_dev (rn_disks y) (part_device a) = dk_dev w' (part_device a)"
proof -
  have "root_inv a (dk_dev w' (part_device a)) (launch ag)"
    using launch_simps [OF start] active by (simp add: root_inv_def)
  from asteps_root_inv [OF run this] show ?thesis by (simp add: root_inv_def)
qed

lemma running_partition_never_written_witness:
  "\<exists>ag w' c'. start_agent demo_startup demo_disks [] = (Ok ag, w', c') \<and>
     get_active_partition (rn_disks (advance_stream demo_env 0 (open_stream 0 demo_install (launch ag)))) =
       Ok \<lparr>part_device = ''/dev/sda2'', part_index = 2\<rparr>"
proof -
  obtain ag w' c' where st: "start_agent demo_startup demo_disks [] = (Ok ag, w', c')"
    "get_active_partition w' = Ok \<lparr>part_device = ''/dev/sda2'', part_index = 2\<rparr>"
    using demo_start demo_start_partitions(1) by blast
  let ?x = "launch ag" and ?ok = "calm (ue_sha256 demo_env) :: (string list, unit, unit) service_env \<Rightarrow> bool"
  have "astep ?ok ?x (open_stream 0 demo_install ?x)"
    by (rule astep.accepting [where E = demo_service_env and certs = None]) (simp_all add: demo_calm launch_def authorize_def)
  moreover have "astep ?ok (open_stream 0 demo_install ?x) (advance_stream demo_env 0 (open_stream 0 demo_install ?x))"
    using astep.streaming [of ?ok demo_service_env] demo_calm by (simp add: demo_service_env_def)
  ultimately have "(astep ?ok)\<^sup>*\<^sup>* ?x (advance_stream demo_env 0 (open_stream 0 demo_install ?x))" by simp
  then show ?thesis using running_partition_never_written [OF st(1) _ st(2)] st(1) by blast
qed

end
