(* ===== verification/Update_Race.thy ===== *)
theory Update_Race
  imports Agent_System
begin

text \<open>
  Several updates at once. Nothing keeps an update request from starting while another one or
  a scheduled update is under way, and all of them write the same slot. As long as no two of
  them overlap, the boot partition is switched only to a slot that holds an image of the
  expected digest; two that overlap can boot a mixture of two images that were both verified.
\<close>

section \<open>One update at a time\<close>

text \<open>The updates that rely on what they have written to their target.\<close>

fun writing_stream :: "stream_pos \<Rightarrow> bool" where
  "writing_stream (Flashing p q) = True"
| "writing_stream (Flashed p n) = True"
| "writing_stream q = False"

fun writing_update :: "update_pos \<Rightarrow> bool" where
  "writing_update (UpdateFlash p q) = True"
| "writing_update (PostHook p) = True"
| "writing_update (RecordActive p) = True"
| "writing_update (SwitchBoot p) = True"
| "writing_update q = False"

definition stream_writes :: "'c running \<Rightarrow> nat \<Rightarrow> bool" where
  "stream_writes x i \<longleftrightarrow> (\<exists>req p. rn_streams x i = Some (req, p) \<and> writing_stream p)"

definition job_writes :: "'c running \<Rightarrow> bool" where
  "job_writes x \<longleftrightarrow> (\<exists>s p. rn_job x = Some (s, p) \<and> writing_update p)"

definition exclusive :: "'c running \<Rightarrow> bool" where
  "exclusive x \<longleftrightarrow> (\<forall>i j. stream_writes x i \<and> stream_writes x j \<longrightarrow> i = j) \<and>
     (job_writes x \<longrightarrow> (\<forall>i. \<not> stream_writes x i))"

text \<open>
  What the target holds while an image is being flashed: the bytes hashed so far, and at the
  end an image that passed the check.
\<close>

fun flash_ok :: "(string \<Rightarrow> string) \<Rightarrow> string option \<Rightarrow> string \<Rightarrow> flash_pos \<Rightarrow> disks \<Rightarrow> bool" where
  "flash_ok sha256 e dev (FlashBody items hashed off n) w \<longleftrightarrow>
     off = length hashed \<and> (\<exists>d. dk_dev w dev = Some d \<and> take off (dev_bytes d) = hashed)"
| "flash_ok sha256 e dev (FlashEnd (Inr n)) w \<longleftrightarrow> holds_image sha256 e dev w"
| "flash_ok sha256 e dev q w \<longleftrightarrow> True"

fun stream_ok :: "(string \<Rightarrow> string) \<Rightarrow> install_request \<Rightarrow> stream_pos \<Rightarrow> disks \<Rightarrow> bool" where
  "stream_ok sha256 req (Flashing p q) w \<longleftrightarrow> flash_ok sha256 (non_empty (iu_expected_sha256 req)) (part_device p) q w"
| "stream_ok sha256 req (Flashed p n) w \<longleftrightarrow> holds_image sha256 (non_empty (iu_expected_sha256 req)) (part_device p) w"
| "stream_ok sha256 req q w \<longleftrightarrow> True"

fun update_ok :: "(string \<Rightarrow> string) \<Rightarrow> update_schedule \<Rightarrow> update_pos \<Rightarrow> disks \<Rightarrow> bool" where
  "update_ok sha256 s (UpdateFlash p q) w \<longleftrightarrow> flash_ok sha256 (expected_sha256 s) (part_device p) q w"
| "update_ok sha256 s (PostHook p) w \<longleftrightarrow> holds_image sha256 (expected_sha256 s) (part_device p) w"
| "update_ok sha256 s (RecordActive p) w \<longleftrightarrow> holds_image sha256 (expected_sha256 s) (part_device p) w"
| "update_ok sha256 s (SwitchBoot p) w \<longleftrightarrow> holds_image sha256 (expected_sha256 s) (part_device p) w"
| "update_ok sha256 s q w \<longleftrightarrow> True"

lemma flash_ok_cong: "dk_dev w' = dk_dev w \<Longrightarrow> flash_ok sha256 e dev q w' = flash_ok sha256 e dev q w"
  by (cases "(sha256, e, dev, q, w)" rule: flash_ok.cases) (auto simp: holds_image_def)

lemma stream_ok_cong: "dk_dev w' = dk_dev w \<Longrightarrow> stream_ok sha256 req q w' = stream_ok sha256 req q w"
  using flash_ok_cong [of w' w] holds_image_cong [of w' w] by (cases q) simp_all

lemma update_ok_cong: "dk_dev w' = dk_dev w \<Longrightarrow> update_ok sha256 s q w' = update_ok sha256 s q w"
  using flash_ok_cong [of w' w] holds_image_cong [of w' w] by (cases q) simp_all

lemma flash_next_ok:
  assumes "flash_next U j p w = (p', w')" "flash_ok (ue_sha256 U) (fj_sha256 j) (fj_device j) p w"
  shows "flash_ok (ue_sha256 U) (fj_sha256 j) (fj_device j) p' w'"
proof (cases p)
  case FlashStart
  then show ?thesis
    using assms(1) delta_writer.write_verified [of "ue_http U 0" "ue_sha256 U" "ue_bspatch U" "ue_tmp U" "fj_url j" "fj_device j" "fj_sha256 j" w]
    by (auto split: if_splits prod.splits sum.splits option.splits)
next
  case (FlashGet k url)
  then show ?thesis
    using assms(1) by (auto simp: dev_open_def split: http_reply.splits if_splits sum.splits option.splits)
next
  case (FlashBody items hashed off n)
  then obtain d where d: "dk_dev w (fj_device j) = Some d" "take off (dev_bytes d) = hashed" "off = length hashed"
    using assms(2) by auto
  show ?thesis
  proof (cases items)
    case Nil
    have "holds_image (ue_sha256 U) (fj_sha256 j) (fj_device j) w"
      if "verify_sha256 (ue_sha256 U) (fj_sha256 j) hashed = Ok ()"
      using d that by (auto simp: holds_image_def)
    then show ?thesis
      using assms(1) FlashBody Nil d(1) by (cases "dev_sync d"; cases "verify_sha256 (ue_sha256 U) (fj_sha256 j) hashed") auto
  next
    case (Cons it rest)
    have len: "length (take off (dev_bytes d)) = off" using d by simp
    have "take (off + length chunk) (overwrite off chunk (dev_bytes d)) = hashed @ chunk" for chunk
      using len d(2) by (simp add: overwrite_def)
    then show ?thesis
      using assms(1) FlashBody Cons d by (cases it) (auto simp: dev_write_all_def split: if_splits)
  qed
qed (use assms in auto)

lemma stream_next_ok:
  assumes "stream_next U req p w = (m, p', w')" "stream_ok (ue_sha256 U) req p w"
  shows "stream_ok (ue_sha256 U) req p' w'"
proof (cases p)
  case (Flashing inactive q)
  show ?thesis
  proof (cases "\<exists>r. q = FlashEnd r")
    case True
    then obtain r where "q = FlashEnd r" by blast
    then show ?thesis using assms Flashing by (cases r) auto
  next
    case False
    obtain q' w1 where n: "flash_next U (request_job req inactive) q w = (q', w1)" by force
    then have "p' = Flashing inactive q'" "w' = w1" using assms(1) Flashing False by (cases q; auto)+
    then show ?thesis using flash_next_ok [OF n] assms(2) Flashing by (simp add: request_job_def)
  qed
next
  case (Flashed inactive n)
  then show ?thesis using assms(1) by (auto split: prod.splits sum.splits)
qed (use assms in \<open>auto split: sum.splits\<close>)

lemma update_next_ok:
  assumes "update_next U s p w = (p', w')" "update_ok (ue_sha256 U) s p w" "hook_benign (ue_hook U)"
  shows "update_ok (ue_sha256 U) s p' w'"
proof (cases p)
  case (UpdateFlash inactive q)
  show ?thesis
  proof (cases "\<exists>r. q = FlashEnd r")
    case True
    then obtain r where "q = FlashEnd r" by blast
    then show ?thesis using assms UpdateFlash by (cases r) auto
  next
    case False
    obtain q' w1 where n: "flash_next U (schedule_job s inactive) q w = (q', w1)" by force
    then have "p' = UpdateFlash inactive q'" "w' = w1" using assms(1) UpdateFlash False by (cases q; auto)+
    then show ?thesis using flash_next_ok [OF n] assms(2) UpdateFlash by (simp add: schedule_job_def)
  qed
next
  case (PostHook inactive)
  then show ?thesis
    using assms holds_image_cong [of w' w] by (auto split: prod.splits sum.splits dest!: opt_hook_benign)
next
  case (RecordActive inactive)
  obtain r w1 where "record_active_partition_for_rollback (ue_json U) (ue_stamp U) w = (r, w1)" by force
  then show ?thesis using assms RecordActive root_record holds_image_cong [of w1 w] by fastforce
qed (use assms in \<open>auto split: sum.splits prod.splits\<close>)


section \<open>The invariant under exclusion\<close>

definition updates_ok :: "(string \<Rightarrow> string) \<Rightarrow> 'c running \<Rightarrow> bool" where
  "updates_ok sha256 x \<longleftrightarrow>
     (\<forall>i req p. rn_streams x i = Some (req, p) \<longrightarrow> stream_ok sha256 req p (rn_disks x)) \<and>
     (\<forall>s p. rn_job x = Some (s, p) \<longrightarrow> update_ok sha256 s p (rn_disks x))"

lemma stream_ok_idle: "\<not> writing_stream p \<Longrightarrow> stream_ok sha256 req p w"
  by (cases p) simp_all

lemma update_ok_idle: "\<not> writing_update p \<Longrightarrow> update_ok sha256 s p w"
  by (cases p) simp_all

lemma idle_stream_devices:
  "stream_next U req p w = (m, p', w') \<Longrightarrow> \<not> writing_stream p \<Longrightarrow> dk_dev w' = dk_dev w"
  by (cases p) (auto split: sum.splits)

lemma idle_update_devices:
  "update_next U s p w = (p', w') \<Longrightarrow> \<not> writing_update p \<Longrightarrow> hook_benign (ue_hook U) \<Longrightarrow> dk_dev w' = dk_dev w"
  by (cases p) (auto split: sum.splits prod.splits dest!: opt_hook_benign)

text \<open>A state with the same devices in which only updates that write nothing are new.\<close>

lemma updates_ok_quiet:
  assumes "updates_ok sha256 x" "dk_dev (rn_disks y) = dk_dev (rn_disks x)"
    and "\<And>i req p. rn_streams y i = Some (req, p) \<Longrightarrow> writing_stream p \<Longrightarrow> rn_streams x i = Some (req, p)"
    and "\<And>s p. rn_job y = Some (s, p) \<Longrightarrow> writing_update p \<Longrightarrow> rn_job x = Some (s, p)"
  shows "updates_ok sha256 y"
proof -
  have "stream_ok sha256 req p (rn_disks y)" if "rn_streams y i = Some (req, p)" for i req p
    using assms(1) assms(3) [OF that] stream_ok_cong [OF assms(2), of sha256 req p] stream_ok_idle [of p]
    by (cases "writing_stream p") (simp_all add: updates_ok_def)
  moreover have "update_ok sha256 s p (rn_disks y)" if "rn_job y = Some (s, p)" for s p
    using assms(1) assms(4) [OF that] update_ok_cong [OF assms(2), of sha256 s p] update_ok_idle [of p]
    by (cases "writing_update p") (simp_all add: updates_ok_def)
  ultimately show ?thesis by (simp add: updates_ok_def)
qed

lemma advance_stream_ok:
  assumes "updates_ok sha256 x" "exclusive x" "ue_sha256 U = sha256"
  shows "updates_ok sha256 (advance_stream U i x)"
proof (cases "rn_streams x i")
  case None
  then show ?thesis using assms(1) by (simp add: advance_stream_def)
next
  case (Some rp)
  obtain req p where rp: "rp = (req, p)" by force
  obtain m p' w where n: "stream_next U req p (rn_disks x) = (m, p', w)" by (metis prod_cases3)
  let ?y = "advance_stream U i x"
  have y: "rn_disks ?y = w" "rn_streams ?y = (rn_streams x)(i \<mapsto> (req, p'))" "rn_job ?y = rn_job x"
    using Some rp n by (simp_all add: advance_stream_def)
  have own: "stream_ok sha256 req p' w"
    using stream_next_ok [OF n] assms(1,3) Some rp by (simp add: updates_ok_def)
  have others: "stream_ok sha256 req' q w" if "rn_streams x j = Some (req', q)" "j \<noteq> i" for j req' q
  proof (cases "writing_stream p")
    case True
    then have "\<not> writing_stream q" using assms(2) Some rp that by (auto simp: exclusive_def stream_writes_def)
    then show ?thesis by (rule stream_ok_idle)
  next
    case False
    then show ?thesis
      using stream_ok_cong [OF idle_stream_devices [OF n False]] assms(1) that(1) by (simp add: updates_ok_def)
  qed
  have job: "update_ok sha256 s q w" if "rn_job x = Some (s, q)" for s q
  proof (cases "writing_stream p")
    case True
    then have "\<not> writing_update q" using assms(2) Some rp that by (auto simp: exclusive_def stream_writes_def job_writes_def)
    then show ?thesis by (rule update_ok_idle)
  next
    case False
    then show ?thesis
      using update_ok_cong [OF idle_stream_devices [OF n False]] assms(1) that(1) by (simp add: updates_ok_def)
  qed
  show ?thesis unfolding updates_ok_def y using own others job by (auto split: if_splits)
qed

lemma advance_job_ok:
  assumes "updates_ok sha256 x" "exclusive x" "ue_sha256 U = sha256" "hook_benign (ue_hook U)"
  shows "updates_ok sha256 (advance_job U x)"
proof (cases "rn_job x")
  case None
  then show ?thesis using assms(1) by (simp add: advance_job_def)
next
  case (Some sp)
  obtain s p where sp: "sp = (s, p)" by force
  obtain p' w where n: "update_next U s p (rn_disks x) = (p', w)" by force
  let ?y = "advance_job U x"
  have y: "rn_disks ?y = w" "rn_streams ?y = rn_streams x" "rn_job ?y = Some (s, p')"
    using Some sp n by (simp_all add: advance_job_def)
  have own: "update_ok sha256 s p' w"
    using update_next_ok [OF n _ assms(4)] assms(1,3) Some sp by (simp add: updates_ok_def)
  have others: "stream_ok sha256 req q w" if "rn_streams x j = Some (req, q)" for j req q
  proof (cases "writing_update p")
    case True
    then have "\<not> writing_stream q" using assms(2) Some sp that by (auto simp: exclusive_def stream_writes_def job_writes_def)
    then show ?thesis by (rule stream_ok_idle)
  next
    case False
    then show ?thesis
      using stream_ok_cong [OF idle_update_devices [OF n False assms(4)]] assms(1) that by (simp add: updates_ok_def)
  qed
  show ?thesis unfolding updates_ok_def y using own others by auto
qed

lemma astep_updates_kept:
  assumes "astep ok x y" "well_placed x"
    and "\<And>E i. ok E \<Longrightarrow> y \<noteq> advance_stream (se_update E) i x" "\<And>E. ok E \<Longrightarrow> y \<noteq> advance_job (se_update E) x"
  shows "(rn_streams y i = Some (req, p) \<longrightarrow> writing_stream p \<longrightarrow> rn_streams x i = Some (req, p)) \<and>
    (rn_job y = Some (s, q) \<longrightarrow> writing_update q \<longrightarrow> rn_job x = Some (s, q))"
  using assms(1)
  by (cases rule: astep.cases) (use assms(3,4) in \<open>auto simp: open_stream_def supervise_def renew_def log_request_simps split: if_splits prod.splits\<close>)

lemma astep_updates_ok:
  fixes x :: "'c running"
  assumes run: "astep (calm sha256 :: ('c, 'der, 'key) service_env \<Rightarrow> bool) x y"
    and inv: "exclusive x" "well_placed x" "updates_ok sha256 x"
  shows "updates_ok sha256 y"
proof (cases "\<exists>E :: ('c, 'der, 'key) service_env.
    calm sha256 E \<and> ((\<exists>i. y = advance_stream (se_update E) i x) \<or> y = advance_job (se_update E) x)")
  case True
  then show ?thesis using inv by (auto simp: calm_def intro: advance_stream_ok advance_job_ok)
next
  case False
  have "dk_dev (rn_disks y) = dk_dev (rn_disks x)"
    using run inv(2) by (rule astep_quiet) (use False in \<open>auto simp: quiet_disks_def\<close>)
  then show ?thesis
    using astep_updates_kept [OF run inv(2)] False by (intro updates_ok_quiet [OF inv(3)]) blast+
qed

section \<open>Two streams on one slot\<close>

text \<open>Where two streams can be brought from a given state.\<close>

definition reach ::
  "(('c, 'der, 'key) service_env \<Rightarrow> bool) \<Rightarrow> 'c running \<Rightarrow> (nat \<rightharpoonup> install_request \<times> stream_pos) \<Rightarrow> disks \<Rightarrow> bool" where
  "reach ok x f w \<longleftrightarrow> (\<exists>y. (astep ok)\<^sup>*\<^sup>* x y \<and> rn_streams y = f \<and> rn_disks y = w)"

lemma reach_open:
  assumes "reach ok x f w" "ok E" "f i = None" "authorize (se_orgs E) certs Operator = Ok ()"
  shows "reach ok x (f(i \<mapsto> (req, Opened))) w"
proof -
  obtain y where y: "(astep ok)\<^sup>*\<^sup>* x y" "rn_streams y = f" "rn_disks y = w" using assms(1) by (auto simp: reach_def)
  then have "astep ok y (open_stream i req y)" using assms(2-4) by (intro astep.accepting) auto
  with y show ?thesis unfolding reach_def
    by (intro exI [of _ "open_stream i req y"]) (auto simp: open_stream_def intro: rtranclp.rtrancl_into_rtrancl)
qed

lemma reach_next:
  assumes "reach ok x f w" "ok E" "f i = Some (req, p)" "stream_next (se_update E) req p w = (m, p', w')"
  shows "reach ok x (f(i \<mapsto> (req, p'))) w'"
proof -
  obtain y where y: "(astep ok)\<^sup>*\<^sup>* x y" "rn_streams y = f" "rn_disks y = w" using assms(1) by (auto simp: reach_def)
  have "astep ok y (advance_stream (se_update E) i y)" using assms(2) by (rule astep.streaming)
  with y assms(3,4) show ?thesis unfolding reach_def
    by (intro exI [of _ "advance_stream (se_update E) i y"]) (auto simp: advance_stream_def intro: rtranclp.rtrancl_into_rtrancl)
qed

text \<open>A stream that downloads a full image, from its opening to the first chunk.\<close>

lemma reach_body:
  assumes "reach ok x f w" "ok E" "f i = Some (req, Opened)"
    and "get_inactive_partition w = Ok p" "dev_open (part_device p) w = Ok d"
    and "\<not> iu_is_delta req" "ue_http (se_update E) 0 (iu_source_url req) = Response True st len items"
  shows "reach ok x (f(i \<mapsto> (req, Flashing p (FlashBody items [] 0 0)))) w"
proof -
  have "reach ok x (f(i \<mapsto> (req, Announced))) w" using reach_next [OF assms(1-3)] by simp
  from reach_next [OF this assms(2), of i req Announced] assms(4)
  have "reach ok x (f(i \<mapsto> (req, Targeted p))) w" by simp
  from reach_next [OF this assms(2), of i req "Targeted p"]
  have "reach ok x (f(i \<mapsto> (req, Flashing p FlashStart))) w" by simp
  from reach_next [OF this assms(2), of i req "Flashing p FlashStart"] assms(6)
  have "reach ok x (f(i \<mapsto> (req, Flashing p (FlashGet 0 (iu_source_url req))))) w" by (simp add: request_job_def)
  from reach_next [OF this assms(2), of i req "Flashing p (FlashGet 0 (iu_source_url req))"] assms(5,7)
  show ?thesis by (simp add: request_job_def)
qed

text \<open>
  Two streams side by side. \<open>beside x r1 i r2 j\<close> is the table of streams of \<open>x\<close> with the streams
  \<open>i\<close> and \<open>j\<close> at the given positions.
\<close>

definition beside ::
  "'c running \<Rightarrow> install_request \<Rightarrow> nat \<Rightarrow> install_request \<Rightarrow> nat \<Rightarrow> stream_pos \<Rightarrow> stream_pos \<Rightarrow>
     (nat \<rightharpoonup> install_request \<times> stream_pos)" where
  "beside x r1 i r2 j p q = (rn_streams x)(i \<mapsto> (r1, p), j \<mapsto> (r2, q))"

lemma beside_upd:
  "i \<noteq> j \<Longrightarrow> (beside x r1 i r2 j p q)(i \<mapsto> (r1, p')) = beside x r1 i r2 j p' q"
  "(beside x r1 i r2 j p q)(j \<mapsto> (r2, q')) = beside x r1 i r2 j p q'"
  by (auto simp: beside_def)

lemma reach_first:
  assumes "reach ok x (beside x r1 i r2 j p q) w" "ok E" "i \<noteq> j" "stream_next (se_update E) r1 p w = (m, p', w')"
  shows "reach ok x (beside x r1 i r2 j p' q) w'"
  using reach_next [OF assms(1,2), of i r1 p, OF _ assms(4)] assms(3) by (simp add: beside_def fun_upd_twist)

lemma reach_second:
  assumes "reach ok x (beside x r1 i r2 j p q) w" "ok E" "i \<noteq> j" "stream_next (se_update E) r2 q w = (m, q', w')"
  shows "reach ok x (beside x r1 i r2 j p q') w'"
  using reach_next [OF assms(1,2), of j r2 q, OF _ assms(4)] by (simp add: beside_def)

text \<open>A chunk that fits is written at the stream's own offset, whatever the device holds.\<close>

lemma chunk_step:
  assumes "dk_dev w (part_device p) = Some d" "length hashed + length c \<le> dev_limit d"
  shows "stream_next U req (Flashing p (FlashBody (Inr c # rest) hashed (length hashed) n)) w =
    ([], Flashing p (FlashBody rest (hashed @ c) (length (hashed @ c)) (n + of_nat (length c))),
     put_dev (part_device p) (d\<lparr>dev_bytes := overwrite (length hashed) c (dev_bytes d)\<rparr>) w)"
  using assms by (simp add: request_job_def dev_write_all_def)

lemma body_end_step:
  assumes "dk_dev w (part_device p) = Some d" "dev_sync d = Ok ()"
    and "verify_sha256 (ue_sha256 U) (non_empty (iu_expected_sha256 req)) hashed = Ok ()"
  shows "stream_next U req (Flashing p (FlashBody [] hashed off n)) w = ([], Flashing p (FlashEnd (Ok 0)), w)"
  using assms by (simp add: request_job_def)

text \<open>The switch does not look at what the devices hold.\<close>

lemma switch_put_dev:
  "switch_boot_partition sg k (put_dev P d w) = map_prod id (put_dev P d) (switch_boot_partition sg k w)"
  by (simp add: switch_boot_partition_def put_dev_def sgdisk_path_def Let_def split: option.splits prod.splits cmd_outcome.splits)

text \<open>Both streams at their download loops.\<close>

lemma reach_both:
  assumes "ok E" "rn_streams x i = None" "rn_streams x j = None" "i \<noteq> j" "authorize (se_orgs E) certs Operator = Ok ()"
    and "get_inactive_partition (rn_disks x) = Ok p" "dev_open (part_device p) (rn_disks x) = Ok d"
    and "\<not> iu_is_delta r1" "ue_http (se_update E) 0 (iu_source_url r1) = Response True s1 l1 items1"
    and "\<not> iu_is_delta r2" "ue_http (se_update E) 0 (iu_source_url r2) = Response True s2 l2 items2"
  shows "reach ok x (beside x r1 i r2 j (Flashing p (FlashBody items1 [] 0 0)) (Flashing p (FlashBody items2 [] 0 0))) (rn_disks x)"
proof -
  have "reach ok x (rn_streams x) (rn_disks x)" unfolding reach_def by blast
  from reach_open [OF this assms(1,2,5), of r1]
  have "reach ok x ((rn_streams x)(i \<mapsto> (r1, Opened))) (rn_disks x)" .
  from reach_open [OF this assms(1) _ assms(5), of j r2] assms(3,4)
  have "reach ok x ((rn_streams x)(i \<mapsto> (r1, Opened), j \<mapsto> (r2, Opened))) (rn_disks x)" by simp
  then have b: "reach ok x (beside x r1 i r2 j Opened Opened) (rn_disks x)" by (simp add: beside_def)
  have "beside x r1 i r2 j Opened Opened i = Some (r1, Opened)" using assms(4) by (simp add: beside_def)
  from reach_body [OF b assms(1) this assms(6-9)]
  have b: "reach ok x (beside x r1 i r2 j (Flashing p (FlashBody items1 [] 0 0)) Opened) (rn_disks x)"
    by (simp add: beside_upd(1) [OF assms(4)])
  have "beside x r1 i r2 j (Flashing p (FlashBody items1 [] 0 0)) Opened j = Some (r2, Opened)" by (simp add: beside_def)
  from reach_body [OF b assms(1) this assms(6,7,10,11)] show ?thesis by (simp add: beside_upd(2))
qed

text \<open>The first stream writes a chunk, the second its whole image, and the first goes on.\<close>

lemma reach_mixed:
  assumes start: "reach ok x (beside x r1 i r2 j (Flashing p (FlashBody [Inr a1, Inr a2] [] 0 0))
      (Flashing p (FlashBody [Inr b1, Inr b2] [] 0 0))) w"
    and ok: "ok E" "i \<noteq> j" and dev: "dk_dev w (part_device p) = Some d"
    and len: "length b1 = length a1" "length b2 = length a2" "length a1 + length a2 \<le> dev_limit d"
  shows "\<exists>n1 n2 d'. reach ok x (beside x r1 i r2 j
        (Flashing p (FlashBody [] (a1 @ a2) (length (a1 @ a2)) n1))
        (Flashing p (FlashBody [] (b1 @ b2) (length (b1 @ b2)) n2))) (put_dev (part_device p) d' w) \<and>
      take (length (a1 @ a2)) (dev_bytes d') = b1 @ a2 \<and> dev_sync d' = dev_sync d"
proof -
  let ?P = "part_device p"
  define d1 where "d1 = d\<lparr>dev_bytes := overwrite 0 a1 (dev_bytes d)\<rparr>"
  define d2 where "d2 = d\<lparr>dev_bytes := overwrite 0 b1 (dev_bytes d1)\<rparr>"
  define d3 where "d3 = d\<lparr>dev_bytes := overwrite (length b1) b2 (dev_bytes d2)\<rparr>"
  define d4 where "d4 = d\<lparr>dev_bytes := overwrite (length a1) a2 (dev_bytes d3)\<rparr>"
  note defs = d1_def d2_def d3_def d4_def
  have pp: "put_dev ?P e (put_dev ?P e' w) = put_dev ?P e w" "dk_dev (put_dev ?P e w) ?P = Some e" for e e'
    by (simp_all add: put_dev_def)
  note s1 = chunk_step [of w p d "[]" a1 "se_update E" r1 "[Inr a2]" 0, OF dev]
  note s2 = chunk_step [of "put_dev ?P d1 w" p d1 "[]" b1 "se_update E" r2 "[Inr b2]" 0, OF pp(2)]
  note s3 = chunk_step [of "put_dev ?P d2 w" p d2 b1 b2 "se_update E" r2 "[]" "of_nat (length b1)", OF pp(2)]
  note s4 = chunk_step [of "put_dev ?P d3 w" p d3 a1 a2 "se_update E" r1 "[]" "of_nat (length a1)", OF pp(2)]
  have "reach ok x (beside x r1 i r2 j (Flashing p (FlashBody [Inr a2] a1 (length a1) (of_nat (length a1))))
      (Flashing p (FlashBody [Inr b1, Inr b2] [] 0 0))) (put_dev ?P d1 w)"
    using s1 len by (intro reach_first [OF start ok]) (simp add: defs)
  from reach_second [OF this ok]
  have "reach ok x (beside x r1 i r2 j (Flashing p (FlashBody [Inr a2] a1 (length a1) (of_nat (length a1))))
      (Flashing p (FlashBody [Inr b2] b1 (length b1) (of_nat (length b1))))) (put_dev ?P d2 w)"
    using s2 len by (simp add: defs pp)
  from reach_second [OF this ok]
  have "reach ok x (beside x r1 i r2 j (Flashing p (FlashBody [Inr a2] a1 (length a1) (of_nat (length a1))))
      (Flashing p (FlashBody [] (b1 @ b2) (length (b1 @ b2)) (of_nat (length b1) + of_nat (length b2))))) (put_dev ?P d3 w)"
    using s3 len by (simp add: defs pp)
  from reach_first [OF this ok]
  have r: "reach ok x (beside x r1 i r2 j (Flashing p (FlashBody [] (a1 @ a2) (length (a1 @ a2)) (of_nat (length a1) + of_nat (length a2))))
      (Flashing p (FlashBody [] (b1 @ b2) (length (b1 @ b2)) (of_nat (length b1) + of_nat (length b2))))) (put_dev ?P d4 w)"
    using s4 len by (simp add: defs pp)
  have "take (length (a1 @ a2)) (dev_bytes d4) = b1 @ a2" using len by (simp add: defs overwrite_def)
  moreover have "dev_sync d4 = dev_sync d" by (simp add: d4_def dev_sync_def)
  ultimately show ?thesis using r by blast
qed

section \<open>Properties\<close>

text \<open>
  C5. Updates that do not overlap boot only what was verified. In every run of the agent in which
  no two updates are between the start of flashing and the switch at the same time, a
  request or a schedule that is about to switch the boot partition finds in its target an
  image that passed the check of the digest it was given.
\<close>

theorem exclusive_updates_verified:
  assumes start: "start_agent S w c = (Ok ag, w', c')"
    and run: "(\<lambda>x y. astep (calm sha256) x y \<and> exclusive x)\<^sup>*\<^sup>* (launch ag) y"
  shows "(\<forall>i req p n. rn_streams y i = Some (req, Flashed p n) \<longrightarrow>
      holds_image sha256 (non_empty (iu_expected_sha256 req)) (part_device p) (rn_disks y)) \<and>
    (\<forall>s p. rn_job y = Some (s, SwitchBoot p) \<longrightarrow> holds_image sha256 (expected_sha256 s) (part_device p) (rn_disks y))"
proof -
  have "well_placed y \<and> updates_ok sha256 y"
    using run
  proof (induction rule: rtranclp_induct)
    case base
    show ?case using launch_simps(1) [OF start] by (simp add: updates_ok_def launch_def)
  next
    case (step y z)
    then show ?case using astep_well_placed astep_updates_ok by blast
  qed
  then show ?thesis by (fastforce simp: updates_ok_def)
qed

lemma solo_exclusive: "\<forall>j. j \<noteq> i \<longrightarrow> rn_streams x j = None \<Longrightarrow> rn_job x = None \<Longrightarrow> exclusive x"
  by (auto simp: exclusive_def stream_writes_def job_writes_def) (metis option.distinct(1))+

lemma solo_run:
  fixes x :: "'c running" and E :: "('c, 'der, 'key) service_env"
  assumes "calm sha256 E" "\<forall>j. j \<noteq> i \<longrightarrow> rn_streams x j = None" "rn_job x = None"
    and "rn_streams x i = Some (req, p)" "stream_steps (se_update E) req k p (rn_disks x) = (m, p', w')"
  shows "\<exists>y. (\<lambda>x y. astep (calm sha256 :: ('c, 'der, 'key) service_env \<Rightarrow> bool) x y \<and> exclusive x)\<^sup>*\<^sup>* x y \<and>
    rn_streams y i = Some (req, p') \<and> rn_disks y = w'"
  using assms(2-5)
proof (induction k arbitrary: x p m)
  case 0
  then show ?case by (intro exI [of _ x]) simp
next
  case (Suc k)
  obtain m1 p1 w1 where n: "stream_next (se_update E) req p (rn_disks x) = (m1, p1, w1)" by (metis prod_cases3)
  let ?x = "advance_stream (se_update E) i x"
  have x: "\<forall>j. j \<noteq> i \<longrightarrow> rn_streams ?x j = None" "rn_job ?x = None" "rn_streams ?x i = Some (req, p1)" "rn_disks ?x = w1"
    using Suc.prems n by (simp_all add: advance_stream_def)
  obtain m2 where "stream_steps (se_update E) req k p1 w1 = (m2, p', w')" using Suc.prems(4) n by (auto split: prod.splits)
  then obtain y where y: "(\<lambda>x y. astep (calm sha256 :: ('c, 'der, 'key) service_env \<Rightarrow> bool) x y \<and> exclusive x)\<^sup>*\<^sup>* ?x y"
    "rn_streams y i = Some (req, p')" "rn_disks y = w'"
    using Suc.IH [OF x(1-3), of m2] x(4) by auto
  have "astep (calm sha256 :: ('c, 'der, 'key) service_env \<Rightarrow> bool) x ?x" using assms(1) by (rule astep.streaming)
  then show ?case using y solo_exclusive [OF Suc.prems(1,2)] by (intro exI [of _ y]) (auto intro: converse_rtranclp_into_rtranclp)
qed

definition demo_race_env :: "(string list, unit, unit) service_env" where
  "demo_race_env = demo_service_env\<lparr>se_update := demo_env\<lparr>
     ue_http := (\<lambda>k url. Response True ''200 OK'' None (if url = ''a'' then [Ok ''a1'', Ok ''a2''] else [Ok ''b1'', Ok ''b2''])),
     ue_sha256 := (\<lambda>b. b)\<rparr>\<rparr>"

definition demo_update_request :: "string \<Rightarrow> string \<Rightarrow> install_request" where
  "demo_update_request url sha = demo_install\<lparr>iu_source_url := url, iu_expected_sha256 := sha\<rparr>"

lemma demo_race_calm: "calm (\<lambda>b. b) demo_race_env"
  using demo_hook_benign demo_tmp by (simp add: calm_def demo_race_env_def)

theorem exclusive_updates_verified_witness:
  "\<exists>ag w' c'. \<exists>y :: string list running. start_agent demo_startup demo_disks [] = (Ok ag, w', c') \<and>
     rn_streams y 0 = Some (demo_update_request ''a'' ''a1a2'', Flashed \<lparr>part_device = ''/dev/sda3'', part_index = 3\<rparr> 0) \<and>
     holds_image (\<lambda>b. b) (Some ''a1a2'') ''/dev/sda3'' (rn_disks y)"
proof -
  obtain ag w' c' where st: "start_agent demo_startup demo_disks [] = (Ok ag, w', c')" "quiet_disks demo_disks w'"
    using demo_start by blast
  note start = demo_start_partitions(2,3) [OF st(2)]
  let ?p = "\<lparr>part_device = ''/dev/sda3'', part_index = 3\<rparr>" and ?req = "demo_update_request ''a'' ''a1a2''" and ?U = "se_update demo_race_env"
  let ?x = "open_stream 0 ?req (launch ag)"
  let ?R = "\<lambda>x y. astep (calm (\<lambda>b. b) :: (string list, unit, unit) service_env \<Rightarrow> bool) x y \<and> exclusive x"
  have l: "rn_disks ?x = w'" using launch_simps(2) [OF st(1)] by (simp add: open_stream_def)
  have x: "\<forall>j. j \<noteq> 0 \<longrightarrow> rn_streams ?x j = None" "rn_job ?x = None" "rn_streams ?x 0 = Some (?req, Opened)"
    by (simp_all add: open_stream_def launch_def)
  have lower: "to_lowercase ''a1a2'' = ''a1a2''" by code_simp
  have "\<exists>m w1. stream_steps ?U ?req 9 Opened w' = (m, Flashed ?p 0, w1)"
    by (simp add: eval_nat_numeral start request_job_def demo_update_request_def demo_install_def demo_race_env_def dev_open_def demo_disks_def
        demo_device_def dev_write_all_def dev_sync_def verify_sha256_def non_empty_def put_dev_def lower)
  then obtain m1 w1 where run: "stream_steps ?U ?req 9 Opened w' = (m1, Flashed ?p 0, w1)" by blast
  obtain y where y: "?R\<^sup>*\<^sup>* ?x y" "rn_streams y 0 = Some (?req, Flashed ?p 0)"
    using solo_run [OF demo_race_calm x, of 9] run by (auto simp: l)
  have "?R (launch ag) ?x"
    using astep.accepting [of "calm (\<lambda>b. b)" demo_race_env "launch ag" 0 None ?req] demo_race_calm
    by (simp add: launch_def authorize_def solo_exclusive)
  then have "?R\<^sup>*\<^sup>* (launch ag) y" using y(1) by (rule converse_rtranclp_into_rtranclp)
  from exclusive_updates_verified [OF st(1) this] y(2) have "holds_image (\<lambda>b. b) (Some ''a1a2'') ''/dev/sda3'' (rn_disks y)"
    by (fastforce simp: demo_update_request_def non_empty_def)
  then show ?thesis using st(1) y(2) by blast
qed

text \<open>
  C6. Two updates that overlap can boot a mixture of two images. Two requests for full images of
  the same layout, each verified against its own digest, are both taken in; there is a run
  in which both pass the check, the first reports that the update is installed and the
  flag is set on a slot that begins with the first part of one image and goes on with the
  second part of the other.
\<close>

theorem racing_updates_mix_images:
  fixes x :: "'c running" and E :: "('c, 'der, 'key) service_env"
  assumes env: "calm sha256 E" "sgdisk_doc (ue_sgdisk (se_update E))" "authorize (se_orgs E) certs Operator = Ok ()"
    and idle: "rn_streams x i = None" "rn_streams x j = None" "i \<noteq> j"
    and first: "\<not> iu_is_delta r1" "ue_http (se_update E) 0 (iu_source_url r1) = Response True s1 l1 [Ok a1, Ok a2]"
      "verify_sha256 sha256 (non_empty (iu_expected_sha256 r1)) (a1 @ a2) = Ok ()"
    and second: "\<not> iu_is_delta r2" "ue_http (se_update E) 0 (iu_source_url r2) = Response True s2 l2 [Ok b1, Ok b2]"
      "verify_sha256 sha256 (non_empty (iu_expected_sha256 r2)) (b1 @ b2) = Ok ()"
    and layout: "length b1 = length a1" "length b2 = length a2"
    and slot: "get_inactive_partition (rn_disks x) = Ok p" "dev_open (part_device p) (rn_disks x) = Ok d"
      "length (a1 @ a2) \<le> dev_limit d" "dev_sync d = Ok ()"
    and switch: "fst (switch_boot_partition (ue_sgdisk (se_update E)) (part_index p) (rn_disks x)) = Ok ()"
  shows "\<exists>y d'. (astep (calm sha256 :: ('c, 'der, 'key) service_env \<Rightarrow> bool))\<^sup>*\<^sup>* x y \<and>
    rn_streams y i = Some (r1, Closed None) \<and> rn_streams y j = Some (r2, Flashed p 0) \<and>
    dk_flags (rn_disks y) (part_index p) \<and>
    dk_dev (rn_disks y) (part_device p) = Some d' \<and> take (length (a1 @ a2)) (dev_bytes d') = b1 @ a2"
proof -
  let ?ok = "calm sha256 :: ('c, 'der, 'key) service_env \<Rightarrow> bool" and ?P = "part_device p" and ?U = "se_update E"
  have U: "ue_sha256 ?U = sha256" using env(1) by (simp add: calm_def)
  have d: "dk_dev (rn_disks x) ?P = Some d" using slot(2) by (auto simp: dev_open_def split: option.splits)
  note both = reach_both [where ok = ?ok and E = E, OF env(1) idle env(3) slot(1,2) first(1,2) second(1,2)]
  obtain n1 n2 d' where mix: "reach ?ok x (beside x r1 i r2 j
        (Flashing p (FlashBody [] (a1 @ a2) (length (a1 @ a2)) n1))
        (Flashing p (FlashBody [] (b1 @ b2) (length (b1 @ b2)) n2))) (put_dev ?P d' (rn_disks x))"
    and d': "take (length (a1 @ a2)) (dev_bytes d') = b1 @ a2" "dev_sync d' = dev_sync d"
    using reach_mixed [where ok = ?ok and E = E, OF both env(1) idle(3) d layout] slot(3) by auto
  let ?w = "put_dev ?P d' (rn_disks x)"
  have w: "dk_dev ?w ?P = Some d'" "dev_sync d' = Ok ()" using d'(2) slot(4) by (simp_all add: put_dev_def)
  obtain w2 where sw: "switch_boot_partition (ue_sgdisk ?U) (part_index p) ?w = (Ok (), w2)"
    using switch by (cases "switch_boot_partition (ue_sgdisk ?U) (part_index p) (rn_disks x)") (simp add: switch_put_dev)
  note first_step = reach_first [where ok = ?ok and E = E, OF _ env(1) idle(3)]
  note second_step = reach_second [where ok = ?ok and E = E, OF _ env(1) idle(3)]
  note ends = body_end_step [OF w, of ?U]
  from second_step [OF mix ends] second(3) U
  have "reach ?ok x (beside x r1 i r2 j
        (Flashing p (FlashBody [] (a1 @ a2) (length (a1 @ a2)) n1)) (Flashing p (FlashEnd (Ok 0)))) ?w" by simp
  from second_step [OF this]
  have "reach ?ok x (beside x r1 i r2 j
        (Flashing p (FlashBody [] (a1 @ a2) (length (a1 @ a2)) n1)) (Flashed p 0)) ?w" by simp
  from first_step [OF this ends] first(3) U
  have "reach ?ok x (beside x r1 i r2 j (Flashing p (FlashEnd (Ok 0))) (Flashed p 0)) ?w" by simp
  from first_step [OF this]
  have "reach ?ok x (beside x r1 i r2 j (Flashed p 0) (Flashed p 0)) ?w" by simp
  from first_step [OF this] sw
  have "reach ?ok x (beside x r1 i r2 j (Closed None) (Flashed p 0)) w2" by simp
  then obtain y where y: "(astep ?ok)\<^sup>*\<^sup>* x y" "rn_streams y = beside x r1 i r2 j (Closed None) (Flashed p 0)" "rn_disks y = w2"
    by (auto simp: reach_def)
  moreover have "dk_flags w2 (part_index p)" using switch_flags [OF env(2) sw] by auto
  moreover have "dk_dev w2 = dk_dev ?w" using switch_frame [OF sw] by simp
  ultimately show ?thesis using idle(3) w(1) d'(1) by (intro exI [of _ y] exI [of _ d']) (simp add: beside_def)
qed

theorem racing_updates_mix_images_witness:
  "\<exists>y d'. (astep (calm (\<lambda>b. b) :: (string list, unit, unit) service_env \<Rightarrow> bool))\<^sup>*\<^sup>* demo_running y \<and>
     rn_streams y 0 = Some (demo_update_request ''a'' ''a1a2'', Closed None) \<and> dk_flags (rn_disks y) 3 \<and>
     dk_dev (rn_disks y) ''/dev/sda3'' = Some d' \<and> take 4 (dev_bytes d') = ''b1a2''"
proof -
  have sg: "ue_sgdisk demo_env = demo_sgdisk" by (simp add: demo_env_def)
  have x: "rn_disks demo_running = demo_disks" "rn_streams demo_running = Map.empty"
    by (simp_all add: demo_running_def demo_service_def)
  have dev: "dev_open ''/dev/sda3'' demo_disks = Ok (demo_device ''BBBB'')"
    by (simp add: dev_open_def demo_disks_def demo_device_def)
  have lower: "to_lowercase ''a1a2'' = ''a1a2''" "to_lowercase ''b1b2'' = ''b1b2''" by code_simp+
  show ?thesis
    using racing_updates_mix_images [where E = demo_race_env and ?sha256.0 = "\<lambda>b. b" and certs = None and x = demo_running and i = 0 and j = 1
        and ?r1.0 = "demo_update_request ''a'' ''a1a2''" and ?r2.0 = "demo_update_request ''b'' ''b1b2''" and p = "\<lparr>part_device = ''/dev/sda3'', part_index = 3\<rparr>"
        and d = "demo_device ''BBBB''" and ?a1.0 = "''a1''" and ?a2.0 = "''a2''" and ?b1.0 = "''b1''" and ?b2.0 = "''b2''" and ?s1.0 = "''200 OK''"
        and ?s2.0 = "''200 OK''" and ?l1.0 = None and ?l2.0 = None]
      demo_race_calm demo_sgdisk_doc demo_switch_Ok demo_inactive dev lower
    by (simp add: sg x authorize_def demo_update_request_def demo_install_def demo_race_env_def verify_sha256_def non_empty_def
        demo_device_def dev_sync_def Let_def eval_nat_numeral) blast
qed

end
