(* ===== verification/Agent_Restart.thy ===== *)
theory Agent_Restart
  imports Update_Race
begin

text \<open>
  The agent over several lives. The process may end at any time, by an error of one of its
  servers (the end of \<open>main\<close> of \<open>cmd/keel-agent/src/main.rs\<close>), by a panic or by dying, and init
  starts it again; what was in memory is gone, and the new process reads what is on disk. While
  it starts, the executor of schedules is already at work. A reboot does the same with
  another partition as the running one.
\<close>

section \<open>What the start of the agent leaves alone\<close>

text \<open>\<open>fs_only F fs fs'\<close>: at most the files in \<open>F\<close> differ, and what fails is the same.\<close>

definition fs_only :: "string set \<Rightarrow> fsys \<Rightarrow> fsys \<Rightarrow> bool" where
  "fs_only F fs fs' \<longleftrightarrow> fs_read_err fs' = fs_read_err fs \<and> fs_write_err fs' = fs_write_err fs \<and>
     fs_mkdir_err fs' = fs_mkdir_err fs \<and> (\<forall>f. f \<notin> F \<longrightarrow> fs_files fs' f = fs_files fs f)"

lemma fs_only_refl [simp]: "fs_only F fs fs"
  by (simp add: fs_only_def)

lemma fs_only_trans: "fs_only F a b \<Longrightarrow> fs_only F b c \<Longrightarrow> fs_only F a c"
  by (simp add: fs_only_def)

lemma fs_only_write: "fs_write p c fs = (r, fs') \<Longrightarrow> p \<in> F \<Longrightarrow> fs_only F fs fs'"
  using fs_write_frameD [of p c fs r fs'] by (auto simp: fs_only_def)

lemma fs_only_dir: "create_dir_all p fs = (r, fs') \<Longrightarrow> fs_only F fs fs'"
  using create_dir_all_frameD [of p fs r fs'] by (auto simp: fs_only_def)

lemma fs_only_write_pair:
  assumes "write_pair cp kp c k fs = (r, fs')" "cp \<in> F" "kp \<in> F"
  shows "fs_only F fs fs'"
proof -
  obtain r1 fs1 where 1: "fs_write cp c fs = (r1, fs1)" by force
  obtain r2 fs2 where 2: "fs_write kp k fs1 = (r2, fs2)" by force
  have "fs_only F fs fs1" "fs_only F fs1 fs2" using fs_only_write [OF 1 assms(2)] fs_only_write [OF 2 assms(3)] .
  then show ?thesis using assms(1) 1 2 fs_only_trans by (auto simp: write_pair_def split: sum.splits)
qed

lemma fs_only_open_append: "open_append p fs = (r, fs') \<Longrightarrow> p \<in> F \<Longrightarrow> fs_only F fs fs'"
  by (auto simp: open_append_def fs_only_def split: option.splits write_fault.splits)

lemma fs_only_new_audit_log:
  assumes "new_audit_log p fs = (log, fs')" "p \<in> F"
  shows "fs_only F fs fs'"
proof -
  obtain r1 fs1 where d: "(case path_parent p of None \<Rightarrow> (Ok (), fs) | Some parent \<Rightarrow> create_dir_all parent fs) = (r1, fs1)" by force
  obtain r2 fs2 where o: "open_append p fs1 = (r2, fs2)" by force
  have "fs_only F fs fs1" using d fs_only_dir by (auto split: option.splits)
  then show ?thesis
    using assms(1) d o fs_only_open_append [OF o assms(2)] fs_only_trans
    by (auto simp: new_audit_log_def open_file_def split: sum.splits)
qed

definition start_files :: "string set" where
  "start_files = {operational_cert, operational_key, ''/var/lib/keel/audit/audit.log''}"

lemma fs_only_init_certificates:
  assumes "init_k8s_certificates E fs c = (r, fs', c')"
  shows "fs_only start_files fs fs'"
proof -
  obtain r1 fs1 where d: "create_dir_all ''/var/lib/keel/crypto'' fs = (r1, fs1)" by force
  have "fs_only start_files fs1 fs2" if "write_pair operational_cert operational_key a b fs1 = (r2, fs2)" for a b r2 fs2
    by (rule fs_only_write_pair [OF that]) (simp_all add: start_files_def)
  then show ?thesis
    using assms d fs_only_dir [OF d, of start_files] fs_only_trans
    by (auto simp: init_k8s_certificates_def split: if_splits option.splits sum.splits prod.splits)
qed

lemma complete_start_frame:
  assumes "complete_start S s = (r, w', c')"
  shows "fs_only start_files (dk_fs (sc_disks s)) (dk_fs w') \<and> w' = (sc_disks s)\<lparr>dk_fs := dk_fs w'\<rparr>"
proof -
  let ?w = "sc_disks s"
  obtain k fs1 c1 where k: "init_k8s_certificates (se_certs (su_service S)) (dk_fs ?w) (sc_cluster s) = (k, fs1, c1)" by (metis prod_cases3)
  obtain log fs2 where a: "new_audit_log ''/var/lib/keel/audit/audit.log'' fs1 = (log, fs2)" by force
  have fr: "fs_only start_files (dk_fs ?w) fs1" "fs_only start_files fs1 fs2"
    using fs_only_init_certificates [OF k] fs_only_new_audit_log [OF a] by (simp_all add: start_files_def)
  have "w' = ?w\<lparr>dk_fs := fs1\<rparr> \<or> w' = ?w\<lparr>dk_fs := fs2\<rparr>"
    using assms k a by (cases "read_node_config (su_yaml S) fs1"; cases "setup_tls S fs1") (simp_all add: complete_start_def Let_def)
  then show ?thesis using fr fs_only_trans [OF fr] by (elim disjE) simp_all
qed

lemma begin_agent_Ok:
  "begin_agent S w c = Ok s \<Longrightarrow> sc_disks s = w \<and> storage_path (sc_sched s) = ''/var/lib/keel/update-schedule.json''"
  by (auto simp: begin_agent_def and_then_eq_Ok new_scheduler_def)

lemma start_agent_frame:
  assumes "start_agent S w c = (r, w', c')"
  shows "fs_only start_files (dk_fs w) (dk_fs w') \<and> w' = w\<lparr>dk_fs := dk_fs w'\<rparr>"
proof (cases "begin_agent S w c")
  case (Inr s)
  then show ?thesis using assms complete_start_frame [of S s r w' c'] begin_agent_Ok [OF Inr] by (simp add: start_agent_def)
qed (use assms in \<open>simp add: start_agent_def\<close>)

section \<open>Lives\<close>

text \<open>
  The process between the two halves of its start: the state of the service is there and the
  executor runs; nothing else does, and no log is open.
\<close>

definition warm_up :: "'c service \<Rightarrow> 'c running" where
  "warm_up s =
     \<lparr>rn_service = s, rn_streams = Map.empty, rn_work = [], rn_job = None, rn_supervisor = True, rn_renewal = None,
      rn_metrics = new_cert_metrics, rn_audit = \<lparr>al_path = ''/var/lib/keel/audit/audit.log'', al_writer = None\<rparr>\<rparr>"

text \<open>The steps of the executor alone.\<close>

inductive estep :: "(('c, 'der, 'key) service_env \<Rightarrow> bool) \<Rightarrow> 'c running \<Rightarrow> 'c running \<Rightarrow> bool" for ok where
  poll: "ok E \<Longrightarrow> rn_work x = [] \<Longrightarrow> rn_job x = None \<Longrightarrow>
     estep ok x (x\<lparr>rn_work := get_due_schedules (se_now E 0) (se_sched_order E) (sc_sched (rn_service x))\<rparr>)"
| expire: "ok E \<Longrightarrow> rn_work x = s # ss \<Longrightarrow> rn_job x = None \<Longrightarrow> \<not> is_within_maintenance_window (se_now E 0) s \<Longrightarrow>
     estep ok x ((set_status_of (se_sched_json E) (se_now E 1) (sched_id s) Failed
       (Some ''Maintenance window expired'') x)\<lparr>rn_work := ss\<rparr>)"
| start: "ok E \<Longrightarrow> rn_work x = s # ss \<Longrightarrow> rn_job x = None \<Longrightarrow> is_within_maintenance_window (se_now E 0) s \<Longrightarrow>
     estep ok x ((set_status_of (se_sched_json E) (se_now E 1) (sched_id s) Running None x)
       \<lparr>rn_work := ss, rn_job := Some (s, UpdateStart)\<rparr>)"
| executing: "ok E \<Longrightarrow> estep ok x (advance_job (se_update E) x)"
| finish: "ok E \<Longrightarrow> rn_job x = Some (s, UpdateEnd r) \<Longrightarrow>
     estep ok x ((set_status_of (se_sched_json E) (se_now E 0) (sched_id s)
         (case r of Inr _ \<Rightarrow> Completed | Inl _ \<Rightarrow> Failed) (case r of Inr _ \<Rightarrow> None | Inl e \<Rightarrow> Some e) x)\<lparr>rn_job := None\<rparr>)"

lemma estep_astep: "estep ok x y \<Longrightarrow> astep ok x y"
  by (induction rule: estep.induct) (blast intro: astep.intros)+

text \<open>The agent starts to serve: the executor goes on with what it has in hand.\<close>

definition go_live :: "'c agent \<Rightarrow> 'c running \<Rightarrow> 'c running" where
  "go_live ag x = (launch ag)\<lparr>rn_work := rn_work x, rn_job := rn_job x\<rparr>"

lemma go_live_warm_up: "go_live ag (warm_up s) = launch ag"
  by (simp add: go_live_def warm_up_def launch_def)

text \<open>The node as far as the agent is concerned: it starts, it serves, or init is about to start it.\<close>

datatype 'c life = Starting "'c running" | Up "'c running" | Down disks 'c

fun life_disks :: "'c life \<Rightarrow> disks" where
  "life_disks (Starting x) = rn_disks x"
| "life_disks (Up x) = rn_disks x"
| "life_disks (Down w c) = w"

text \<open>A process that lives on, and then the lives of the agent.\<close>

inductive pstep :: "(('c, 'der, 'key) service_env \<Rightarrow> bool) \<Rightarrow> 'c life \<Rightarrow> 'c life \<Rightarrow> bool" for ok where
  warms_up: "estep ok x y \<Longrightarrow> pstep ok (Starting x) (Starting y)"
| serves: "complete_start (S :: ('c, 'der, 'key) startup_env) (rn_service x) = (Ok ag, w', c') \<Longrightarrow>
     pstep ok (Starting x) (Up (go_live ag x))"
| lives: "astep ok x y \<Longrightarrow> pstep ok (Up x) (Up y)"

text \<open>\<open>dies\<close> and \<open>stillborn\<close> stand for every end of the process, a regular end of \<open>main\<close> too; a start that fails leaves it to init to try again.\<close>

inductive nstep :: "(('c, 'der, 'key) service_env \<Rightarrow> bool) \<Rightarrow> 'c life \<Rightarrow> 'c life \<Rightarrow> bool" for ok where
  runs: "pstep ok x y \<Longrightarrow> nstep ok x y"
| dies: "nstep ok (Up x) (Down (rn_disks x) (sc_cluster (rn_service x)))"
| stillborn: "nstep ok (Starting x) (Down (rn_disks x) (sc_cluster (rn_service x)))"
| begins: "begin_agent (S :: ('c, 'der, 'key) startup_env) w c = Ok s \<Longrightarrow> nstep ok (Down w c) (Starting (warm_up s))"
| begin_fails: "begin_agent (S :: ('c, 'der, 'key) startup_env) w c = Err e \<Longrightarrow> nstep ok (Down w c) (Down w c)"
| start_fails: "complete_start (S :: ('c, 'der, 'key) startup_env) (rn_service x) = (Err e, w', c') \<Longrightarrow>
     nstep ok (Starting x) (Down w' c')"

text \<open>A start that nothing interferes with.\<close>

lemma start_agent_steps:
  assumes "start_agent (S :: ('c, 'der, 'key) startup_env) w c = (Ok ag, w', c')"
  shows "(nstep (ok :: ('c, 'der, 'key) service_env \<Rightarrow> bool))\<^sup>*\<^sup>* (Down w c) (Up (launch ag))"
proof -
  obtain s where s: "begin_agent S w c = Ok s" "complete_start S s = (Ok ag, w', c')"
    using assms by (auto simp: start_agent_def split: sum.splits)
  have "nstep ok (Down w c) (Starting (warm_up s))" by (rule nstep.begins [OF s(1)])
  moreover have "nstep ok (Starting (warm_up s)) (Up (launch ag))"
    using nstep.runs [OF pstep.serves, of S "warm_up s" ag w' c' ok] s(2) by (simp add: go_live_warm_up) (simp add: warm_up_def)
  ultimately show ?thesis by simp
qed

text \<open>The invariant of the running partition, carried over the end and the start of the process.\<close>

fun life_inv :: "partition_info \<Rightarrow> device option \<Rightarrow> 'c life \<Rightarrow> bool" where
  "life_inv a d (Starting x) \<longleftrightarrow> root_inv a d x"
| "life_inv a d (Up x) \<longleftrightarrow> root_inv a d x"
| "life_inv a d (Down w c) \<longleftrightarrow> get_active_partition w = Ok a \<and> dk_dev w (part_device a) = d"

lemma complete_start_quiet:
  assumes "complete_start S s = (r, w', c')"
  shows "quiet_disks (sc_disks s) w'"
proof -
  have f: "fs_only start_files (dk_fs (sc_disks s)) (dk_fs w')" "w' = (sc_disks s)\<lparr>dk_fs := dk_fs w'\<rparr>"
    using complete_start_frame [OF assms] by auto
  have "fs_same_root (dk_fs (sc_disks s)) (dk_fs w')"
    using f(1) by (auto simp: fs_only_def fs_same_root_def root_files_def start_files_def operational_cert_def operational_key_def)
  then show ?thesis using f(2) quiet_fs by metis
qed

lemma go_live_placed:
  assumes "complete_start S (rn_service x) = (Ok ag, w', c')" "well_placed x"
  shows "well_placed (go_live ag x)" "rn_disks (go_live ag x) = w'" "targets (go_live ag x) \<subseteq> targets x"
proof -
  have "''/var/lib/keel/audit/audit.log'' \<notin> root_files" by (simp add: root_files_def)
  then have "log_placed (ag_audit ag)"
    using assms(1) new_audit_log_placed(1) by (fastforce simp: complete_start_def Let_def split: sum.splits prod.splits)
  then show "well_placed (go_live ag x)"
    using assms(1,2) by (auto simp: complete_start_def Let_def go_live_def launch_def well_placed_def renewal_daemon_def
      new_renewal_manager_def operational_cert_def operational_key_def split: sum.splits prod.splits if_splits)
  show "rn_disks (go_live ag x) = w'"
    using assms(1) by (auto simp: complete_start_def Let_def go_live_def launch_def split: sum.splits prod.splits)
  show "targets (go_live ag x) \<subseteq> targets x" by (auto simp: targets_def go_live_def launch_def)
qed

lemma pstep_life_inv:
  assumes "pstep (calm sha256) x y" "life_inv a d x"
  shows "life_inv a d y"
  using assms(1)
proof cases
  case (warms_up u v)
  then show ?thesis using astep_root_inv [OF estep_astep] assms(2) by auto
next
  case (serves S u ag w' c')
  then have inv: "root_inv a d u" using assms(2) by simp
  then have "well_placed u" by (simp add: root_inv_def)
  note live = go_live_placed [OF serves(3) this]
  have "root_inv a d (go_live ag u)"
    by (rule root_inv_quiet [OF inv _ live(3,1)]) (use complete_start_quiet [OF serves(3)] live(2) in simp)
  then show ?thesis using serves(2) by simp
next
  case (lives u v)
  then show ?thesis using astep_root_inv assms(2) by auto
qed

lemma begin_agent_inv:
  assumes "begin_agent S w c = Ok s" "get_active_partition w = Ok a" "dk_dev w (part_device a) = d"
  shows "root_inv a d (warm_up s)"
  using begin_agent_Ok [OF assms(1)] assms(2,3)
  by (simp add: root_inv_def warm_up_def well_placed_def log_placed_def targets_def root_files_def)

lemma nstep_life_inv:
  assumes "nstep (calm sha256) x y" "life_inv a d x"
  shows "life_inv a d y"
  using assms(1)
proof cases
  case runs
  then show ?thesis using pstep_life_inv assms(2) by blast
next
  case (begins S w c s)
  then show ?thesis using begin_agent_inv [OF begins(3)] assms(2) by simp
next
  case (start_fails S u e w' c')
  then show ?thesis
    using assms(2) complete_start_quiet [OF start_fails(3)] same_root_active(1) [of "rn_disks u" w'] by (simp add: root_inv_def quiet_disks_def)
qed (use assms(2) in \<open>auto simp: root_inv_def\<close>)

lemma nsteps_life_inv: "(nstep (calm sha256))\<^sup>*\<^sup>* x y \<Longrightarrow> life_inv a d x \<Longrightarrow> life_inv a d y"
  by (induction rule: rtranclp_induct) (auto intro: nstep_life_inv)

section \<open>A schedule that was interrupted\<close>

text \<open>
  A schedule the agent was executing when it ended is marked as running on disk, and no
  part of the new process has it in hand.
\<close>

abbreviation rn_table :: "'c running \<Rightarrow> schedule_map" where
  "rn_table x \<equiv> schedules (sc_sched (rn_service x))"

definition unfinished :: "string \<Rightarrow> update_schedule option \<Rightarrow> bool" where
  "unfinished i e \<longleftrightarrow> (\<exists>t. e = Some t \<and> sched_id t = i \<and> sched_status t \<in> {Running, RolledBack})"

text \<open>Up to the run of the supervisor the entry is the one that was read, \<open>s\<close>.\<close>

definition left_alone :: "update_schedule \<Rightarrow> string \<Rightarrow> 'c running \<Rightarrow> bool" where
  "left_alone s i x \<longleftrightarrow> wf_table (rn_table x) \<and> unfinished i (rn_table x i) \<and> (rn_supervisor x \<longrightarrow> rn_table x i = Some s) \<and>
     (\<forall>s\<in>set (rn_work x). sched_id s \<noteq> i) \<and> (\<forall>s p. rn_job x = Some (s, p) \<longrightarrow> sched_id s \<noteq> i)"

lemma schedule_handler_entry:
  "se_uuid E \<noteq> i \<Longrightarrow> schedules (sc_sched (snd (schedule_update_rpc E certs req s))) i = schedules (sc_sched s) i"
  unfolding schedule_update_rpc_def
  by (rule guarded_state [where P = "\<lambda>s t. schedules (sc_sched t) i = schedules (sc_sched s) i"])
    (auto simp: set_fs_def schedule_update_def Let_def persist_then_eq split: sum.splits prod.splits)

lemma cancel_handler_entry:
  "unfinished i (schedules (sc_sched s) i) \<Longrightarrow>
     schedules (sc_sched (snd (cancel_scheduled_update E certs j s))) i = schedules (sc_sched s) i"
  unfolding cancel_scheduled_update_def guarded_def
  by (auto simp: set_fs_def cancel_schedule_def persist_then_eq unfinished_def split: sum.splits prod.splits option.splits if_splits)

lemma handle_left_alone:
  assumes "wf_table (schedules (sc_sched s))" "unfinished i (schedules (sc_sched s) i)" "se_uuid E \<noteq> i"
  shows "wf_table (schedules (sc_sched (snd (handle E certs r s)))) \<and>
    schedules (sc_sched (snd (handle E certs r s))) i = schedules (sc_sched s) i"
  using assms handle_sched [of r E certs s] schedule_handler_table(1) [of s E certs] schedule_handler_entry [OF assms(3)]
    cancel_handler_table(1) [of s E certs] cancel_handler_entry [OF assms(2), of E certs]
  by (cases r) (simp_all add: answer_state)

lemma set_status_left_alone:
  assumes "wf_table (rn_table x)" "j \<noteq> i"
  shows "wf_table (rn_table (set_status_of js now j st err x)) \<and> rn_table (set_status_of js now j st err x) i = rn_table x i"
proof -
  have "rn_table (set_status_of js now j st err x) =
      (case rn_table x j of None \<Rightarrow> rn_table x | Some s \<Rightarrow> (rn_table x)(j \<mapsto> set_status now st err s))"
    by (simp add: set_status_of_def nd_update_status_table split: option.splits)
  then show ?thesis using assms by (auto simp: wf_table_def split: option.splits)
qed

lemma register_left_alone:
  assumes "register_rollback js ks now reason sch fs = (r, sch', fs')" "wf_table (schedules sch)" "unfinished i (schedules sch i)"
  shows "wf_table (schedules sch') \<and> unfinished i (schedules sch' i)"
proof
  show "wf_table (schedules sch')"
    using run_cmd_wf [of sch js "CmdRegister ks now reason" fs] assms(1,2) by simp
  show "unfinished i (schedules sch' i)"
    using assms(1,3) by (auto simp: register_rollback_def Let_def persist_then_eq unfinished_def split: option.splits)
qed

lemma supervise_left_alone:
  assumes "wf_table (rn_table x)" "unfinished i (rn_table x i)"
  shows "wf_table (rn_table (supervise E ks x)) \<and> unfinished i (rn_table (supervise E ks x) i)"
proof -
  let ?s = "rn_service x"
  obtain r sch' fs' where reg: "register_rollback (se_sched_json E) ks (se_now E 0) ''Critical health failure at boot''
      (sc_sched ?s) (sc_fs ?s) = (r, sch', fs')" by (metis prod_cases3)
  obtain asked hc n where run: "rollback_supervisor (se_sched_json E) (ue_json (se_update E)) (ue_sgdisk (se_update E)) (se_probe E)
      (se_check_order E) (se_sched_order E) ks (se_now E 0) (sc_health ?s) (node_of ?s) = (asked, hc, n)"
    by (metis prod_cases3)
  have "nd_sched n = sc_sched ?s \<or> nd_sched n = sch'"
    using run reg by (auto simp: rollback_supervisor_def Let_def split: option.splits prod.splits if_splits sum.splits)
  then show ?thesis using register_left_alone [OF reg] assms by (auto simp: supervise_def run)
qed

lemma due_not_unfinished:
  assumes "wf_table (schedules sch)" "unfinished i (schedules sch i)" "s \<in> set (get_due_schedules now ks sch)"
  shows "sched_id s \<noteq> i"
proof
  assume "sched_id s = i"
  moreover obtain k where "schedules sch k = Some s" "sched_status s = Pending"
    using assms(3) by (auto simp: get_due_schedules_def hash_values_def map_filter_set is_due_def)
  ultimately show False using assms(1,2) wf_table_lookup by (fastforce simp: unfinished_def)
qed

lemma set_status_of_supervisor [simp]: "rn_supervisor (set_status_of js now j st err x) = rn_supervisor x"
  by (simp add: set_status_of_def)

lemma astep_left_alone:
  assumes "astep ok x y" "\<And>E. ok E \<Longrightarrow> se_uuid E \<noteq> i" "left_alone u i x"
  shows "left_alone u i y"
  using assms(1)
proof (cases rule: astep.cases)
  case (request E r certs)
  then show ?thesis using handle_left_alone [of "rn_service x" i E certs r] assms(2,3) by (simp add: left_alone_def)
next
  case (poll E)
  then show ?thesis using due_not_unfinished [of "sc_sched (rn_service x)" i] assms(3) by (auto simp: left_alone_def)
next
  case (expire E s ss)
  then show ?thesis using set_status_left_alone [of x "sched_id s" i] assms(3) by (simp add: left_alone_def)
next
  case (start E s ss)
  then show ?thesis using set_status_left_alone [of x "sched_id s" i] assms(3) by (simp add: left_alone_def)
next
  case (finish E s r)
  then show ?thesis using set_status_left_alone [of x "sched_id s" i] assms(3) by (simp add: left_alone_def)
next
  case (supervisor E ks)
  then show ?thesis using supervise_left_alone [of x i E ks] assms(3) by (auto simp: left_alone_def supervise_def split: prod.splits)
qed (use assms(3) in \<open>auto simp: left_alone_def open_stream_def advance_stream_def advance_job_def renew_def log_request_def set_fs_def set_disks_def
  split: option.splits prod.splits\<close>)

lemma go_live_left_alone:
  assumes "complete_start S (rn_service x) = (Ok ag, w', c')" "left_alone s i x" "rn_supervisor x"
  shows "left_alone s i (go_live ag x) \<and> rn_supervisor (go_live ag x)"
proof -
  have "sc_sched (ag_service ag) = sc_sched (rn_service x)"
    using assms(1) by (auto simp: complete_start_def Let_def split: sum.splits prod.splits)
  then show ?thesis using assms(2,3) by (auto simp: left_alone_def go_live_def launch_def)
qed

lemma estep_supervisor: "estep ok x y \<Longrightarrow> rn_supervisor y = rn_supervisor x"
  by (induction rule: estep.induct) (auto simp: advance_job_def set_disks_def split: option.splits prod.splits)

text \<open>The process as long as it lives: while it starts, the supervisor is still to come.\<close>

fun life_left_alone :: "update_schedule \<Rightarrow> string \<Rightarrow> 'c life \<Rightarrow> bool" where
  "life_left_alone s i (Starting x) \<longleftrightarrow> left_alone s i x \<and> rn_supervisor x"
| "life_left_alone s i (Up x) \<longleftrightarrow> left_alone s i x"
| "life_left_alone s i (Down w c) \<longleftrightarrow> False"

lemma pstep_left_alone:
  assumes "pstep ok x y" "\<And>E. ok E \<Longrightarrow> se_uuid E \<noteq> i" "life_left_alone s i x"
  shows "life_left_alone s i y"
  using assms(1)
proof cases
  case (warms_up u v)
  then show ?thesis using astep_left_alone [OF estep_astep [OF warms_up(3)] assms(2)] estep_supervisor [OF warms_up(3)] assms(3) by simp
next
  case (serves S u ag w' c')
  then show ?thesis using go_live_left_alone [OF serves(3)] assms(3) by simp
next
  case (lives u v)
  then show ?thesis using astep_left_alone [OF lives(3) assms(2)] assms(3) by simp
qed

lemma psteps_left_alone:
  "(pstep ok)\<^sup>*\<^sup>* x y \<Longrightarrow> (\<And>E. ok E \<Longrightarrow> se_uuid E \<noteq> i) \<Longrightarrow> life_left_alone s i x \<Longrightarrow> life_left_alone s i y"
  by (induction rule: rtranclp_induct) (auto intro: pstep_left_alone)

section \<open>Properties\<close>

text \<open>
  C3. The partition the node runs from is never written, over any number of lives of the agent.
  However the requests of the clients, the open update streams, the executor, the
  supervisor, the renewal and the audit log interleave, and however often the process ends,
  while it serves or while it starts, and is started again, it goes on to take the same
  partition for the running one, and that device keeps its contents. The running partition
  is the one the agent detects; the hooks of the schedules stay clear of the boot path.
\<close>

theorem running_partition_survives:
  assumes run: "(nstep (calm sha256))\<^sup>*\<^sup>* (Down w c) y"
    and active: "get_active_partition w = Ok a"
  shows "get_active_partition (life_disks y) = Ok a \<and> dk_dev (life_disks y) (part_device a) = dk_dev w (part_device a)"
proof -
  have "life_inv a (dk_dev w (part_device a)) y" using active by (intro nsteps_life_inv [OF run]) simp
  then show ?thesis by (cases y) (simp_all add: root_inv_def)
qed

theorem running_partition_survives_witness:
  "\<exists>ag w' c'. start_agent demo_startup demo_disks [] = (Ok ag, w', c') \<and>
     get_active_partition (rn_disks (advance_stream demo_env 0 (open_stream 0 demo_install (launch ag)))) =
       Ok \<lparr>part_device = ''/dev/sda2'', part_index = 2\<rparr>"
proof -
  obtain ag w' c' where st: "start_agent demo_startup demo_disks [] = (Ok ag, w', c')" using demo_start by blast
  let ?ok = "calm (ue_sha256 demo_env) :: (string list, unit, unit) service_env \<Rightarrow> bool" and ?x = "launch ag"
  have "astep ?ok ?x (open_stream 0 demo_install ?x)"
    by (rule astep.accepting [where E = demo_service_env and certs = None]) (simp_all add: demo_calm launch_def authorize_def)
  moreover have "astep ?ok (open_stream 0 demo_install ?x) (advance_stream demo_env 0 (open_stream 0 demo_install ?x))"
    using astep.streaming [of ?ok demo_service_env] demo_calm by (simp add: demo_service_env_def)
  ultimately have "(nstep ?ok)\<^sup>*\<^sup>* (Down demo_disks []) (Up (advance_stream demo_env 0 (open_stream 0 demo_install ?x)))"
    by (meson start_agent_steps [OF st] pstep.lives nstep.runs rtranclp.rtrancl_into_rtrancl)
  from running_partition_survives [OF this demo_active] st show ?thesis by auto
qed

text \<open>
  C17. A schedule that was interrupted is never finished. When the agent begins to start and the table
  on disk has a schedule marked as running, which is what an agent leaves that ended while
  it executed it, then whatever happens as long as that process lives the schedule stays as
  it was read until the rollback supervisor has run, and is running or rolled back after
  that: it is never executed again, never completed, never failed, and a request to cancel
  it is refused. The identifiers drawn for new schedules are different from its own.
\<close>

theorem interrupted_schedule_never_ends:
  assumes start: "begin_agent (S :: ('c, 'der, 'key) startup_env) w c = Ok sv"
    and table: "wf_table (schedules (sc_sched sv))" "schedules (sc_sched sv) i = Some s" "sched_status s = Running"
    and run: "(pstep (\<lambda>E :: ('c, 'der, 'key) service_env. se_uuid E \<noteq> i))\<^sup>*\<^sup>* (Starting (warm_up sv)) y"
  shows "\<exists>x. (y = Starting x \<or> y = Up x) \<and>
    (y = Starting x \<or> rn_supervisor x \<longrightarrow> rn_table x i = Some s) \<and>
    (\<exists>t. rn_table x i = Some t \<and> sched_status t \<in> {Running, RolledBack}) \<and>
    (\<forall>s\<in>set (rn_work x). sched_id s \<noteq> i) \<and> (\<forall>s p. rn_job x = Some (s, p) \<longrightarrow> sched_id s \<noteq> i) \<and>
    (\<exists>e. cancel_schedule js i (sc_sched (rn_service x)) fs = (Err e, sc_sched (rn_service x), fs))"
proof -
  have "life_left_alone s i (Starting (warm_up sv))"
    using table wf_table_lookup [OF table(1,2)] by (simp add: left_alone_def unfinished_def warm_up_def)
  then have "life_left_alone s i y" by (intro psteps_left_alone [OF run]) auto
  then show ?thesis by (cases y) (auto simp: left_alone_def unfinished_def cancel_schedule_def)
qed

lemma plain_start:
  assumes "su_telemetry S = Ok ()" "\<not> path_exists service_account_token (dk_fs w)"
    and "\<not> path_exists agent_config_path (dk_fs w)" "\<not> can_configure agent_tls (dk_fs w)"
  shows "\<exists>ag w' c'. start_agent S w c = (Ok ag, w', c')"
  using assms
  by (simp add: start_agent_unfold init_k8s_certificates_def read_node_config_def setup_tls_def Let_def split: prod.splits)

definition demo_interrupted :: schedule_map where
  "demo_interrupted = [''a'' \<mapsto> set_status 5 Running None (demo_schedule ''a'' (Some 0))]"

definition demo_restart :: "(string list, unit, unit) startup_env" where
  "demo_restart = demo_startup\<lparr>su_service := demo_service_env\<lparr>se_sched_json :=
     \<lparr>to_json = (\<lambda>_. Err ''e''), from_json = (\<lambda>_. Ok demo_interrupted)\<rparr>\<rparr>\<rparr>"

definition demo_restart_disks :: disks where
  "demo_restart_disks = demo_disks\<lparr>dk_fs := (dk_fs demo_disks)
     \<lparr>fs_files := (fs_files (dk_fs demo_disks))(''/var/lib/keel/update-schedule.json'' \<mapsto> ''doc'')\<rparr>\<rparr>"

theorem interrupted_schedule_never_ends_witness:
  "\<exists>sv ag w' c' t. begin_agent demo_restart demo_restart_disks [] = Ok sv \<and> complete_start demo_restart sv = (Ok ag, w', c') \<and>
     rn_table (launch ag) ''a'' = Some t \<and> sched_status t = Running \<and>
     (\<exists>e. cancel_schedule demo_json ''a'' (sc_sched (ag_service ag)) (dk_fs w') = (Err e, sc_sched (ag_service ag), dk_fs w'))"
proof -
  let ?s = "set_status 5 Running None (demo_schedule ''a'' (Some 0))"
  let ?ok = "\<lambda>E :: (string list, unit, unit) service_env. se_uuid E \<noteq> ''a''"
  obtain ag w' c' where st: "start_agent demo_restart demo_restart_disks [] = (Ok ag, w', c')"
    using plain_start [of demo_restart demo_restart_disks "[]"]
    by (auto simp: demo_restart_def demo_startup_def demo_restart_disks_def demo_disks_def path_exists_def service_account_token_def
        agent_config_path_def can_configure_def agent_tls_def)
  then obtain sv where sv: "begin_agent demo_restart demo_restart_disks [] = Ok sv" "complete_start demo_restart sv = (Ok ag, w', c')"
    by (auto simp: start_agent_def split: sum.splits)
  have m: "schedules (sc_sched sv) = demo_interrupted"
    using sv(1) by (auto simp: begin_agent_def and_then_eq_Ok new_scheduler_def load_schedules_def read_to_string_def demo_restart_def
        demo_restart_disks_def demo_disks_def)
  have wf: "wf_table (schedules (sc_sched sv))" "schedules (sc_sched sv) ''a'' = Some ?s" "sched_status ?s = Running"
    by (simp_all add: m demo_interrupted_def wf_table_def wf_schedule_def demo_schedule_def make_schedule_def)
  have "pstep ?ok (Starting (warm_up sv)) (Up (go_live ag (warm_up sv)))"
    by (rule pstep.serves [of demo_restart _ _ w' c']) (simp add: sv(2) warm_up_def)
  then have "(pstep ?ok)\<^sup>*\<^sup>* (Starting (warm_up sv)) (Up (launch ag))" unfolding go_live_warm_up by blast
  from interrupted_schedule_never_ends [OF sv(1) wf this, of demo_json "dk_fs w'"] wf(3) sv show ?thesis
    by (auto simp: launch_def)
qed

end
