(* ===== verification/Auto_Rollback.thy ===== *)
theory Auto_Rollback
  imports Agent_Restart
begin

text \<open>
  The automatic rollback from end to end: a scheduled update is installed, the node is
  rebooted, the agent starts from what is on disk, its health checks fail, and the supervisor
  takes the node back to the partition it came from. The parts are in Scheduler (the table
  and its file), Disk (the rollback record and the flags), Executor (the update and the
  supervisor) and Startup; the reboot itself, firmware and kernel, is a relation between the
  disks before and after.
\<close>

section \<open>What survives a reboot\<close>

lemma healthy_fs_only: "fs_only F fs fs' \<Longrightarrow> healthy_fs fs' = healthy_fs fs"
  by (auto simp: fs_only_def healthy_fs_def)

lemma fs_only_file: "fs_only F fs fs' \<Longrightarrow> f \<notin> F \<Longrightarrow> fs_files fs' f = fs_files fs f"
  by (simp add: fs_only_def)

text \<open>The files under the directory of the agent are on the data partition and survive a reboot.\<close>

definition rebooted :: "disks \<Rightarrow> disks \<Rightarrow> bool" where
  "rebooted w w' \<longleftrightarrow> dk_dev w' = dk_dev w \<and> dk_flags w' = dk_flags w \<and> (healthy_fs (dk_fs w) \<longrightarrow> healthy_fs (dk_fs w')) \<and>
     (\<forall>f. starts_with f ''/var/lib/keel/'' \<longrightarrow> fs_files (dk_fs w') f = fs_files (dk_fs w) f)"

abbreviation schedule_file :: string where
  "schedule_file \<equiv> ''/var/lib/keel/update-schedule.json''"

lemma state_files [simp]:
  "starts_with schedule_file ''/var/lib/keel/''" "starts_with ROLLBACK_STATE_FILE ''/var/lib/keel/''"
  "schedule_file \<notin> boot_files" "schedule_file \<notin> start_files" "ROLLBACK_STATE_FILE \<notin> start_files"
  by (simp_all add: starts_with_def ROLLBACK_STATE_FILE_def boot_files_def start_files_def operational_cert_def operational_key_def)

lemma fs_only_persist: "storage_path sch = p \<Longrightarrow> fs_only {p} fs (snd (persist_schedules js sch fs))"
  by (auto simp: persist_schedules_def Let_def fs_only_def dest!: fs_write_frameD split: sum.splits option.splits prod.splits)

lemma persist_healthy:
  assumes "healthy_fs fs" "json_ok js (schedules sch)"
  shows "\<exists>fs'. persist_schedules js sch fs = (Ok (), fs')"
proof -
  obtain d where d: "to_json js (schedules sch) = Ok d" using assms(2) by (auto simp: json_ok_def split: sum.splits)
  then show ?thesis
    using assms(1) by (auto simp: persist_schedules_def Let_def fs_write_def healthy_fs_def split: option.splits)
qed

text \<open>A change of the status of a schedule, and when it reaches the disk.\<close>

lemma status_change:
  assumes "nd_table n i = Some s" "n' = nd_update_status js now i st err n"
  shows "nd_sched n' = (nd_sched n)\<lparr>schedules := (nd_table n)(i \<mapsto> set_status now st err s)\<rparr>"
    "fs_only {storage_path (nd_sched n)} (dk_fs (nd_disks n)) (dk_fs (nd_disks n'))"
    "nd_disks n' = (nd_disks n)\<lparr>dk_fs := dk_fs (nd_disks n')\<rparr>"
proof -
  let ?sch = "(nd_sched n)\<lparr>schedules := (nd_table n)(i \<mapsto> set_status now st err s)\<rparr>"
  have n': "n' = n\<lparr>nd_sched := ?sch, nd_disks := (nd_disks n)\<lparr>dk_fs := snd (persist_schedules js ?sch (dk_fs (nd_disks n)))\<rparr>\<rparr>"
    using assms by (simp add: nd_update_status_def update_status_def persist_then_def split: prod.splits sum.splits)
  show "nd_sched n' = ?sch" "fs_only {storage_path (nd_sched n)} (dk_fs (nd_disks n)) (dk_fs (nd_disks n'))"
    "nd_disks n' = (nd_disks n)\<lparr>dk_fs := dk_fs (nd_disks n')\<rparr>"
    by (simp_all add: n' fs_only_persist)
qed

lemma status_persisted:
  assumes "nd_table n i = Some s" "n' = nd_update_status js now i st err n"
    and "healthy_fs (dk_fs (nd_disks n))" "json_ok js (nd_table n')"
  shows "new_scheduler js (storage_path (nd_sched n)) (dk_fs (nd_disks n')) = nd_sched n'"
proof -
  let ?sch = "(nd_sched n)\<lparr>schedules := (nd_table n)(i \<mapsto> set_status now st err s)\<rparr>"
  have sch: "nd_sched n' = ?sch" using status_change(1) [OF assms(1,2)] .
  obtain fs' where p: "persist_schedules js ?sch (dk_fs (nd_disks n)) = (Ok (), fs')"
    using persist_healthy [OF assms(3), of js ?sch] assms(4) sch by auto
  then have "dk_fs (nd_disks n') = fs'"
    using assms(1,2) by (simp add: nd_update_status_def update_status_def persist_then_def)
  then show ?thesis
    using persist_reload [OF p] assms(3,4) sch by (simp add: new_scheduler_def healthy_fs_def)
qed

lemma fs_only_record:
  "fs_only F (dk_fs w) fs \<Longrightarrow> ROLLBACK_STATE_FILE \<notin> F \<Longrightarrow> load_rollback_state js (w\<lparr>dk_fs := fs\<rparr>) = load_rollback_state js w"
  by (intro load_rollback_state_cong) (simp_all add: fs_only_def)

section \<open>The update\<close>

text \<open>The state a successful update leaves: what is on disk, and which schedule is the latest.\<close>

lemma finished_update:
  assumes libs: "\<forall>st. json_ok (ue_json U) st" "sgdisk_doc (ue_sgdisk U)" "hook_benign (ue_hook U)"
      "\<forall>f\<in>boot_files. ue_tmp U \<noteq> Inr f"
    and node: "storage_path (nd_sched n) = schedule_file" "healthy_fs (dk_fs (nd_disks n))" "get_active_partition (nd_disks n) = Ok a"
    and s: "nd_table n (sched_id s) = Some s" "is_within_maintenance_window t0 s"
    and update: "fst (execute_scheduled_update U s (nd_disks (nd_update_status js t1 (sched_id s) Running None n))) = Ok ()"
    and n': "n' = run_due js U t0 t1 t2 s n" "json_ok js (nd_table n')"
  shows "new_scheduler js schedule_file (dk_fs (nd_disks n')) = nd_sched n'" "healthy_fs (dk_fs (nd_disks n'))"
    "nd_table n' = (nd_table n)(sched_id s \<mapsto> set_status t2 Completed None (set_status t1 Running None s))"
    "previous_partition (load_rollback_state (ue_json U) (nd_disks n')) = Some (part_index a)"
    "dk_dev (nd_disks n') (part_device a) = dk_dev (nd_disks n) (part_device a)"
proof -
  define n1 where "n1 = nd_update_status js t1 (sched_id s) Running None n"
  note r1 = status_change [OF s(1) n1_def]
  obtain w where ex: "execute_scheduled_update U s (nd_disks n1) = (Ok (), w)"
    using update by (cases "execute_scheduled_update U s (nd_disks n1)") (simp add: n1_def)
  have h1: "healthy_fs (dk_fs (nd_disks n1))" using node(2) healthy_fs_only [OF r1(2)] by simp
  have "f \<noteq> schedule_file" if "f \<in> boot_files" for f using that by auto
  then have "same_boot (nd_disks n) (nd_disks n1)"
    using r1(2) node(1) by (subst r1(3)) (simp add: same_boot_def fs_only_def)
  then have act: "get_active_partition (nd_disks n1) = Ok a" using same_boot_active node(3) by simp
  note rec = update_records_previous [OF libs(3,4,2,1) _ _ _ act ex]
  have rec: "previous_partition (load_rollback_state (ue_json U) w) = Some (part_index a)"
    "dk_dev w (part_device a) = dk_dev (nd_disks n1) (part_device a)" "healthy_fs (dk_fs w)"
    using rec h1 by (simp_all add: healthy_fs_def)
  let ?n2 = "n1\<lparr>nd_disks := w\<rparr>"
  have n'2: "n' = nd_update_status js t2 (sched_id s) Completed None ?n2"
    using n'(1) s(2) ex by (simp add: run_due_def Let_def n1_def)
  have t2: "nd_table ?n2 (sched_id s) = Some (set_status t1 Running None s)" by (simp add: r1(1))
  have h2: "healthy_fs (dk_fs (nd_disks ?n2))" using rec(3) by simp
  note r2 = status_change [OF t2 n'2]
  show "new_scheduler js schedule_file (dk_fs (nd_disks n')) = nd_sched n'" using status_persisted [OF t2 n'2 h2 n'(2)] node(1) by (simp add: r1(1))
  show "healthy_fs (dk_fs (nd_disks n'))" using h2 healthy_fs_only [OF r2(2)] by simp
  show "nd_table n' = (nd_table n)(sched_id s \<mapsto> set_status t2 Completed None (set_status t1 Running None s))"
    by (simp add: r2(1) r1(1))
  have "load_rollback_state (ue_json U) (nd_disks n') = load_rollback_state (ue_json U) w"
    by (subst r2(3)) (use fs_only_record [OF r2(2)] node(1) in \<open>simp add: r1(1) ROLLBACK_STATE_FILE_def\<close>)
  then show "previous_partition (load_rollback_state (ue_json U) (nd_disks n')) = Some (part_index a)" using rec(1) by simp
  show "dk_dev (nd_disks n') (part_device a) = dk_dev (nd_disks n) (part_device a)"
    using rec(2) by (simp add: n'2 n1_def)
qed

lemma latest_is_new:
  assumes "iter_order ks (schedules sch)" "schedules sch = m(i \<mapsto> u)" "is_active u" "started_at u = Some t1"
    and "\<forall>t\<in>ran m. is_active t \<longrightarrow> started_at t < Some t1"
  shows "get_latest_active_schedule ks sch = Some u"
proof (cases "get_latest_active_schedule ks sch")
  case None
  then show ?thesis using latest_active_None [OF assms(1)] assms(2,3) by (metis fun_upd_same ranI)
next
  case (Some r)
  note r = latest_active_Some [OF assms(1) Some]
  have "r = u"
  proof (rule ccontr)
    assume "r \<noteq> u"
    then have "r \<in> ran m" using r assms(2) by (auto simp: ran_def split: if_splits)
    then have "started_at r < Some t1" using r assms(5) by blast
    moreover have "Some t1 \<le> started_at r" using r assms(2-4) by (metis fun_upd_same ranI)
    ultimately show False by simp
  qed
  then show ?thesis using Some by simp
qed

section \<open>The rollback\<close>

text \<open>
  The supervisor on a node that came up sick: with the record of the update on disk and
  the latest schedule asking for it, it rolls back and asks for a reboot, once.
\<close>

lemma supervisor_rolls_back:
  assumes libs: "\<forall>st. json_ok rjs st" "sgdisk_runs sg"
    and node: "storage_path (nd_sched n) = schedule_file" "healthy_fs (dk_fs (nd_disks n))" "has_sgdisk (dk_fs (nd_disks n))"
      "previous_partition (load_rollback_state rjs (nd_disks n)) = Some i"
    and sick: "fst (run_all_checks probe hks hc) = Some (Unhealthy, exs)"
    and latest: "get_latest_active_schedule ks1 (nd_sched n) = Some u" "get_latest_active_schedule ks2 (nd_sched n) = Some u"
      "enable_auto_rollback u" "nd_table n (sched_id u) = Some u"
  shows "\<exists>hc' n'. rollback_supervisor js rjs sg probe hks ks1 ks2 now hc n = (True, hc', n') \<and>
    dk_flags (nd_disks n') i \<and> \<not> dk_flags (nd_disks n') (other_slot i) \<and> dk_dev (nd_disks n') = dk_dev (nd_disks n) \<and>
    map_option sched_status (nd_table n' (sched_id u)) = Some RolledBack \<and> storage_path (nd_sched n') = schedule_file \<and>
    previous_partition (load_rollback_state rjs (nd_disks n')) = None"
proof -
  let ?m = "''Critical health failure at boot''"
  let ?sch = "(nd_sched n)\<lparr>schedules := (nd_table n)(sched_id u \<mapsto> mark_rolled_back now ?m u)\<rparr>"
  obtain r fs' where reg: "register_rollback js ks2 now ?m (nd_sched n) (dk_fs (nd_disks n)) = (r, ?sch, fs')"
    and fs': "fs' = snd (persist_schedules js ?sch (dk_fs (nd_disks n)))"
    using latest(2,4) by (simp add: register_rollback_alt latest_active_key_def persist_then_eq)
  have p: "fs_only {schedule_file} (dk_fs (nd_disks n)) fs'" unfolding fs' using node(1) by (intro fs_only_persist) simp
  let ?w = "(nd_disks n)\<lparr>dk_fs := fs'\<rparr>"
  have w: "healthy_fs (dk_fs ?w)" "has_sgdisk (dk_fs ?w)" "previous_partition (load_rollback_state rjs ?w) = Some i"
    using node(2-4) healthy_fs_only [OF p] fs_only_file [OF p] fs_only_record [OF p]
    by (simp_all add: has_sgdisk_def ROLLBACK_STATE_FILE_def)
  obtain w' where rb: "rollback_to_previous_partition rjs sg ?w = (Ok (), w')" "dk_flags w' i" "\<not> dk_flags w' (other_slot i)"
    "dk_dev w' = dk_dev ?w" "previous_partition (load_rollback_state rjs w') = None"
    by (rule rollback_runs [OF libs(2) w(2,1) libs(1) w(3)])
  obtain hc1 where run: "run_all_checks probe hks hc = (Some (Unhealthy, exs), hc1)"
    using sick by (cases "run_all_checks probe hks hc") simp
  show ?thesis
    using run latest(1,3) reg rb node(1) by (simp add: rollback_supervisor_def)
qed

lemma no_second_rollback:
  assumes "storage_path (nd_sched n) = schedule_file" "previous_partition (load_rollback_state rjs (nd_disks n)) = None"
  shows "\<not> fst (rollback_supervisor js rjs sg probe hks ks1 ks2 now hc n)"
proof -
  obtain r sch' fs' where reg: "register_rollback js ks2 now ''Critical health failure at boot'' (nd_sched n) (dk_fs (nd_disks n)) = (r, sch', fs')"
    by (metis prod_cases3)
  have "fs_only {schedule_file} (dk_fs (nd_disks n)) fs'"
    using reg assms(1) by (auto intro!: fs_only_persist simp: register_rollback_def Let_def persist_then_eq split: option.splits)
  then have "previous_partition (load_rollback_state rjs ((nd_disks n)\<lparr>dk_fs := fs'\<rparr>)) = None"
    using fs_only_record assms(2) by (simp add: ROLLBACK_STATE_FILE_def)
  then show ?thesis
    by (simp add: rollback_supervisor_def reg rollback_to_previous_partition_def Let_def split: prod.splits option.splits)
qed

section \<open>Property\<close>

text \<open>
  C9. A failed update is undone. A node without faults installs a scheduled update that asks for
  automatic rollback, is rebooted, and comes up with a critical health check failing: then
  the supervisor of the new agent asks for a reboot with the boot flag back on the slot
  the node came from and off the other one, the device of that slot holds what it held
  before the update, the schedule is marked as rolled back, and no later run of the
  supervisor from that state asks for another reboot.
\<close>

theorem failed_update_is_undone:
  assumes libs: "js = se_sched_json (su_service S)" "U = se_update (su_service S)" "\<forall>st. json_ok (ue_json U) st"
      "sgdisk_runs (ue_sgdisk U)" "hook_benign (ue_hook U)" "\<forall>f\<in>boot_files. ue_tmp U \<noteq> Inr f"
    and node: "storage_path (nd_sched n) = schedule_file" "healthy_fs (dk_fs (nd_disks n))" "get_active_partition (nd_disks n) = Ok a"
    and s: "nd_table n (sched_id s) = Some s" "enable_auto_rollback s" "is_within_maintenance_window t0 s"
      "\<forall>t\<in>ran (nd_table n). is_active t \<longrightarrow> started_at t < Some t1"
    and update: "fst (execute_scheduled_update U s (nd_disks (nd_update_status js t1 (sched_id s) Running None n))) = Ok ()"
    and n1: "n1 = run_due js U t0 t1 t2 s n" "json_ok js (nd_table n1)" "iter_order ks1 (nd_table n1)" "iter_order ks2 (nd_table n1)"
    and boot: "rebooted (nd_disks n1) w" "has_sgdisk (dk_fs w)" "start_agent S w c = (Ok ag, w', c')"
    and sick: "fst (run_all_checks probe hks (sc_health (ag_service ag))) = Some (Unhealthy, exs)"
  shows "\<exists>hc' n'. rollback_supervisor js (ue_json U) (ue_sgdisk U) probe hks ks1 ks2 now (sc_health (ag_service ag))
        (node_of (ag_service ag)) = (True, hc', n') \<and>
    dk_flags (nd_disks n') (part_index a) \<and> \<not> dk_flags (nd_disks n') (other_slot (part_index a)) \<and>
    dk_dev (nd_disks n') (part_device a) = dk_dev (nd_disks n) (part_device a) \<and>
    map_option sched_status (nd_table n' (sched_id s)) = Some RolledBack \<and>
    (\<forall>probe hks ks1 ks2 now hc. \<not> fst (rollback_supervisor js (ue_json U) (ue_sgdisk U) probe hks ks1 ks2 now hc n'))"
proof -
  let ?u = "set_status t2 Completed None (set_status t1 Running None s)" and ?n = "node_of (ag_service ag)"
  have doc: "sgdisk_doc (ue_sgdisk U)" using libs(4) by (simp add: sgdisk_runs_def)
  note up = finished_update [OF libs(3) doc libs(5,6) node s(1,3) update n1(1,2)]
  have w: "healthy_fs (dk_fs w)" "dk_dev w = dk_dev (nd_disks n1)"
    "\<And>f. starts_with f ''/var/lib/keel/'' \<Longrightarrow> fs_files (dk_fs w) f = fs_files (dk_fs (nd_disks n1)) f"
    using boot(1) up(2) by (simp_all add: rebooted_def)
  have ag: "sc_sched (ag_service ag) = new_scheduler js schedule_file (dk_fs w)" "sc_disks (ag_service ag) = w'"
    using boot(3) libs(1) by (auto simp: start_agent_unfold Let_def split: sum.splits prod.splits)
  have fr: "fs_only start_files (dk_fs w) (dk_fs w')" "w' = w\<lparr>dk_fs := dk_fs w'\<rparr>" using start_agent_frame [OF boot(3)] by auto
  have "read_to_string schedule_file (dk_fs w) = read_to_string schedule_file (dk_fs (nd_disks n1))"
    using w up(2) by (intro read_to_string_cong) (simp_all add: healthy_fs_def)
  then have sch: "nd_sched ?n = nd_sched n1" using up(1) ag(1) by (simp add: new_scheduler_def load_schedules_def)
  have "load_rollback_state (ue_json U) w' = load_rollback_state (ue_json U) w"
    by (subst fr(2)) (rule fs_only_record [OF fr(1)], simp)
  also have "\<dots> = load_rollback_state (ue_json U) (nd_disks n1)"
    using w up(2) by (intro load_rollback_state_cong) (simp_all add: healthy_fs_def)
  finally have prev: "previous_partition (load_rollback_state (ue_json U) (nd_disks ?n)) = Some (part_index a)"
    using up(4) ag(2) by simp
  have path: "storage_path (nd_sched ?n) = schedule_file" using ag(1) by (simp add: new_scheduler_def)
  have disks: "healthy_fs (dk_fs (nd_disks ?n))" "has_sgdisk (dk_fs (nd_disks ?n))"
    using w(1) boot(2) healthy_fs_only [OF fr(1)] fs_only_file [OF fr(1)] ag(2)
    by (simp_all add: has_sgdisk_def start_files_def operational_cert_def operational_key_def)
  have latest: "get_latest_active_schedule ks (nd_sched ?n) = Some ?u" if "iter_order ks (nd_table n1)" for ks
    unfolding sch using that up(3) s(4) by (intro latest_is_new [where m = "nd_table n" and i = "sched_id s"])
      (simp_all add: is_active_def set_status_def)
  have u: "enable_auto_rollback ?u" "sched_id ?u = sched_id s" "nd_table ?n (sched_id ?u) = Some ?u"
    using s(2) up(3) sch by simp_all
  obtain hc' n' where run: "rollback_supervisor js (ue_json U) (ue_sgdisk U) probe hks ks1 ks2 now (sc_health (ag_service ag)) ?n = (True, hc', n')"
    "dk_flags (nd_disks n') (part_index a)" "\<not> dk_flags (nd_disks n') (other_slot (part_index a))" "dk_dev (nd_disks n') = dk_dev (nd_disks ?n)"
    "map_option sched_status (nd_table n' (sched_id s)) = Some RolledBack" "storage_path (nd_sched n') = schedule_file"
    "previous_partition (load_rollback_state (ue_json U) (nd_disks n')) = None"
    using supervisor_rolls_back [OF libs(3,4) path disks prev sick latest [OF n1(3)] latest [OF n1(4)] u(1,3), of js now] u(2) by auto
  moreover have "dk_dev (nd_disks ?n) (part_device a) = dk_dev (nd_disks n) (part_device a)"
    using up(5) w(2) ag(2) arg_cong [OF fr(2), of dk_dev] by simp
  ultimately show ?thesis using no_second_rollback [OF run(6,7)] by auto
qed

text \<open>A node of the demonstration data that is rebooted from slot 2 into slot 3.\<close>

definition demo_update :: update_schedule where
  "demo_update = demo_schedule ''a'' (Some 0)"

definition demo_updated :: update_schedule where
  "demo_updated = set_status 2 Completed None (set_status 1 Running None demo_update)"

definition demo_node_before :: node where
  "demo_node_before = \<lparr>nd_sched = \<lparr>schedules = [''a'' \<mapsto> demo_update], storage_path = schedule_file\<rparr>, nd_disks = demo_disks\<rparr>"

definition demo_table_json :: "schedule_map json" where
  "demo_table_json = \<lparr>to_json = (\<lambda>_. Ok ''doc''), from_json = (\<lambda>_. Ok [''a'' \<mapsto> demo_updated])\<rparr>"

definition demo_boot :: "(string list, unit, unit) startup_env" where
  "demo_boot = demo_startup\<lparr>su_service := demo_service_env\<lparr>se_sched_json := demo_table_json\<rparr>\<rparr>"

definition demo_reboot :: "disks \<Rightarrow> disks" where
  "demo_reboot w = w\<lparr>dk_fs := (dk_fs w)\<lparr>fs_dirs := {}, fs_files :=
     (\<lambda>f. if starts_with f ''/var/lib/keel/'' then fs_files (dk_fs w) f
          else [''/proc/cmdline'' \<mapsto> ''quiet root=/dev/sda3'', ''/sbin/sgdisk'' \<mapsto> []] f)\<rparr>\<rparr>"

lemma demo_reboot_ok: "rebooted w (demo_reboot w)" "has_sgdisk (dk_fs (demo_reboot w))"
  by (simp_all add: rebooted_def demo_reboot_def healthy_fs_def has_sgdisk_def starts_with_def)

lemma demo_update_runs:
  "fst (execute_scheduled_update demo_env demo_update
     (nd_disks (nd_update_status demo_table_json 1 ''a'' Running None demo_node_before))) = Ok ()"
proof -
  let ?n = "nd_update_status demo_table_json 1 ''a'' Running None demo_node_before"
  have t: "nd_table demo_node_before ''a'' = Some demo_update" by (simp add: demo_node_before_def)
  note c = status_change [OF t refl, of demo_table_json 1 Running None]
  have only: "fs_only {schedule_file} (dk_fs demo_disks) (dk_fs (nd_disks ?n))" using c(2) by (simp add: demo_node_before_def)
  have "f \<noteq> schedule_file" if "f \<in> boot_files" for f using that by auto
  then have "same_boot demo_disks (nd_disks ?n)"
    using only by (subst c(3)) (simp add: same_boot_def fs_only_def demo_node_before_def)
  moreover have "dk_dev (nd_disks ?n) = dk_dev demo_disks" by (simp add: demo_node_before_def)
  moreover have "fault_free (nd_disks ?n)"
    using only fs_only_file [OF only, of "''/sbin/sgdisk''"]
    by (simp add: fault_free_def fs_only_def path_exists_def demo_disks_def)
  ultimately show ?thesis using demo_execute_on [of "nd_disks ?n"] by (auto simp: demo_update_def)
qed

theorem failed_update_is_undone_witness:
  "\<exists>w ag w' c' hc' n'. start_agent demo_boot w [] = (Ok ag, w', c') \<and>
     rollback_supervisor demo_table_json demo_rollback_json demo_sgdisk (\<lambda>_. (sick_probe, 1)) [''api'', ''boot'', ''network''] [''a''] [''a''] 9
       (new_health_checker default_health_config) (node_of (ag_service ag)) = (True, hc', n') \<and>
     dk_flags (nd_disks n') 2 \<and> \<not> dk_flags (nd_disks n') 3 \<and> map_option sched_status (nd_table n' ''a'') = Some RolledBack"
proof -
  let ?s = demo_update and ?n = demo_node_before and ?js = demo_table_json
  let ?n1 = "run_due ?js demo_env 0 1 2 ?s ?n"
  let ?w = "demo_reboot (nd_disks ?n1)"
  have env: "?js = se_sched_json (su_service demo_boot)" "demo_env = se_update (su_service demo_boot)"
    by (simp_all add: demo_boot_def demo_service_env_def)
  have ue: "ue_json demo_env = demo_rollback_json" "ue_sgdisk demo_env = demo_sgdisk" by (simp_all add: demo_env_def)
  have libs: "\<forall>st. json_ok (ue_json demo_env) st" "sgdisk_runs (ue_sgdisk demo_env)"
    by (simp_all add: ue demo_rollback_json_ok demo_sgdisk_runs)
  have node: "storage_path (nd_sched ?n) = schedule_file" "healthy_fs (dk_fs (nd_disks ?n))"
    "get_active_partition (nd_disks ?n) = Ok \<lparr>part_device = ''/dev/sda2'', part_index = 2\<rparr>"
    using demo_active by (simp_all add: demo_node_before_def healthy_fs_def demo_disks_def)
  have id: "sched_id ?s = ''a''" "enable_auto_rollback ?s" "is_within_maintenance_window 0 ?s" "\<not> is_active ?s"
    by (simp_all add: demo_update_def demo_schedule_def make_schedule_def is_within_maintenance_window_def seconds_def is_active_def)
  have s: "nd_table ?n (sched_id ?s) = Some ?s" "\<forall>t\<in>ran (nd_table ?n). is_active t \<longrightarrow> started_at t < Some 1"
    using id by (simp_all add: demo_node_before_def)
  have up: "fst (execute_scheduled_update demo_env ?s (nd_disks (nd_update_status ?js 1 (sched_id ?s) Running None ?n))) = Ok ()"
    using demo_update_runs id(1) by simp
  have t1: "nd_table ?n1 = [''a'' \<mapsto> demo_updated]"
    using up id by (auto simp: run_due_def Let_def nd_update_status_table demo_node_before_def demo_updated_def split: prod.splits sum.splits)
  have n1: "json_ok ?js (nd_table ?n1)" "iter_order [''a''] (nd_table ?n1)"
    unfolding t1 by (simp_all add: json_ok_def demo_table_json_def iter_order_def)
  obtain ag w' c' where st: "start_agent demo_boot ?w [] = (Ok ag, w', c')"
    using plain_start [of demo_boot ?w "[]"]
    by (auto simp: demo_boot_def demo_startup_def demo_reboot_def path_exists_def service_account_token_def
        agent_config_path_def can_configure_def agent_tls_def starts_with_def)
  have hc: "sc_health (ag_service ag) = new_health_checker default_health_config"
    using st by (auto simp: start_agent_unfold Let_def split: sum.splits prod.splits)
  obtain exs where sick: "fst (run_all_checks (\<lambda>_. (sick_probe, 1)) [''api'', ''boot'', ''network''] (sc_health (ag_service ag))) = Some (Unhealthy, exs)"
    using sick_run hc by auto
  obtain hc' n' where "rollback_supervisor ?js demo_rollback_json demo_sgdisk (\<lambda>_. (sick_probe, 1)) [''api'', ''boot'', ''network'']
      [''a''] [''a''] 9 (new_health_checker default_health_config) (node_of (ag_service ag)) = (True, hc', n')"
    "dk_flags (nd_disks n') 2" "\<not> dk_flags (nd_disks n') 3" "map_option sched_status (nd_table n' ''a'') = Some RolledBack"
    using failed_update_is_undone [OF env libs demo_hook_benign demo_tmp node s(1) id(2,3) s(2) up refl n1 n1(2) demo_reboot_ok st sick, of 9]
    by (auto simp: ue hc id(1) other_slot_def SLOT_A_INDEX_def SLOT_B_INDEX_def)
  then show ?thesis using st by blast
qed

end
