(* ===== verification/Schedule_Lifecycle.thy ===== *)
theory Schedule_Lifecycle
  imports Agent_Restart
begin

text \<open>
  What becomes of one schedule. The life cycle is an abstract machine of its status and of
  where it is in the hands of the executor; every process of the agent, with all of its tasks
  interleaved (the relation \<open>pstep\<close> of Agent_Restart), refines it.
\<close>

section \<open>The life cycle\<close>

text \<open>A schedule that is polled waits for its turn; then it is installed, and the installation ends well or not.\<close>

datatype hand = Idle | Waiting | Installing | Ended bool




section \<open>A schedule in the agent\<close>

fun job_hand :: "update_pos \<Rightarrow> hand" where
  "job_hand (UpdateEnd (Inl e)) = Ended False"
| "job_hand (UpdateEnd (Inr u)) = Ended True"
| "job_hand p = Installing"




lemma job_hand_not [simp]: "job_hand p \<noteq> Idle" "job_hand p \<noteq> Waiting"
  by (cases p rule: job_hand.cases; simp)+






section \<open>The tasks\<close>




















section \<open>The agent\<close>







section \<open>Property\<close>




end
