(* ===== verification/Osctl.thy ===== *)
theory Osctl
  imports Node_Service
begin

text \<open>
  The command line client (\<open>cmd/osctl/src/main.rs\<close> and \<open>cert_store.rs\<close>): the certificate store
  in the user's home directory, the choice of the identity for a connection, and every
  command, with the request it sends, the lines it prints and the status it exits with.
  Strings are byte sequences, the pictograms of the output in UTF-8. The remote side is a
  record of the calls of the service; \<open>service_api\<close> is that record for the service of the agent.
\<close>

section \<open>Text\<close>

abbreviation lock :: string where
  "lock \<equiv> [CHR 0xF0, CHR 0x9F, CHR 0x94, CHR 0x90]"

abbreviation info_mark :: string where
  "info_mark \<equiv> [CHR 0xE2, CHR 0x84, CHR 0xB9, CHR 0xEF, CHR 0xB8, CHR 0x8F]"

abbreviation bulb :: string where
  "bulb \<equiv> [CHR 0xF0, CHR 0x9F, CHR 0x92, CHR 0xA1]"

abbreviation floppy :: string where
  "floppy \<equiv> [CHR 0xF0, CHR 0x9F, CHR 0x92, CHR 0xBE]"

abbreviation hospital :: string where
  "hospital \<equiv> [CHR 0xF0, CHR 0x9F, CHR 0x8F, CHR 0xA5]"

abbreviation ok_mark :: string where
  "ok_mark \<equiv> [CHR 0xE2, CHR 0x9C, CHR 0x85]"

abbreviation no_mark :: string where
  "no_mark \<equiv> [CHR 0xE2, CHR 0x9D, CHR 0x8C]"

abbreviation warn_mark :: string where
  "warn_mark \<equiv> [CHR 0xE2, CHR 0x9A, CHR 0xA0, CHR 0xEF, CHR 0xB8, CHR 0x8F]"

abbreviation arrows :: string where
  "arrows \<equiv> [CHR 0xF0, CHR 0x9F, CHR 0x94, CHR 0x84]"

abbreviation rocket :: string where
  "rocket \<equiv> [CHR 0xF0, CHR 0x9F, CHR 0x9A, CHR 0x80]"

abbreviation sheet :: string where
  "sheet \<equiv> [CHR 0xF0, CHR 0x9F, CHR 0x93, CHR 0x84]"

abbreviation tick :: string where
  "tick \<equiv> [CHR 0xE2, CHR 0x9C, CHR 0x93]"

abbreviation globe :: string where
  "globe \<equiv> [CHR 0xF0, CHR 0x9F, CHR 0x8C, CHR 0x90]"

abbreviation dish :: string where
  "dish \<equiv> [CHR 0xF0, CHR 0x9F, CHR 0x93, CHR 0xA1]"

abbreviation green :: string where
  "green \<equiv> [CHR 0xF0, CHR 0x9F, CHR 0x9F, CHR 0xA2]"

abbreviation red :: string where
  "red \<equiv> [CHR 0xF0, CHR 0x9F, CHR 0x94, CHR 0xB4]"

abbreviation white :: string where
  "white \<equiv> [CHR 0xE2, CHR 0x9A, CHR 0xAA]"

abbreviation wrench :: string where
  "wrench \<equiv> [CHR 0xF0, CHR 0x9F, CHR 0x94, CHR 0xA7]"

abbreviation parcel :: string where
  "parcel \<equiv> [CHR 0xF0, CHR 0x9F, CHR 0x93, CHR 0xA6]"

abbreviation scroll :: string where
  "scroll \<equiv> [CHR 0xF0, CHR 0x9F, CHR 0x93, CHR 0x9C]"

abbreviation camera :: string where
  "camera \<equiv> [CHR 0xF0, CHR 0x9F, CHR 0x93, CHR 0xB8]"

abbreviation siren :: string where
  "siren \<equiv> [CHR 0xF0, CHR 0x9F, CHR 0x9A, CHR 0xA8]"

abbreviation lens :: string where
  "lens \<equiv> [CHR 0xF0, CHR 0x9F, CHR 0x94, CHR 0x8D]"

datatype out = Stdout string | Stderr string

text \<open>\<open>{:>n}\<close>, \<open>str::to_uppercase\<close> on ASCII, and \<open>{:.2}\<close> of a quotient of a \<open>u64 as f64\<close> by a power of two.\<close>

definition pad_left :: "nat \<Rightarrow> string \<Rightarrow> string" where
  "pad_left n s = replicate (n - length s) CHR '' '' @ s"

definition to_upper_char :: "char \<Rightarrow> char" where
  "to_upper_char c = (if 97 \<le> (of_char c :: nat) \<and> (of_char c :: nat) \<le> 122 then char_of ((of_char c :: nat) - 32) else c)"

definition to_uppercase :: "string \<Rightarrow> string" where
  "to_uppercase = List.map to_upper_char"

definition round_half_even :: "nat \<Rightarrow> nat \<Rightarrow> nat" where
  "round_half_even a b =
     (let q = a div b; r = a mod b in if b < 2 * r \<or> (2 * r = b \<and> odd q) then q + 1 else q)"

fun bit_length :: "nat \<Rightarrow> nat" where
  "bit_length n = (if n = 0 then 0 else Suc (bit_length (n div 2)))"

declare bit_length.simps [simp del]

definition u64_as_f64 :: "u64 \<Rightarrow> nat" where
  "u64_as_f64 x = (let e = bit_length (unat x) - 53 in round_half_even (unat x) (2 ^ e) * 2 ^ e)"

definition fixed2 :: "nat \<Rightarrow> nat \<Rightarrow> string" where
  "fixed2 a b = (let c = round_half_even (100 * a) b in
     show_nat (c div 100) @ ''.'' @ [digit_char (c mod 100 div 10), digit_char (c mod 10)])"

definition mib :: "u64 \<Rightarrow> string" where
  "mib x = fixed2 (u64_as_f64 x) (1024 * 1024)"

definition kib :: "u64 \<Rightarrow> string" where
  "kib x = fixed2 (u64_as_f64 x) 1024"

section \<open>The certificate store\<close>

text \<open>
  The user's machine: its files, the modes set on them, the home directory if it can be
  determined, and the files whose mode cannot be changed.
\<close>

record workstation =
  ws_fs :: fsys
  ws_modes :: "string \<rightharpoonup> nat"
  ws_home :: "string option"
  ws_chmod_err :: "string \<rightharpoonup> string"

definition path_join :: "string \<Rightarrow> string \<Rightarrow> string" where
  "path_join a b =
     (if b \<noteq> [] \<and> hd b = CHR ''/'' then b
      else if a = [] \<or> last a = CHR ''/'' then a @ b else a @ ''/'' @ b)"

record certificate_paths =
  cp_cert :: string
  cp_key :: string
  cp_ca :: "string option"

definition new_cert_store :: "workstation \<Rightarrow> (string + string) \<times> workstation" where
  "new_cert_store ws =
     (case ws_home ws of
        None \<Rightarrow> (Err ''Could not determine home directory'', ws)
      | Some home \<Rightarrow>
          (let base_dir = path_join (path_join home ''.keel'') ''certs'' in
           case create_dir_all base_dir (ws_fs ws) of
             (Inl e, fs) \<Rightarrow> (Err e, ws\<lparr>ws_fs := fs\<rparr>)
           | (Inr _, fs) \<Rightarrow> (Ok base_dir, ws\<lparr>ws_fs := fs\<rparr>)))"

definition cert_dir :: "string \<Rightarrow> string \<Rightarrow> string \<Rightarrow> string" where
  "cert_dir base_dir node_id tier = path_join (path_join base_dir node_id) tier"

text \<open>\<open>fs::write\<close>, and the mode of a file.\<close>

definition ws_write :: "string \<Rightarrow> string \<Rightarrow> workstation \<Rightarrow> (string + unit) \<times> workstation" where
  "ws_write p c ws = (case fs_write p c (ws_fs ws) of (r, fs) \<Rightarrow> (r, ws\<lparr>ws_fs := fs\<rparr>))"

definition set_mode :: "string \<Rightarrow> nat \<Rightarrow> workstation \<Rightarrow> (string + unit) \<times> workstation" where
  "set_mode p m ws =
     (case ws_chmod_err ws p of
        Some e \<Rightarrow> (Err e, ws)
      | None \<Rightarrow> (Ok (), ws\<lparr>ws_modes := (ws_modes ws)(p \<mapsto> m)\<rparr>))"

text \<open>Actions on the machine in sequence, each ended by \<open>?\<close>; \<open>0o600\<close> is 384.\<close>

fun attempt :: "(workstation \<Rightarrow> (string + unit) \<times> workstation) list \<Rightarrow> workstation \<Rightarrow> (string + unit) \<times> workstation" where
  "attempt [] ws = (Ok (), ws)"
| "attempt (a # as) ws = (case a ws of (Inl e, ws1) \<Rightarrow> (Err e, ws1) | (Inr _, ws1) \<Rightarrow> attempt as ws1)"

definition save_certs ::
  "string \<Rightarrow> string \<Rightarrow> string \<Rightarrow> string \<Rightarrow> string \<Rightarrow> string option \<Rightarrow> workstation \<Rightarrow>
   (string + certificate_paths) \<times> workstation" where
  "save_certs base_dir node_id tier cert_pem key_pem ca_pem ws =
     (let dir = cert_dir base_dir node_id tier;
          cert_path = path_join dir ''client.pem'';
          key_path = path_join dir ''client.key'';
          ca = path_join dir ''ca.pem'' in
      case attempt
        ([\<lambda>ws. case create_dir_all dir (ws_fs ws) of (r, fs) \<Rightarrow> (r, ws\<lparr>ws_fs := fs\<rparr>),
          ws_write cert_path cert_pem, ws_write key_path key_pem, set_mode key_path 384] @
         (case ca_pem of Some c \<Rightarrow> [ws_write ca c] | None \<Rightarrow> [])) ws of
        (Inl e, ws1) \<Rightarrow> (Err e, ws1)
      | (Inr _, ws1) \<Rightarrow>
          (Ok \<lparr>cp_cert = cert_path, cp_key = key_path, cp_ca = (case ca_pem of Some c \<Rightarrow> Some ca | None \<Rightarrow> None)\<rparr>, ws1))"

definition load_certs_of :: "string \<Rightarrow> string \<Rightarrow> string \<Rightarrow> fsys \<Rightarrow> string + certificate_paths" where
  "load_certs_of base_dir node_id tier fs =
     (let dir = cert_dir base_dir node_id tier;
          cert_path = path_join dir ''client.pem'';
          key_path = path_join dir ''client.key'';
          ca = path_join dir ''ca.pem'' in
      if \<not> path_exists dir fs then Err (''No certificates found for node '' @ node_id @ '' tier '' @ tier)
      else if \<not> path_exists cert_path fs \<or> \<not> path_exists key_path fs then Err ''Certificate files not found''
      else Ok \<lparr>cp_cert = cert_path, cp_key = key_path, cp_ca = (if path_exists ca fs then Some ca else None)\<rparr>)"

definition find_best_cert :: "string \<Rightarrow> string \<Rightarrow> fsys \<Rightarrow> string + string \<times> certificate_paths" where
  "find_best_cert base_dir node_id fs =
     (case load_certs_of base_dir node_id ''operational'' fs of
        Inr paths \<Rightarrow> Ok (''operational'', paths)
      | Inl _ \<Rightarrow>
          (case load_certs_of base_dir node_id ''bootstrap'' fs of
             Inr paths \<Rightarrow> Ok (''bootstrap'', paths)
           | Inl _ \<Rightarrow> Err (''No certificates found for node '' @ node_id)))"

text \<open>\<open>trim_start_matches\<close> removes a prefix as often as it occurs.\<close>

function trim_start_matches :: "string \<Rightarrow> string \<Rightarrow> string" where
  "trim_start_matches p s =
     (case strip_prefix p s of None \<Rightarrow> s | Some r \<Rightarrow> if p = [] then s else trim_start_matches p r)"
  by auto
termination
  by (relation "measure (\<lambda>(p, s). length s)") (auto simp: strip_prefix_eq_Some)

declare trim_start_matches.simps [simp del]

definition extract_node_from_endpoint :: "string \<Rightarrow> string" where
  "extract_node_from_endpoint endpoint =
     (let url = trim_start_matches ''https://'' (trim_start_matches ''http://'' endpoint);
          host = hd (split_on CHR '':'' url) in
      List.map (\<lambda>c. if c = CHR ''.'' \<or> c = CHR '':'' then CHR ''_'' else c) host)"

section \<open>The remote side\<close>

record 's node_api =
  na_get_status :: "'s \<Rightarrow> (status + status_response) \<times> 's"
  na_reboot :: "string \<Rightarrow> 's \<Rightarrow> (status + bool) \<times> 's"
  na_install_update :: "install_request \<Rightarrow> 's \<Rightarrow> (status + update_progress list \<times> status option) \<times> 's"
  na_get_health :: "'s \<Rightarrow> (status + string \<times> check_info list \<times> string) \<times> 's"
  na_trigger_rollback :: "string \<Rightarrow> 's \<Rightarrow> (status + bool \<times> string) \<times> 's"
  na_get_rollback_history :: "'s \<Rightarrow> (status + rollback_event list) \<times> 's"
  na_bootstrap_kubernetes :: "bootstrap_request \<Rightarrow> 's \<Rightarrow> (status + bool \<times> string \<times> string) \<times> 's"
  na_init_bootstrap :: "string \<Rightarrow> 's \<Rightarrow> (status + bool \<times> string) \<times> 's"
  na_get_bootstrap_status :: "'s \<Rightarrow> (status + bootstrap_status) \<times> 's"
  na_configure_network :: "configure_request \<Rightarrow> 's \<Rightarrow> (status + bool \<times> string \<times> bool) \<times> 's"
  na_get_network_config :: "'s \<Rightarrow> (status + config_response) \<times> 's"
  na_get_network_status :: "'s \<Rightarrow> (status + interface_status list) \<times> 's"
  na_enable_debug_mode :: "u32 \<Rightarrow> string \<Rightarrow> 's \<Rightarrow> (status + bool \<times> string \<times> string \<times> string) \<times> 's"
  na_get_debug_status :: "'s \<Rightarrow> (status + debug_status) \<times> 's"
  na_collect_crash_dump :: "bool \<Rightarrow> bool \<Rightarrow> 's \<Rightarrow> (status + bool \<times> string \<times> string \<times> u64 \<times> string) \<times> 's"
  na_stream_logs :: "string \<Rightarrow> string \<Rightarrow> u32 \<Rightarrow> 's \<Rightarrow> (status + log_entry list \<times> status option) \<times> 's"
  na_create_system_snapshot ::
    "string \<Rightarrow> bool \<Rightarrow> bool \<Rightarrow> 's \<Rightarrow> (status + bool \<times> string \<times> string \<times> string \<times> u64 \<times> string) \<times> 's"
  na_enable_recovery_mode :: "u32 \<Rightarrow> string \<Rightarrow> 's \<Rightarrow> (status + bool \<times> string \<times> string) \<times> 's"
  na_analyze_crash_dump ::
    "string \<Rightarrow> 's \<Rightarrow> (status + bool \<times> string \<times> string \<times> crash_finding list \<times> string) \<times> 's"

text \<open>
  What the client takes from outside: the connection to an endpoint with an identity
  (certificate and key) or without one, the generator of certificates, and the generated
  \<open>Debug\<close> form of a status response.
\<close>

record 's client_env =
  cl_connect :: "string \<Rightarrow> (string \<times> string) option \<Rightarrow> string + 's node_api"
  cl_keygen :: keygen
  cl_debug :: "status_response \<Rightarrow> string"

text \<open>What makes \<open>main\<close> fail with an error.\<close>

datatype cli_error = Rpc status | Other string

definition connect_with_auto_tls ::
  "'s client_env \<Rightarrow> string \<Rightarrow> workstation \<Rightarrow> (cli_error + 's node_api) \<times> out list \<times> workstation" where
  "connect_with_auto_tls C endpoint ws =
     (let node_id = extract_node_from_endpoint endpoint in
      case new_cert_store ws of
        (Inl e, ws1) \<Rightarrow> (Err (Other e), [], ws1)
      | (Inr base_dir, ws1) \<Rightarrow>
          (case find_best_cert base_dir node_id (ws_fs ws1) of
             Inr (tier, paths) \<Rightarrow>
               (map_err Other
                  (and_then (read_to_string (cp_cert paths) (ws_fs ws1)) (\<lambda>cert_pem.
                   and_then (read_to_string (cp_key paths) (ws_fs ws1)) (\<lambda>key_pem.
                     cl_connect C endpoint (Some (cert_pem, key_pem))))),
                [Stderr (lock @ '' Using '' @ tier @ '' certificates for mTLS'')], ws1)
           | Inl _ \<Rightarrow>
               (map_err Other (cl_connect C endpoint None),
                [Stderr (info_mark @ ''  No certificates found, using HTTP''),
                 Stderr (bulb @ '' Run '' @ [CHR 0x27] @ ''osctl init bootstrap --node <ip>'' @ [CHR 0x27] @ '' to enable mTLS'')], ws1)))"

section \<open>Commands\<close>

datatype rollback_action = Trigger string | History

datatype init_mode = InitModeBootstrap string | InitModeKubeconfig

record network_set =
  ns_interface :: string
  ns_dhcp :: bool
  ns_ip :: "string option"
  ns_gateway :: "string option"
  ns_ipv6 :: "string list"
  ns_ipv6_gateway :: "string option"
  ns_ipv6_auto :: bool
  ns_mtu :: "u32 option"
  ns_auto_reboot :: bool

datatype network_action =
    ConfigSet network_set
  | ConfigShow
  | NetworkStatus
  | DnsSet "string list" "string list" bool

datatype diag_action =
    Debug u32 string
  | DebugStatus
  | CrashDump bool bool
  | Logs string string u32
  | Snapshot string bool bool
  | Recovery u32 string
  | AnalyzeDump string

record update_args =
  ua_source :: string
  ua_sha256 :: "string option"
  ua_delta :: bool
  ua_fallback :: bool
  ua_full_image_url :: "string option"

record bootstrap_args =
  ba_api_server :: string
  ba_token :: "string option"
  ba_ca_cert :: "string option"
  ba_kubeconfig :: "string option"
  ba_node_name :: "string option"

datatype command =
    CmdStatus
  | CmdReboot string
  | CmdUpdate update_args
  | CmdHealth
  | CmdRollback rollback_action
  | CmdInit init_mode
  | CmdBootstrap bootstrap_args
  | CmdBootstrapStatus
  | CmdNetwork network_action
  | CmdDiag diag_action

text \<open>\<open>main\<close> returns, fails with an error, or ends the process with a code.\<close>

datatype cli_exit = Finished | Failed cli_error | ExitProcess nat

type_synonym 's cli_run = "cli_exit \<times> out list \<times> workstation \<times> 's"

text \<open>Lines printed, a call ended by \<open>?\<close>, and what is done with its answer.\<close>

definition rpc ::
  "out list \<Rightarrow> ('s \<Rightarrow> (status + 'a) \<times> 's) \<Rightarrow> ('a \<Rightarrow> cli_exit \<times> out list) \<Rightarrow> workstation \<Rightarrow> 's \<Rightarrow> 's cli_run" where
  "rpc before call report ws s =
     (case call s of
        (Inl e, s1) \<Rightarrow> (Failed (Rpc e), before, ws, s1)
      | (Inr a, s1) \<Rightarrow> (case report a of (x, shown) \<Rightarrow> (x, before @ shown, ws, s1)))"

definition fail_exit :: "string \<Rightarrow> cli_exit \<times> out list" where
  "fail_exit msg = (ExitProcess 1, [Stderr msg])"

definition report_if :: "bool \<Rightarrow> string \<Rightarrow> string list \<Rightarrow> cli_exit \<times> out list" where
  "report_if success message details =
     (if success then (Finished, Stdout (ok_mark @ '' '' @ message) # List.map Stdout details)
      else fail_exit (no_mark @ '' '' @ message))"

section \<open>Updates, health and rollback\<close>

definition install_request_of :: "update_args \<Rightarrow> install_request" where
  "install_request_of a =
     \<lparr>iu_source_url = ua_source a, iu_expected_sha256 = unwrap_or [] (ua_sha256 a), iu_is_delta = ua_delta a,
      iu_fallback_to_full = ua_fallback a, iu_full_image_url = unwrap_or [] (ua_full_image_url a)\<rparr>"

definition progress_lines :: "update_progress \<Rightarrow> out list" where
  "progress_lines p =
     [Stdout (''['' @ pad_left 3 (show_word (up_percentage p)) @ ''%]'' @
        (if up_phase p \<noteq> [] then '' ['' @ up_phase p @ '']'' else []) @ '' '' @ up_message p)] @
     (if up_success p then
        Stdout ''Update complete!'' #
        (if 0 < up_bytes_saved p then [Stdout (floppy @ '' Bandwidth saved: '' @ mib (up_bytes_saved p) @ '' MB'')] else [])
      else [])"

definition report_update :: "update_progress list \<times> status option \<Rightarrow> cli_exit \<times> out list" where
  "report_update r =
     (case r of (msgs, err) \<Rightarrow>
        ((case err of None \<Rightarrow> Finished | Some e \<Rightarrow> Failed (Rpc e)), concat (List.map progress_lines msgs)))"

definition check_line :: "check_info \<Rightarrow> out" where
  "check_line c =
     Stdout (''  '' @ (if ci_status c = ''pass'' then ok_mark else if ci_status c = ''fail'' then no_mark else warn_mark) @
       '' '' @ ci_name c @ '' - '' @ ci_message c @ '' ('' @ show_word (ci_duration_ms c) @ ''ms)'')"

definition report_health :: "string \<times> check_info list \<times> string \<Rightarrow> cli_exit \<times> out list" where
  "report_health r =
     (case r of (status, checks, last_update) \<Rightarrow>
        (Finished,
         [Stdout (nl @ hospital @ '' System Health: '' @ to_uppercase status), Stdout (''Last Updated: '' @ last_update @ nl)] @
         (if checks \<noteq> [] then Stdout ''Health Checks:'' # List.map check_line checks else [])))"

definition report_rollback :: "bool \<times> string \<Rightarrow> cli_exit \<times> out list" where
  "report_rollback r =
     (case r of (success, message) \<Rightarrow> (Finished, [Stdout ((if success then ok_mark else no_mark) @ '' '' @ message)]))"

definition report_history :: "rollback_event list \<Rightarrow> cli_exit \<times> out list" where
  "report_history events =
     (Finished,
      if events = [] then [Stdout ''No rollback events found.'']
      else Stdout (nl @ arrows @ '' Rollback History ('' @ show_nat (length events) @ '' events):'' @ nl) #
        concat (List.map (\<lambda>e. [Stdout (''  Timestamp: '' @ re_timestamp e), Stdout (''  Reason: '' @ re_reason e),
          Stdout (''  Type: '' @ (if re_automatic e then ''Automatic'' else ''Manual'')), Stdout []]) events))"

section \<open>Cluster membership\<close>

definition file_or_empty :: "string option \<Rightarrow> fsys \<Rightarrow> string + string" where
  "file_or_empty path fs = (case path of Some p \<Rightarrow> read_to_string p fs | None \<Rightarrow> Ok [])"

definition report_bootstrap :: "bool \<times> string \<times> string \<Rightarrow> cli_exit \<times> out list" where
  "report_bootstrap r =
     (case r of (success, message, kubeconfig_path) \<Rightarrow>
        if success then
          (Finished, [Stdout (nl @ ok_mark @ '' '' @ message), Stdout (sheet @ '' Kubeconfig: '' @ kubeconfig_path),
             Stdout (nl @ bulb @ '' Node will join the cluster shortly. Check with:'' @ nl @ ''   kubectl get nodes'')])
        else fail_exit (nl @ no_mark @ '' Bootstrap failed: '' @ message))"

definition run_bootstrap :: "'s node_api \<Rightarrow> bootstrap_args \<Rightarrow> workstation \<Rightarrow> 's \<Rightarrow> 's cli_run" where
  "run_bootstrap api a ws s =
     (if ba_token a = None \<and> ba_kubeconfig a = None then
        (ExitProcess 1, [Stderr ''Error: Either --token or --kubeconfig must be provided''], ws, s)
      else if ba_token a \<noteq> None \<and> ba_ca_cert a = None then
        (ExitProcess 1, [Stderr ''Error: --ca-cert is required when using --token''], ws, s)
      else case and_then (file_or_empty (ba_ca_cert a) (ws_fs ws)) (\<lambda>ca_cert_pem.
                and_then (file_or_empty (ba_kubeconfig a) (ws_fs ws)) (\<lambda>kubeconfig_bytes.
                  Ok \<lparr>br_api_server_endpoint = ba_api_server a, br_bootstrap_token = unwrap_or [] (ba_token a),
                      br_ca_cert_pem = ca_cert_pem, br_kubeconfig = kubeconfig_bytes,
                      br_node_name = unwrap_or [] (ba_node_name a)\<rparr>)) of
             Inl e \<Rightarrow> (Failed (Other e), [], ws, s)
           | Inr request \<Rightarrow>
               rpc [Stdout (rocket @ '' Bootstrapping Kubernetes cluster connection...'')]
                 (na_bootstrap_kubernetes api request) report_bootstrap ws s)"

definition report_bootstrap_status :: "bootstrap_status \<Rightarrow> cli_exit \<times> out list" where
  "report_bootstrap_status st =
     (Finished,
      if st_is_bootstrapped st then
        [Stdout (nl @ ok_mark @ '' Node is bootstrapped to Kubernetes cluster'' @ nl),
         Stdout (''API Server: '' @ st_api_server_endpoint st), Stdout (''Node Name: '' @ st_node_name st),
         Stdout (''Kubeconfig: '' @ st_kubeconfig_path st), Stdout (''Bootstrapped At: '' @ st_bootstrapped_at st)]
      else
        [Stdout (nl @ warn_mark @ ''  Node is not bootstrapped to any Kubernetes cluster''),
         Stdout (nl @ ''To join a cluster, run:'' @ nl @
           ''   osctl bootstrap --api-server <url> --token <token> --ca-cert <path>'')])"

text \<open>\<open>osctl init bootstrap\<close>: the certificate is generated here, sent to the node over plain HTTP and stored with its key.\<close>

definition save_bootstrap_pair ::
  "string \<Rightarrow> string \<times> string \<Rightarrow> out list \<Rightarrow> workstation \<Rightarrow> cli_exit \<times> out list \<times> workstation" where
  "save_bootstrap_pair endpoint pair before ws =
     (case new_cert_store ws of
        (Inl e, ws1) \<Rightarrow> (Failed (Other e), before, ws1)
      | (Inr base_dir, ws1) \<Rightarrow>
          (case save_certs base_dir (extract_node_from_endpoint endpoint) ''bootstrap'' (fst pair) (snd pair) None ws1 of
             (Inl e, ws2) \<Rightarrow> (Failed (Other e), before, ws2)
           | (Inr paths, ws2) \<Rightarrow>
               (Finished, before @
                  [Stdout (tick @ '' Saved certificates locally:''), Stdout (''  Cert: '' @ cp_cert paths),
                   Stdout (''  Key:  '' @ cp_key paths @ '' (PRIVATE - never sent to server)''),
                   Stdout (nl @ ok_mark @ '' Bootstrap initialization complete!'')], ws2)))"

definition run_init_bootstrap :: "'s client_env \<Rightarrow> string \<Rightarrow> workstation \<Rightarrow> 's \<Rightarrow> 's cli_run" where
  "run_init_bootstrap C node ws s =
     (let p0 = [Stdout ''Generating 24h bootstrap certificate...''] in
      case generate_bootstrap_certificate (cl_keygen C) 24 of
        Inl e \<Rightarrow> (Failed (Other (crypto_error_str e)), p0, ws, s)
      | Inr pair \<Rightarrow>
          (let p1 = p0 @ [Stdout (tick @ '' Generated bootstrap certificate'')];
               endpoint = ''http://'' @ node @ '':50051'' in
           case cl_connect C endpoint None of
             Inl e \<Rightarrow> (Failed (Other e), p1, ws, s)
           | Inr api \<Rightarrow>
               (case na_init_bootstrap api (fst pair) s of
                  (Inl e, s1) \<Rightarrow> (Failed (Rpc e), p1, ws, s1)
                | (Inr (success, message), s1) \<Rightarrow>
                    if \<not> success then (Failed (Other (''Failed: '' @ message)), p1, ws, s1)
                    else case save_bootstrap_pair endpoint pair
                                (p1 @ [Stdout (tick @ '' Server accepted bootstrap certificate'')]) ws of
                           (x, shown, ws1) \<Rightarrow> (x, shown, ws1, s1))))"

section \<open>Network\<close>

text \<open>The interface configuration of the command line; \<open>None\<close> when no kind was given.\<close>

definition interface_of_args :: "network_set \<Rightarrow> config_msg option" where
  "interface_of_args a =
     (if ns_dhcp a then Some (CDhcp True)
      else if ns_ip a \<noteq> None \<or> ns_ipv6 a \<noteq> [] \<or> ns_ipv6_auto a then
        Some (CStatic \<lparr>m_ipv4_address = unwrap_or [] (ns_ip a), m_gateway = unwrap_or [] (ns_gateway a),
          m_mtu = unwrap_or 1500 (ns_mtu a), m_ipv6_addresses = ns_ipv6 a,
          m_ipv6_gateway = unwrap_or [] (ns_ipv6_gateway a), m_ipv6_auto = ns_ipv6_auto a\<rparr>)
      else None)"

definition report_configure :: "bool \<Rightarrow> bool \<times> string \<times> bool \<Rightarrow> cli_exit \<times> out list" where
  "report_configure auto_reboot r =
     (case r of (success, message, reboot_required) \<Rightarrow>
        if success then
          (Finished, Stdout (ok_mark @ '' '' @ message) #
             (if reboot_required \<and> \<not> auto_reboot then
                [Stdout (nl @ warn_mark @ ''  Reboot required for changes to take effect''), Stdout ''   Run: osctl reboot'']
              else []))
        else fail_exit (no_mark @ '' Configuration failed: '' @ message))"

definition run_config_set :: "'s node_api \<Rightarrow> network_set \<Rightarrow> workstation \<Rightarrow> 's \<Rightarrow> 's cli_run" where
  "run_config_set api a ws s =
     (case interface_of_args a of
        None \<Rightarrow> (ExitProcess 1, [Stderr ''Error: Either --dhcp, --ip, --ipv6, or --ipv6-auto must be specified''], ws, s)
      | Some cfg \<Rightarrow>
          rpc [Stdout (globe @ '' Configuring network interface '' @ [CHR 0x27] @ ns_interface a @ [CHR 0x27] @ ''...'')]
            (na_configure_network api
               \<lparr>rq_interfaces = [\<lparr>m_name = ns_interface a, m_config = Some cfg\<rparr>], rq_dns = None, rq_routes = [],
                rq_auto_reboot = ns_auto_reboot a\<rparr>)
            (report_configure (ns_auto_reboot a)) ws s)"

definition dns_request :: "string list \<Rightarrow> string list \<Rightarrow> bool \<Rightarrow> configure_request" where
  "dns_request nameserver search auto_reboot =
     \<lparr>rq_interfaces = [], rq_dns = Some \<lparr>nameservers = nameserver, search_domains = search\<rparr>, rq_routes = [],
      rq_auto_reboot = auto_reboot\<rparr>"

definition static_lines :: "static_msg \<Rightarrow> out list" where
  "static_lines st =
     [Stdout ''  Type: Static''] @
     (if m_ipv4_address st \<noteq> [] then
        Stdout (''  IPv4: '' @ m_ipv4_address st) #
        (if m_gateway st \<noteq> [] then [Stdout (''  IPv4 Gateway: '' @ m_gateway st)] else [])
      else []) @
     (if m_ipv6_addresses st \<noteq> [] then
        Stdout (''  IPv6: '' @ join '', '' (m_ipv6_addresses st)) #
        (if m_ipv6_gateway st \<noteq> [] then [Stdout (''  IPv6 Gateway: '' @ m_ipv6_gateway st)] else [])
      else []) @
     [Stdout (''  MTU: '' @ show_word (m_mtu st))]"

fun config_lines :: "config_msg \<Rightarrow> out list" where
  "config_lines (CDhcp _) = [Stdout ''  Type: DHCP'']"
| "config_lines (CStatic st) = static_lines st"
| "config_lines (CVlan v) =
     [Stdout ''  Type: VLAN'', Stdout (''  Parent: '' @ m_parent v), Stdout (''  VLAN ID: '' @ show_word (m_vlan_id v))]"
| "config_lines (CBond b) =
     [Stdout ''  Type: Bond'', Stdout (''  Mode: '' @ m_mode b), Stdout (''  Slaves: '' @ join '', '' (m_slaves b))]"

definition interface_lines :: "interface_msg \<Rightarrow> out list" where
  "interface_lines i =
     [Stdout (''Interface: '' @ m_name i)] @ (case m_config i of Some cfg \<Rightarrow> config_lines cfg | None \<Rightarrow> []) @ [Stdout []]"

definition dns_lines :: "dns_config \<Rightarrow> out list" where
  "dns_lines d =
     [Stdout ''DNS Configuration:'', Stdout (''  Nameservers: '' @ join '', '' (nameservers d))] @
     (if search_domains d \<noteq> [] then [Stdout (''  Search domains: '' @ join '', '' (search_domains d))] else []) @ [Stdout []]"

definition route_line :: "route_msg \<Rightarrow> out" where
  "route_line r =
     Stdout (''  '' @ m_destination r @ '' via '' @ m_route_gateway r @
       (if 0 < m_metric r then '' (metric: '' @ show_word (m_metric r) @ '')'' else []))"

definition report_config :: "config_response \<Rightarrow> cli_exit \<times> out list" where
  "report_config c =
     (Finished,
      if rp_interfaces c = [] \<and> rp_dns c = None \<and> rp_routes c = [] then
        [Stdout ''No network configuration found (using DHCP fallback)'']
      else
        [Stdout (nl @ dish @ '' Network Configuration:'' @ nl)] @ concat (List.map interface_lines (rp_interfaces c)) @
        (case rp_dns c of Some d \<Rightarrow> dns_lines d | None \<Rightarrow> []) @
        (if rp_routes c \<noteq> [] then Stdout ''Custom Routes:'' # List.map route_line (rp_routes c) else []))"

definition traffic_line :: "string \<Rightarrow> u64 \<Rightarrow> u64 \<Rightarrow> u64 \<Rightarrow> out" where
  "traffic_line label bytes packets errors =
     Stdout (''  '' @ label @ '': '' @ mib bytes @ '' MB ('' @ show_word packets @ '' packets, '' @ show_word errors @ '' errors)'')"

definition status_lines :: "interface_status \<Rightarrow> out list" where
  "status_lines i =
     [Stdout ((if is_state i = ''up'' then green else if is_state i = ''down'' then red else white) @ '' '' @ is_name i @
        '' ('' @ is_state i @ '')''),
      Stdout (''  MAC: '' @ is_mac_address i), Stdout (''  MTU: '' @ show_word (is_mtu i))] @
     (if is_ipv4_addresses i \<noteq> [] then [Stdout (''  IPv4: '' @ join '', '' (is_ipv4_addresses i))] else []) @
     (if is_ipv6_addresses i \<noteq> [] then [Stdout (''  IPv6: '' @ join '', '' (is_ipv6_addresses i))] else []) @
     (case is_statistics i of
        Some st \<Rightarrow> [traffic_line ''RX'' (rx_bytes st) (rx_packets st) (rx_errors st),
                    traffic_line ''TX'' (tx_bytes st) (tx_packets st) (tx_errors st)]
      | None \<Rightarrow> []) @
     [Stdout []]"

definition report_network_status :: "interface_status list \<Rightarrow> cli_exit \<times> out list" where
  "report_network_status is =
     (Finished,
      if is = [] then [Stdout ''No network interfaces found'']
      else Stdout (nl @ globe @ '' Network Status:'' @ nl) # concat (List.map status_lines is))"

fun run_network :: "'s node_api \<Rightarrow> network_action \<Rightarrow> workstation \<Rightarrow> 's \<Rightarrow> 's cli_run" where
  "run_network api (ConfigSet a) = run_config_set api a"
| "run_network api ConfigShow = rpc [] (na_get_network_config api) report_config"
| "run_network api NetworkStatus = rpc [] (na_get_network_status api) report_network_status"
| "run_network api (DnsSet nameserver search auto_reboot) =
     rpc [Stdout (globe @ '' Configuring DNS...'')] (na_configure_network api (dns_request nameserver search auto_reboot))
       (report_configure auto_reboot)"

section \<open>Diagnostics\<close>

definition report_debug_status :: "debug_status \<Rightarrow> cli_exit \<times> out list" where
  "report_debug_status st =
     (Finished,
      if dr_enabled st then
        [Stdout (nl @ wrench @ '' Debug Mode: ACTIVE''), Stdout (''  Session ID: '' @ dr_session_id st),
         Stdout (''  Reason: '' @ dr_reason st), Stdout (''  Expires at: '' @ dr_expires_at st),
         Stdout (''  Remaining: '' @ show_word (dr_remaining_secs st) @ ''s'')]
      else [Stdout (nl @ wrench @ '' Debug Mode: INACTIVE'')])"

definition log_line :: "log_entry \<Rightarrow> out" where
  "log_line e = Stdout (''['' @ le_timestamp e @ ''] '' @ le_level e @ '' ['' @ le_component e @ ''] '' @ le_message e)"

definition finding_line :: "crash_finding \<Rightarrow> string" where
  "finding_line f = ''    ['' @ cf_severity f @ ''/'' @ finding_type f @ ''] '' @ cf_message f"

fun run_diag :: "'s node_api \<Rightarrow> diag_action \<Rightarrow> workstation \<Rightarrow> 's \<Rightarrow> 's cli_run" where
  "run_diag api (Debug duration reason) =
     rpc [Stdout (wrench @ '' Enabling debug mode...'')] (na_enable_debug_mode api duration reason)
       (\<lambda>(success, message, session_id, expires_at).
          report_if success message [''  Session ID: '' @ session_id, ''  Expires at: '' @ expires_at])"
| "run_diag api DebugStatus = rpc [] (na_get_debug_status api) report_debug_status"
| "run_diag api (CrashDump inc_kernel inc_userspace) =
     rpc [Stdout (parcel @ '' Collecting crash dump...'')] (na_collect_crash_dump api inc_kernel inc_userspace)
       (\<lambda>(success, message, dump_path, dump_size, created_at).
          report_if success message
            [''  Path: '' @ dump_path, ''  Size: '' @ kib dump_size @ '' KB'', ''  Created: '' @ created_at])"
| "run_diag api (Logs level component tail) =
     rpc [Stdout (scroll @ '' Streaming logs...'' @ nl)] (na_stream_logs api level component tail)
       (\<lambda>(entries, err). ((case err of None \<Rightarrow> Finished | Some e \<Rightarrow> Failed (Rpc e)), List.map log_line entries))"
| "run_diag api (Snapshot label config logs) =
     rpc [Stdout (camera @ '' Creating system snapshot...'')] (na_create_system_snapshot api label config logs)
       (\<lambda>(success, message, snapshot_id, snapshot_path, nbytes, created_at).
          report_if success message
            [''  Snapshot ID: '' @ snapshot_id, ''  Path: '' @ snapshot_path, ''  Size: '' @ kib nbytes @ '' KB'',
             ''  Created: '' @ created_at])"
| "run_diag api (Recovery duration reason) =
     rpc [Stdout (siren @ '' Enabling recovery mode...'')] (na_enable_recovery_mode api duration reason)
       (\<lambda>(success, message, expires_at). report_if success message [''  Expires at: '' @ expires_at])"
| "run_diag api (AnalyzeDump path) =
     rpc [Stdout (lens @ '' Analyzing crash dump...'')] (na_analyze_crash_dump api path)
       (\<lambda>(success, message, severity, findings, summary).
          report_if success message
            ([''  Severity: '' @ severity, ''  Summary: '' @ summary] @
             (if findings \<noteq> [] then (nl @ ''  Findings:'') # List.map finding_line findings else [])))"

section \<open>main\<close>

fun run_command :: "'s client_env \<Rightarrow> 's node_api \<Rightarrow> command \<Rightarrow> workstation \<Rightarrow> 's \<Rightarrow> 's cli_run" where
  "run_command C api CmdStatus =
     rpc [] (na_get_status api) (\<lambda>r. (Finished, [Stdout (''RESPONSE='' @ cl_debug C r)]))"
| "run_command C api (CmdReboot reason) =
     rpc [] (na_reboot api reason)
       (\<lambda>scheduled. (Finished, [Stdout (''Reboot Scheduled: '' @ (if scheduled then ''true'' else ''false''))]))"
| "run_command C api (CmdUpdate a) = rpc [] (na_install_update api (install_request_of a)) report_update"
| "run_command C api CmdHealth = rpc [] (na_get_health api) report_health"
| "run_command C api (CmdRollback (Trigger reason)) = rpc [] (na_trigger_rollback api reason) report_rollback"
| "run_command C api (CmdRollback History) = rpc [] (na_get_rollback_history api) report_history"
| "run_command C api (CmdBootstrap a) = run_bootstrap api a"
| "run_command C api (CmdInit (InitModeBootstrap node)) = run_init_bootstrap C node"
| "run_command C api (CmdInit InitModeKubeconfig) =
     (\<lambda>ws s. (Finished, [Stdout ''K8s operational cert initialization - TODO''], ws, s))"
| "run_command C api CmdBootstrapStatus = rpc [] (na_get_bootstrap_status api) report_bootstrap_status"
| "run_command C api (CmdNetwork action) = run_network api action"
| "run_command C api (CmdDiag action) = run_diag api action"

definition osctl_main :: "'s client_env \<Rightarrow> string \<Rightarrow> command \<Rightarrow> workstation \<Rightarrow> 's \<Rightarrow> 's cli_run" where
  "osctl_main C endpoint cmd ws s =
     (case connect_with_auto_tls C endpoint ws of
        (Inl e, shown, ws1) \<Rightarrow> (Failed e, shown, ws1, s)
      | (Inr api, shown, ws1) \<Rightarrow>
          (case run_command C api cmd ws1 s of (x, shown2, ws2, s1) \<Rightarrow> (x, shown @ shown2, ws2, s1)))"

text \<open>
  The service of the agent as the remote side of a client that shows \<open>certs\<close>. A client reads
  the stream of an update to its end, which is the sixth time it asks. \<open>broken\<close> is the status
  the client sees when a handler panics.
\<close>

definition no_panic :: "status \<Rightarrow> (status + 'a option) \<times> 's \<Rightarrow> (status + 'a) \<times> 's" where
  "no_panic broken r =
     (case r of (Inl e, s) \<Rightarrow> (Err e, s) | (Inr None, s) \<Rightarrow> (Err broken, s) | (Inr (Some a), s) \<Rightarrow> (Ok a, s))"

definition map_answer :: "('a \<Rightarrow> 'b) \<Rightarrow> (status + 'a) \<times> 's \<Rightarrow> (status + 'b) \<times> 's" where
  "map_answer f r = (case r of (Inl e, s) \<Rightarrow> (Err e, s) | (Inr a, s) \<Rightarrow> (Ok (f a), s))"

definition service_api :: "('c, 'der, 'key) service_env \<Rightarrow> status \<Rightarrow> 'der list option \<Rightarrow> 'c service node_api" where
  "service_api E broken certs =
     \<lparr>na_get_status = get_status E certs, na_reboot = reboot E certs,
      na_install_update = (\<lambda>req. install_update E certs req 6),
      na_get_health = (\<lambda>s. no_panic broken (get_health E certs s)),
      na_trigger_rollback = trigger_rollback_rpc E certs, na_get_rollback_history = get_rollback_history E certs,
      na_bootstrap_kubernetes = (\<lambda>req s. map_answer (Pair True) (bootstrap_kubernetes_rpc E certs req s)),
      na_init_bootstrap = init_bootstrap E, na_get_bootstrap_status = get_bootstrap_status_rpc E certs,
      na_configure_network = (\<lambda>req s. map_answer (\<lambda>(m, _). (True, m, True)) (configure_network_rpc E certs req s)),
      na_get_network_config = get_network_config_rpc E certs,
      na_get_network_status = (\<lambda>s. no_panic broken (get_network_status_rpc E certs s)),
      na_enable_debug_mode = enable_debug_mode_rpc E certs, na_get_debug_status = get_debug_status_rpc E certs,
      na_collect_crash_dump = collect_crash_dump_rpc E certs,
      na_stream_logs = (\<lambda>l c n s. map_answer (\<lambda>es. (es, None)) (stream_logs E certs l c n s)),
      na_create_system_snapshot = create_system_snapshot_rpc E certs,
      na_enable_recovery_mode = enable_recovery_mode_rpc E certs, na_analyze_crash_dump = analyze_crash_dump_rpc E certs\<rparr>"

section \<open>Lemmas\<close>

lemma trim_start_stop: "strip_prefix p s = None \<Longrightarrow> trim_start_matches p s = s"
  by (simp add: trim_start_matches.simps)

lemma trim_start_once: "p \<noteq> [] \<Longrightarrow> trim_start_matches p (p @ s) = trim_start_matches p s"
  by (subst trim_start_matches.simps) (simp add: strip_prefix_eq_Some [THEN iffD2])

text \<open>A host without a colon, followed by a port, is no URL with a scheme.\<close>

lemma host_no_scheme:
  assumes "CHR '':'' \<notin> set node" "list_all is_digit port"
  shows "strip_prefix (sch @ ''://'') (node @ '':'' @ port) = None"
proof (rule ccontr)
  assume "strip_prefix (sch @ ''://'') (node @ '':'' @ port) \<noteq> None"
  then obtain r where r: "node @ '':'' @ port = sch @ ''://'' @ r" by (auto simp: strip_prefix_eq_Some)
  have "CHR ''/'' \<notin> set port" using assms(2) by (auto simp: list_all_iff is_digit_def)
  have "node @ CHR '':'' # port = sch @ CHR '':'' # (''//'' @ r)" using r by simp
  then show False
    using assms(1) \<open>CHR ''/'' \<notin> set port\<close>
  proof (induction node arbitrary: sch)
    case Nil
    then show ?case by (cases sch) (auto simp: is_digit_def)
  next
    case (Cons c node)
    then show ?case by (cases sch) auto
  qed
qed

definition dotless :: "string \<Rightarrow> string" where
  "dotless = List.map (\<lambda>c. if c = CHR ''.'' \<or> c = CHR '':'' then CHR ''_'' else c)"

lemma split_on_host: "CHR '':'' \<notin> set node \<Longrightarrow> hd (split_on CHR '':'' (node @ CHR '':'' # port)) = node"
  by (induction node) (auto split: list.splits simp: neq_Nil_conv)

lemma extract_node:
  assumes "CHR '':'' \<notin> set node" "list_all is_digit port" "scheme = ''http://'' \<or> scheme = ''https://''"
  shows "extract_node_from_endpoint (scheme @ node @ '':'' @ port) = dotless node"
proof -
  have no: "strip_prefix ''http://'' (node @ '':'' @ port) = None" "strip_prefix ''https://'' (node @ '':'' @ port) = None"
    using host_no_scheme [OF assms(1,2), of "''http''"] host_no_scheme [OF assms(1,2), of "''https''"] by simp_all
  have "trim_start_matches ''https://'' (trim_start_matches ''http://'' (scheme @ node @ '':'' @ port)) = node @ '':'' @ port"
    using assms(3)
  proof
    assume "scheme = ''http://''"
    then show ?thesis
      using trim_start_once [of "''http://''" "node @ '':'' @ port"] trim_start_stop [OF no(1)] trim_start_stop [OF no(2)] by simp
  next
    assume s: "scheme = ''https://''"
    then have "strip_prefix ''http://'' (scheme @ node @ '':'' @ port) = None" by simp
    then show ?thesis
      using trim_start_once [of "''https://''" "node @ '':'' @ port"] trim_start_stop [OF no(2)] trim_start_stop s by simp
  qed
  then show ?thesis
    using split_on_host [OF assms(1), of port] by (simp add: extract_node_from_endpoint_def dotless_def)
qed

lemma path_join_apart:
  "path_join d ''client.pem'' \<noteq> path_join d ''client.key''"
  by (simp add: path_join_def)

lemma save_certs_stored:
  assumes "save_certs base_dir node_id tier cert_pem key_pem None ws = (Ok paths, ws')" "tier \<noteq> []"
  shows "let dir = cert_dir base_dir node_id tier in
    paths = \<lparr>cp_cert = path_join dir ''client.pem'', cp_key = path_join dir ''client.key'', cp_ca = None\<rparr> \<and>
    dir \<in> fs_dirs (ws_fs ws') \<and> fs_files (ws_fs ws') (cp_cert paths) = Some cert_pem \<and>
    fs_files (ws_fs ws') (cp_key paths) = Some key_pem \<and> ws_modes ws' (cp_key paths) = Some 384 \<and>
    ws_home ws' = ws_home ws \<and> fs_read_err (ws_fs ws') = fs_read_err (ws_fs ws) \<and>
    fs_mkdir_err (ws_fs ws') = fs_mkdir_err (ws_fs ws)"
proof -
  let ?dir = "cert_dir base_dir node_id tier"
  have "?dir \<noteq> []" using assms(2) by (simp add: cert_dir_def path_join_def)
  then have "?dir \<in> set (path_prefixes ?dir)" by (rule prefix_self)
  then show ?thesis
    using assms(1) path_join_apart [of ?dir]
    by (auto simp: save_certs_def Let_def ws_write_def set_mode_def create_dir_all_def fs_write_ok
        split: sum.splits prod.splits option.splits)
qed

lemma new_cert_store_again:
  assumes "new_cert_store ws = (Ok base_dir, ws1)" "ws_home ws2 = ws_home ws1"
    "fs_mkdir_err (ws_fs ws2) = fs_mkdir_err (ws_fs ws1)"
  shows "\<exists>ws3. new_cert_store ws2 = (Ok base_dir, ws3) \<and> fs_files (ws_fs ws3) = fs_files (ws_fs ws2) \<and>
    fs_dirs (ws_fs ws2) \<subseteq> fs_dirs (ws_fs ws3) \<and> fs_read_err (ws_fs ws3) = fs_read_err (ws_fs ws2)"
  using assms by (auto simp: new_cert_store_def create_dir_all_def Let_def split: option.splits prod.splits sum.splits)

lemma find_saved_cert:
  assumes "cert_dir base_dir node_id ''bootstrap'' \<in> fs_dirs fs"
    "fs_files fs (path_join (cert_dir base_dir node_id ''bootstrap'') ''client.pem'') = Some cert_pem"
    "fs_files fs (path_join (cert_dir base_dir node_id ''bootstrap'') ''client.key'') = Some key_pem"
    "load_certs_of base_dir node_id ''operational'' fs = Err e"
  shows "\<exists>ca. find_best_cert base_dir node_id fs = Ok (''bootstrap'',
    \<lparr>cp_cert = path_join (cert_dir base_dir node_id ''bootstrap'') ''client.pem'',
     cp_key = path_join (cert_dir base_dir node_id ''bootstrap'') ''client.key'', cp_ca = ca\<rparr>)"
  using assms by (simp add: find_best_cert_def load_certs_of_def Let_def path_exists_def)

lemma run_init_bootstrap_Finished:
  assumes "run_init_bootstrap C node ws s = (Finished, shown, ws', s')"
  obtains cert_pem key_pem base_dir ws1 paths where
    "cl_keygen C [''keel-bootstrap''] = Ok (cert_pem, key_pem)" "new_cert_store ws = (Ok base_dir, ws1)"
    "save_certs base_dir (extract_node_from_endpoint (''http://'' @ node @ '':50051'')) ''bootstrap'' cert_pem key_pem None ws1 = (Ok paths, ws')"
  using assms
  by (auto simp: run_init_bootstrap_def save_bootstrap_pair_def generate_bootstrap_certificate_def Let_def map_err_eq_Ok
      split: sum.splits prod.splits if_splits)

text \<open>
  The identity made by \<open>osctl init bootstrap\<close> is the one a later connection to the node is set up
  with, on any port and with either scheme, unless an operational pair is stored; its key
  was given mode 0600. The node is named without a colon (a host name or an IPv4 address).
\<close>

lemma init_then_connect:
  assumes run: "run_init_bootstrap C node ws s = (Finished, shown, ws', s')"
    and node: "CHR '':'' \<notin> set node" "list_all is_digit port" "scheme = ''http://'' \<or> scheme = ''https://''"
    and endpoint: "endpoint = scheme @ node @ '':'' @ port"
    and none: "\<And>base_dir ws3. new_cert_store ws' = (Ok base_dir, ws3) \<Longrightarrow>
      \<exists>e. load_certs_of base_dir (dotless node) ''operational'' (ws_fs ws3) = Err e"
    and reads: "fs_read_err (ws_fs ws) = Map.empty"
  shows "\<exists>cert_pem key_pem key_path ws3.
    cl_keygen C [''keel-bootstrap''] = Ok (cert_pem, key_pem) \<and>
    connect_with_auto_tls C endpoint ws' =
      (map_err Other (cl_connect C endpoint (Some (cert_pem, key_pem))),
       [Stderr (lock @ '' Using bootstrap certificates for mTLS'')], ws3) \<and>
    fs_files (ws_fs ws') key_path = Some key_pem \<and> ws_modes ws' key_path = Some 384"
proof -
  from run obtain cert_pem key_pem base_dir ws1 paths where
    k: "cl_keygen C [''keel-bootstrap''] = Ok (cert_pem, key_pem)" and st: "new_cert_store ws = (Ok base_dir, ws1)"
    and sv: "save_certs base_dir (extract_node_from_endpoint (''http://'' @ node @ '':50051'')) ''bootstrap'' cert_pem key_pem None ws1 = (Ok paths, ws')"
    by (rule run_init_bootstrap_Finished)
  have id: "extract_node_from_endpoint (''http://'' @ node @ '':50051'') = dotless node" "extract_node_from_endpoint endpoint = dotless node"
    using extract_node [OF node(1), of "''50051''" "''http://''"] extract_node [OF node] endpoint by (simp_all add: is_digit_def)
  let ?dir = "cert_dir base_dir (dotless node) ''bootstrap''"
  have p: "paths = \<lparr>cp_cert = path_join ?dir ''client.pem'', cp_key = path_join ?dir ''client.key'', cp_ca = None\<rparr>"
    "?dir \<in> fs_dirs (ws_fs ws')" "fs_files (ws_fs ws') (path_join ?dir ''client.pem'') = Some cert_pem"
    "fs_files (ws_fs ws') (path_join ?dir ''client.key'') = Some key_pem" "ws_modes ws' (path_join ?dir ''client.key'') = Some 384"
    "ws_home ws' = ws_home ws1" "fs_read_err (ws_fs ws') = fs_read_err (ws_fs ws1)" "fs_mkdir_err (ws_fs ws') = fs_mkdir_err (ws_fs ws1)"
    using save_certs_stored [OF sv [unfolded id(1)]] by (auto simp: Let_def)
  obtain ws3 where n: "new_cert_store ws' = (Ok base_dir, ws3)" "fs_files (ws_fs ws3) = fs_files (ws_fs ws')"
    "fs_dirs (ws_fs ws') \<subseteq> fs_dirs (ws_fs ws3)" "fs_read_err (ws_fs ws3) = fs_read_err (ws_fs ws')"
    using new_cert_store_again [OF st p(6,8)] by blast
  have "fs_read_err (ws_fs ws1) = fs_read_err (ws_fs ws)"
    using st by (auto simp: new_cert_store_def create_dir_all_def Let_def split: option.splits prod.splits)
  then have rd: "fs_read_err (ws_fs ws3) = Map.empty" using n(4) p(7) reads by simp
  obtain e where "load_certs_of base_dir (dotless node) ''operational'' (ws_fs ws3) = Err e" using none [OF n(1)] by blast
  then obtain ca where "find_best_cert base_dir (dotless node) (ws_fs ws3) = Ok (''bootstrap'',
    \<lparr>cp_cert = path_join ?dir ''client.pem'', cp_key = path_join ?dir ''client.key'', cp_ca = ca\<rparr>)"
    using find_saved_cert [of base_dir "dotless node" "ws_fs ws3" cert_pem key_pem e] n p by auto
  then have "connect_with_auto_tls C endpoint ws' =
      (map_err Other (cl_connect C endpoint (Some (cert_pem, key_pem))), [Stderr (lock @ '' Using bootstrap certificates for mTLS'')], ws3)"
    using n(1,2) p(3,4) rd by (simp add: connect_with_auto_tls_def id(2) read_to_string_def Let_def)
  then show ?thesis using k p(4,5) by blast
qed

text \<open>A node without roles in its clients' certificates, and a client of it.\<close>

definition demo_tls_env :: "(string list, unit, unit) service_env" where
  "demo_tls_env = demo_service_env\<lparr>se_orgs := (\<lambda>d. Ok [])\<rparr>"

definition demo_client :: "string list service client_env" where
  "demo_client = \<lparr>cl_connect = (\<lambda>endpoint identity. Ok (service_api demo_tls_env (Internal [])
       (if identity \<noteq> None \<and> starts_with endpoint ''https://'' then Some [()] else None))),
     cl_keygen = (\<lambda>names. Ok (''BEGIN CERTIFICATE'', ''K'')), cl_debug = (\<lambda>r. [])\<rparr>"

definition demo_workstation :: workstation where
  "demo_workstation = \<lparr>ws_fs = \<lparr>fs_files = Map.empty, fs_dirs = {}, fs_read_err = Map.empty, fs_write_err = Map.empty,
     fs_mkdir_err = Map.empty\<rparr>, ws_modes = Map.empty, ws_home = Some ''/h'', ws_chmod_err = Map.empty\<rparr>"

lemma path_prefixes_not: "take (length q) p \<noteq> q \<Longrightarrow> q \<notin> set (path_prefixes p)"
  by (auto simp: path_prefixes_def min_def)

lemma demo_accepts:
  "\<exists>s'. init_bootstrap demo_tls_env ''BEGIN CERTIFICATE'' demo_service = (Ok (True, ''Bootstrap certificate accepted and stored''), s')"
  by (simp add: init_bootstrap_def validate_bootstrap_cert_def starts_with_def create_dir_all_def fs_write_def demo_service_def demo_disks_def)

lemma demo_store: "new_cert_store ws = (Ok base_dir, ws1) \<Longrightarrow> ws_home ws = Some ''/h'' \<Longrightarrow>
    base_dir = ''/h/.keel/certs'' \<and> ws1 = ws\<lparr>ws_fs := ws_fs ws1\<rparr> \<and>
    ws_fs ws1 = (ws_fs ws)\<lparr>fs_dirs := fs_dirs (ws_fs ws) \<union> set (path_prefixes ''/h/.keel/certs'')\<rparr>"
  by (auto simp: new_cert_store_def path_join_def create_dir_all_def Let_def split: option.splits)

definition demo_no_pair :: "workstation \<Rightarrow> bool" where
  "demo_no_pair ws \<longleftrightarrow> ws_home ws = Some ''/h'' \<and> \<not> path_exists ''/h/.keel/certs/n1/operational'' (ws_fs ws)"

lemma demo_init_runs:
  "\<exists>shown ws' s'. run_init_bootstrap demo_client ''n1'' demo_workstation demo_service = (Finished, shown, ws', s') \<and> demo_no_pair ws'"
proof -
  have "extract_node_from_endpoint (''http://'' @ ''n1'' @ '':'' @ ''50051'') = dotless ''n1''"
    by (rule extract_node) (simp_all add: is_digit_def)
  then have id: "extract_node_from_endpoint (''http://n1:50051'') = ''n1''" by (simp add: dotless_def)
  obtain s' where acc: "init_bootstrap demo_tls_env ''BEGIN CERTIFICATE'' demo_service = (Ok (True, ''Bootstrap certificate accepted and stored''), s')"
    using demo_accepts by blast
  have "\<exists>shown ws'. save_bootstrap_pair ''http://n1:50051'' (''BEGIN CERTIFICATE'', ''K'') before demo_workstation = (Finished, shown, ws') \<and>
      demo_no_pair ws'" for before
    by (simp add: save_bootstrap_pair_def new_cert_store_def demo_workstation_def path_join_def create_dir_all_def id save_certs_def
        cert_dir_def ws_write_def fs_write_def set_mode_def Let_def demo_no_pair_def path_exists_def path_prefixes_not)
  then obtain shown ws' where sv: "save_bootstrap_pair ''http://n1:50051'' (''BEGIN CERTIFICATE'', ''K'')
       [Stdout ''Generating 24h bootstrap certificate...'', Stdout (tick @ '' Generated bootstrap certificate''),
        Stdout (tick @ '' Server accepted bootstrap certificate'')] demo_workstation = (Finished, shown, ws')" "demo_no_pair ws'" by blast
  have "run_init_bootstrap demo_client ''n1'' demo_workstation demo_service =
    (case save_bootstrap_pair ''http://n1:50051'' (''BEGIN CERTIFICATE'', ''K'')
       [Stdout ''Generating 24h bootstrap certificate...'', Stdout (tick @ '' Generated bootstrap certificate''),
        Stdout (tick @ '' Server accepted bootstrap certificate'')] demo_workstation of (x, shown, ws1) \<Rightarrow> (x, shown, ws1, s'))"
    using acc by (simp add: run_init_bootstrap_def demo_client_def generate_bootstrap_certificate_def service_api_def)
  then have "run_init_bootstrap demo_client ''n1'' demo_workstation demo_service = (Finished, shown, ws', s')"
    unfolding sv(1) by (simp only: prod.case)
  then show ?thesis using sv(2) by blast
qed

section \<open>What the connection shows the node\<close>

text \<open>
  What the client relies on. tonic sets up TLS for an endpoint with the scheme \<open>https\<close> only, so that the
  node sees the certificate of the identity there and none over \<open>http\<close>; \<open>der\<close> is the
  encoding of a certificate. The certificates of \<open>rcgen::generate_simple_self_signed\<close> have a common
  name and no Organization.
\<close>

definition tls_by_scheme ::
  "'c service client_env \<Rightarrow> ('c, 'der, 'key) service_env \<Rightarrow> status \<Rightarrow> (string \<Rightarrow> 'der) \<Rightarrow> string \<Rightarrow> bool" where
  "tls_by_scheme C E broken der endpoint \<longleftrightarrow> (\<forall>cert key api. cl_connect C endpoint (Some (cert, key)) = Ok api \<longrightarrow>
     api = service_api E broken (if starts_with endpoint ''https://'' then Some [der cert] else None))"

definition no_organization :: "'s client_env \<Rightarrow> ('c, 'der, 'key) service_env \<Rightarrow> (string \<Rightarrow> 'der) \<Rightarrow> bool" where
  "no_organization C E der \<longleftrightarrow> (\<forall>names cert key. cl_keygen C names = Ok (cert, key) \<longrightarrow> se_orgs E (der cert) = Ok [])"

abbreviation unrecognized :: status where
  "unrecognized \<equiv> PermissionDenied (''Unrecognized client certificate role: '' @
     ''No recognized RBAC role in certificate Organization field'')"

lemma no_organization_denied: "orgs der = Ok [] \<Longrightarrow> authorize orgs (Some [der]) required = Err unrecognized"
  by (simp add: authorize_def role_from_cert_der_def)

text \<open>A client the node refuses gets nothing done: no command but the local \<open>init\<close> finishes.\<close>

lemma refused_command:
  assumes "\<And>required. authorize (se_orgs E) certs required = Err e" "\<And>mode. cmd \<noteq> CmdInit mode"
    and "run_command C (service_api E broken certs) cmd ws s = (x, shown, ws', s')"
  shows "(x = Failed (Rpc e) \<or> (\<exists>m. x = Failed (Other m)) \<or> x = ExitProcess 1) \<and> s' = s"
proof (cases cmd)
  case (CmdRollback a)
  then show ?thesis using assms by (cases a) (simp_all add: rpc_def service_api_def guarded_handlers guarded_def)
next
  case (CmdNetwork a)
  then show ?thesis
    using assms by (cases a) (auto simp: rpc_def service_api_def guarded_handlers guarded_def map_answer_def no_panic_def run_config_set_def
        split: option.splits)
next
  case (CmdDiag a)
  then show ?thesis
    using assms by (cases a) (auto simp: rpc_def service_api_def guarded_handlers guarded_def map_answer_def)
next
  case (CmdBootstrap a)
  then show ?thesis
    using assms by (auto simp: run_bootstrap_def rpc_def service_api_def guarded_handlers guarded_def map_answer_def
        split: if_splits sum.splits)
qed (use assms in \<open>simp_all add: rpc_def service_api_def guarded_handlers guarded_def no_panic_def\<close>)

section \<open>Properties\<close>

text \<open>
  C38. The identity made by \<open>osctl init bootstrap\<close> opens no door. When the command has finished for a
  node named without a colon, and no operational pair is stored for it, the certificate and
  its key are stored, the key with mode 0600, and later connections to any port of the node
  use them. Over \<open>https\<close> no command of \<open>osctl\<close> but the local \<open>init\<close> then finishes, and none changes
  anything on the node: the certificate has no Organization, so the node answers that its
  role is not recognized, if the connection is made at all. Over \<open>http\<close> the certificate is not
  shown, and the command is what it is for a client without one, whom no role check refuses.
\<close>

theorem init_identity_refused:
  assumes run: "run_init_bootstrap C node ws s = (Finished, shown, ws', s')"
    and node: "CHR '':'' \<notin> set node" "list_all is_digit port" "scheme = ''http://'' \<or> scheme = ''https://''"
    and endpoint: "endpoint = scheme @ node @ '':'' @ port"
    and none: "\<And>base_dir ws3. new_cert_store ws' = (Ok base_dir, ws3) \<Longrightarrow>
      \<exists>e. load_certs_of base_dir (dotless node) ''operational'' (ws_fs ws3) = Err e"
    and reads: "fs_read_err (ws_fs ws) = Map.empty"
    and tonic: "tls_by_scheme C E broken der endpoint" and rcgen: "no_organization C E der"
    and main: "osctl_main C endpoint cmd ws' t = (x, shown', ws'', t')" "\<And>mode. cmd \<noteq> CmdInit mode"
  shows "(\<exists>cert_pem key_pem key_path. cl_keygen C [''keel-bootstrap''] = Ok (cert_pem, key_pem) \<and>
      fs_files (ws_fs ws') key_path = Some key_pem \<and> ws_modes ws' key_path = Some 384) \<and>
    (scheme = ''https://'' \<longrightarrow> (x = Failed (Rpc unrecognized) \<or> (\<exists>m. x = Failed (Other m)) \<or> x = ExitProcess 1) \<and> t' = t) \<and>
    (scheme = ''http://'' \<longrightarrow> (\<exists>m. x = Failed (Other m)) \<and> t' = t \<or>
       (\<exists>shown2 ws3. run_command C (service_api E broken None) cmd ws3 t = (x, shown2, ws'', t')))"
proof -
  obtain cert_pem key_pem key_path ws3 where k: "cl_keygen C [''keel-bootstrap''] = Ok (cert_pem, key_pem)"
    and conn: "connect_with_auto_tls C endpoint ws' =
      (map_err Other (cl_connect C endpoint (Some (cert_pem, key_pem))), [Stderr (lock @ '' Using bootstrap certificates for mTLS'')], ws3)"
    and key: "fs_files (ws_fs ws') key_path = Some key_pem" "ws_modes ws' key_path = Some 384"
    using init_then_connect [OF run node endpoint none reads] by blast
  have "(scheme = ''https://'' \<longrightarrow> (x = Failed (Rpc unrecognized) \<or> (\<exists>m. x = Failed (Other m)) \<or> x = ExitProcess 1) \<and> t' = t) \<and>
    (scheme = ''http://'' \<longrightarrow> (\<exists>m. x = Failed (Other m)) \<and> t' = t \<or>
       (\<exists>shown2 ws3. run_command C (service_api E broken None) cmd ws3 t = (x, shown2, ws'', t')))"
  proof (cases "cl_connect C endpoint (Some (cert_pem, key_pem))")
    case (Inl e)
    then show ?thesis using main(1) conn by (auto simp: osctl_main_def)
  next
    case (Inr api)
    obtain shown2 where cmd: "run_command C api cmd ws3 t = (x, shown2, ws'', t')"
      using main(1) conn Inr by (auto simp: osctl_main_def split: prod.splits)
    have api: "api = service_api E broken (if starts_with endpoint ''https://'' then Some [der cert_pem] else None)"
      using tonic Inr by (auto simp: tls_by_scheme_def)
    have "se_orgs E (der cert_pem) = Ok []" using rcgen k by (auto simp: no_organization_def)
    then have denied: "authorize (se_orgs E) (Some [der cert_pem]) required = Err unrecognized" for required
      by (rule no_organization_denied)
    have "(x = Failed (Rpc unrecognized) \<or> (\<exists>m. x = Failed (Other m)) \<or> x = ExitProcess 1) \<and> t' = t" if "scheme = ''https://''"
    proof (rule refused_command [OF denied main(2)])
      show "run_command C (service_api E broken (Some [der cert_pem])) cmd ws3 t = (x, shown2, ws'', t')"
        using cmd api that endpoint by (simp add: starts_with_def)
    qed
    moreover have "\<exists>shown2 ws3. run_command C (service_api E broken None) cmd ws3 t = (x, shown2, ws'', t')" if "scheme = ''http://''"
      using cmd api that endpoint by (auto simp: starts_with_def)
    ultimately show ?thesis by blast
  qed
  then show ?thesis using k key by blast
qed

theorem init_identity_refused_witness:
  "\<exists>shown ws' s' x shown' ws'' t'.
     run_init_bootstrap demo_client ''n1'' demo_workstation demo_service = (Finished, shown, ws', s') \<and>
     osctl_main demo_client ''https://n1:443'' CmdStatus ws' s' = (x, shown', ws'', t') \<and> x \<noteq> Finished \<and> t' = s'"
proof -
  obtain shown ws' s' where run: "run_init_bootstrap demo_client ''n1'' demo_workstation demo_service = (Finished, shown, ws', s')"
    and no: "demo_no_pair ws'" using demo_init_runs by blast
  have none: "\<exists>e. load_certs_of base_dir (dotless ''n1'') ''operational'' (ws_fs ws3) = Err e"
    if "new_cert_store ws' = (Ok base_dir, ws3)" for base_dir ws3
    using demo_store [OF that] no
    by (simp add: load_certs_of_def cert_dir_def path_join_def dotless_def path_exists_def demo_no_pair_def path_prefixes_not Let_def)
  have tonic: "tls_by_scheme demo_client demo_tls_env (Internal []) (\<lambda>_. ()) ''https://n1:443''"
    by (simp add: tls_by_scheme_def demo_client_def)
  have rcgen: "no_organization demo_client demo_tls_env (\<lambda>_. ())" by (simp add: no_organization_def demo_tls_env_def)
  obtain x shown' ws'' t' where main: "osctl_main demo_client ''https://n1:443'' CmdStatus ws' s' = (x, shown', ws'', t')"
    by (metis surj_pair)
  have "(x = Failed (Rpc unrecognized) \<or> (\<exists>m. x = Failed (Other m)) \<or> x = ExitProcess 1) \<and> t' = s'"
    using init_identity_refused [OF run _ _ _ _ none _ tonic rcgen main, of "''443''" "''https://''"]
    by (simp add: is_digit_def demo_workstation_def)
  then show ?thesis using run main by (intro exI conjI) auto
qed

text \<open>
  C39. What \<open>osctl update\<close> reports of the agent's service is what happened on the node: it
  finishes exactly when the request was authorised, the image was written to the inactive
  partition with its digest verified and the boot partition switched; it says that the
  update is complete in exactly those cases; and it leaves the user's machine alone.
\<close>

lemma progress_not_complete:
  "Stdout ''Update complete!'' \<in> set (progress_lines p) \<longleftrightarrow> up_success p"
  by (auto simp: progress_lines_def)

theorem osctl_update_outcome:
  assumes run: "run_command C (service_api E broken certs) (CmdUpdate a) ws s = (x, shown, ws', s')"
  shows "(x = Finished \<longleftrightarrow> authorize (se_orgs E) certs Operator = Ok () \<and>
      (\<exists>inactive saved w1. get_inactive_partition (sc_disks s) = Ok inactive \<and>
         install_flash (se_update E) (install_request_of a) (part_device inactive) (sc_disks s) = (Ok saved, w1) \<and>
         holds_image (ue_sha256 (se_update E)) (non_empty (unwrap_or [] (ua_sha256 a))) (part_device inactive) (sc_disks s') \<and>
         switch_boot_partition (ue_sgdisk (se_update E)) (part_index inactive) w1 = (Ok (), sc_disks s'))) \<and>
    (Stdout ''Update complete!'' \<in> set shown \<longleftrightarrow> x = Finished) \<and> ws' = ws"
proof (cases "authorize (se_orgs E) certs Operator")
  case (Inl e)
  then show ?thesis using run by (auto simp: rpc_def service_api_def install_update_def guarded_def)
next
  case (Inr u)
  obtain msgs err w' where st: "install_stream (se_update E) (install_request_of a) 6 (sc_disks s) = ((msgs, err), w')"
    by (metis surj_pair)
  have x: "x = (case err of None \<Rightarrow> Finished | Some e \<Rightarrow> Failed (Rpc e))" "shown = concat (List.map progress_lines msgs)"
    "ws' = ws" "sc_disks s' = w'"
    using run Inr st by (auto simp: rpc_def service_api_def install_update_def guarded_def report_update_def)
  have sh: "Stdout ''Update complete!'' \<in> set shown \<longleftrightarrow> (\<exists>p\<in>set msgs. up_success p)"
    using progress_not_complete by (auto simp: x(2))
  show ?thesis
    using install_stream_whole [OF st] sh x Inr
    by (cases err) (auto simp: install_request_of_def)
qed

theorem osctl_update_outcome_witness:
  "\<exists>shown ws' s'. run_command demo_client (service_api demo_service_env (Internal []) None)
       (CmdUpdate \<lparr>ua_source = ''u'', ua_sha256 = None, ua_delta = False, ua_fallback = False, ua_full_image_url = None\<rparr>)
       demo_workstation demo_service = (Finished, shown, ws', s') \<and> Stdout ''Update complete!'' \<in> set shown"
proof -
  let ?a = "\<lparr>ua_source = ''u'', ua_sha256 = None, ua_delta = False, ua_fallback = False, ua_full_image_url = None\<rparr>"
  let ?run = "run_command demo_client (service_api demo_service_env (Internal []) None) (CmdUpdate ?a) demo_workstation demo_service"
  have req: "install_request_of ?a = demo_install" by (simp add: install_request_of_def demo_install_def)
  have auth: "authorize (se_orgs demo_service_env) (None :: unit list option) Operator = Ok ()" by (simp add: authorize_def)
  obtain msgs w' where "install_stream demo_env demo_install 5 demo_disks = ((msgs, None), w')" using demo_install_stream by blast
  then have st: "install_stream (se_update demo_service_env) demo_install 6 (sc_disks demo_service) = ((msgs, None), w')"
    using install_stream_all [of 6] by (simp add: demo_service_env_def demo_service_def)
  have "fst ?run = Finished"
    using auth st by (simp add: req rpc_def service_api_def install_update_def guarded_def report_update_def)
  moreover obtain shown ws' s' where run: "?run = (fst ?run, shown, ws', s')" by (metis surj_pair fst_conv)
  ultimately show ?thesis using osctl_update_outcome [OF run] by metis
qed

lemma configure_command_stored:
  assumes "rpc before (na_configure_network (service_api E broken certs) req) (report_configure auto) ws s = (Finished, shown, ws', s')"
    and "\<forall>c. config_of_request req = Ok c \<longrightarrow> json_ok (se_net_json E) c" "fs_read_err (sc_fs s) CONFIG_PATH = None"
  shows "get_network_config (se_cidr E) (se_net_json E) (sc_fs s') =
    Ok \<lparr>rp_interfaces = List.map (\<lambda>m. m\<lparr>m_config := canon_config (m_config m)\<rparr>) (rq_interfaces req),
        rp_dns = rq_dns req, rp_routes = rq_routes req\<rparr>"
proof -
  obtain r fs' where c: "configure_network (se_cidr E) (se_net_json E) req (sc_fs s) = (r, fs')" by force
  have "\<exists>x. r = Ok x \<and> sc_fs s' = fs'"
    using assms(1) c
    by (cases "authorize (se_orgs E) certs Admin"; cases r)
      (auto simp: rpc_def service_api_def map_answer_def configure_network_rpc_def guarded_def report_configure_def set_fs_def)
  then obtain x where "r = Ok x" "sc_fs s' = fs'" by blast
  then show ?thesis using configure_reported [OF c [unfolded \<open>r = Ok x\<close>] assms(2,3)] by simp
qed

text \<open>
  C37. Setting the DNS servers forgets the interfaces. When \<open>osctl network dns set\<close> has finished,
  the configuration the node reports has these DNS settings, no interface and no route,
  whatever was configured before.
\<close>

theorem dns_set_drops_interfaces:
  assumes run: "run_network (service_api E broken certs) (DnsSet servers search auto) ws s = (Finished, shown, ws', s')"
    and json: "json_ok (se_net_json E) \<lparr>interfaces = [], dns = Some \<lparr>nameservers = servers, search_domains = search\<rparr>, routes = []\<rparr>"
    and reads: "fs_read_err (sc_fs s) CONFIG_PATH = None"
  shows "get_network_config (se_cidr E) (se_net_json E) (sc_fs s') =
    Ok \<lparr>rp_interfaces = [], rp_dns = Some \<lparr>nameservers = servers, search_domains = search\<rparr>, rp_routes = []\<rparr>"
proof -
  have "config_of_request (dns_request servers search auto) =
    Ok \<lparr>interfaces = [], dns = Some \<lparr>nameservers = servers, search_domains = search\<rparr>, routes = []\<rparr>"
    by (simp add: config_of_request_def dns_request_def)
  then show ?thesis
    using configure_command_stored [OF run [unfolded run_network.simps]] json reads by (simp add: dns_request_def)
qed

definition demo_dns_env :: "(string list, unit, unit) service_env" where
  "demo_dns_env = demo_service_env\<lparr>se_net_json := \<lparr>to_json = (\<lambda>_. Ok ''{}''),
     from_json = (\<lambda>_. Ok \<lparr>interfaces = [], dns = Some \<lparr>nameservers = [''10.0.0.1''], search_domains = [''lan'']\<rparr>, routes = []\<rparr>)\<rparr>\<rparr>"

theorem dns_set_drops_interfaces_witness:
  "\<exists>shown ws' s'. run_network (service_api demo_dns_env (Internal []) None) (DnsSet [''10.0.0.1''] [''lan''] False) demo_workstation demo_service =
       (Finished, shown, ws', s') \<and>
     get_network_config (se_cidr demo_dns_env) (se_net_json demo_dns_env) (sc_fs s') =
       Ok \<lparr>rp_interfaces = [], rp_dns = Some \<lparr>nameservers = [''10.0.0.1''], search_domains = [''lan'']\<rparr>, rp_routes = []\<rparr>"
proof -
  let ?cfg = "\<lparr>interfaces = [], dns = Some \<lparr>nameservers = [''10.0.0.1''], search_domains = [''lan'']\<rparr>, routes = []\<rparr>"
  have req: "config_of_request (dns_request [''10.0.0.1''] [''lan''] False) = Ok ?cfg"
    by (simp add: config_of_request_def dns_request_def)
  have v: "validate_network (se_cidr demo_dns_env) ?cfg = Ok ()"
    unfolding network_validator.validate_iff by (simp add: valid_dns_def is_ip_address_def demo_ip)
  have "\<exists>x fs'. configure_network (se_cidr demo_dns_env) (se_net_json demo_dns_env) (dns_request [''10.0.0.1''] [''lan''] False) (sc_fs demo_service) = (Ok x, fs')"
    using v by (simp add: configure_network_def req save_network_def save_network_to_def demo_dns_env_def demo_service_def demo_disks_def
        create_dir_all_def fs_write_def split: option.splits)
  then obtain shown ws' s' where run: "run_network (service_api demo_dns_env (Internal []) None) (DnsSet [''10.0.0.1''] [''lan''] False) demo_workstation demo_service =
       (Finished, shown, ws', s')"
    by (auto simp: rpc_def service_api_def map_answer_def configure_network_rpc_def guarded_def authorize_def report_configure_def)
  have "fs_read_err (sc_fs demo_service) CONFIG_PATH = None" by (simp add: demo_service_def demo_disks_def)
  moreover have "json_ok (se_net_json demo_dns_env) ?cfg" by (simp add: json_ok_def demo_dns_env_def)
  ultimately show ?thesis using dns_set_drops_interfaces [OF run] run by blast
qed

end
