(* ===== verification/Init_Setup.thy ===== *)
theory Init_Setup
  imports Network_Config
begin

text \<open>
  The boot sequence of the init process (\<open>cmd/keel-init/src/main.rs\<close>), up to the point
  where it starts supervising services: mounting file systems and persistent storage,
  cgroups, host name, networking and test mode. The kernel and the programs init runs are
  a parameter: \<open>k_mount\<close> is the \<open>mount\<close> system call, \<open>k_run\<close> runs a program to its end,
  \<open>k_sethostname\<close> sets the host name; they act on the files and on a state of type \<open>'k\<close>. Errors are only
  logged by the code, so they show in the model as the commands that do not follow.
  A panic is the value \<open>None\<close>.
\<close>

section \<open>Kernel interface\<close>

record mount_spec =
  mt_source :: "string option"
  mt_target :: string
  mt_fstype :: "string option"
  mt_flags :: "string list"
  mt_data :: "string option"

record 'k machine =
  mc_fs :: fsys
  mc_kern :: 'k

text \<open>A mount or a program may change the files init sees as well as the rest of the system.\<close>

record 'k kernel =
  k_mount :: "mount_spec \<Rightarrow> 'k machine \<Rightarrow> bool \<times> 'k machine"
  k_run :: "string \<Rightarrow> string list \<Rightarrow> 'k machine \<Rightarrow> cmd_outcome \<times> 'k machine"
  k_sethostname :: "string \<Rightarrow> 'k \<Rightarrow> bool \<times> 'k"

definition do_mkdir :: "string \<Rightarrow> 'k machine \<Rightarrow> 'k machine" where
  "do_mkdir p s = s\<lparr>mc_fs := snd (create_dir_all p (mc_fs s))\<rparr>"

definition do_write :: "string \<Rightarrow> string \<Rightarrow> 'k machine \<Rightarrow> 'k machine" where
  "do_write p c s = s\<lparr>mc_fs := snd (fs_write p c (mc_fs s))\<rparr>"

abbreviation ip_cmd :: "'k kernel \<Rightarrow> string list \<Rightarrow> 'k machine \<Rightarrow> cmd_outcome \<times> 'k machine" where
  "ip_cmd K \<equiv> k_run K ''/sbin/ip''"

text \<open>A command whose result only decides what is logged.\<close>

definition ip_quiet :: "'k kernel \<Rightarrow> string list \<Rightarrow> 'k machine \<Rightarrow> 'k machine" where
  "ip_quiet K args s = snd (ip_cmd K args s)"

section \<open>File systems\<close>

text \<open>A step of \<open>setup_filesystems\<close>: a directory to create first, if any, and a mount.\<close>

definition api_mounts :: "(string option \<times> mount_spec) list" where
  "api_mounts =
     [(None, \<lparr>mt_source = Some ''/'', mt_target = ''/'', mt_fstype = None, mt_flags = [''MS_BIND'', ''MS_REC''], mt_data = None\<rparr>),
      (None, \<lparr>mt_source = None, mt_target = ''/'', mt_fstype = None, mt_flags = [''MS_PRIVATE'', ''MS_REC''], mt_data = None\<rparr>),
      (None, \<lparr>mt_source = Some ''none'', mt_target = ''/proc'', mt_fstype = Some ''proc'', mt_flags = [], mt_data = None\<rparr>),
      (None, \<lparr>mt_source = Some ''none'', mt_target = ''/sys'', mt_fstype = Some ''sysfs'', mt_flags = [], mt_data = None\<rparr>),
      (None, \<lparr>mt_source = Some ''none'', mt_target = ''/dev'', mt_fstype = Some ''devtmpfs'', mt_flags = [], mt_data = None\<rparr>),
      (Some ''/dev/pts'', \<lparr>mt_source = Some ''devpts'', mt_target = ''/dev/pts'', mt_fstype = Some ''devpts'', mt_flags = [],
         mt_data = Some ''newinstance,ptmxmode=0666,mode=0620''\<rparr>),
      (Some ''/dev/shm'', \<lparr>mt_source = Some ''tmpfs'', mt_target = ''/dev/shm'', mt_fstype = Some ''tmpfs'', mt_flags = [],
         mt_data = Some ''size=64m''\<rparr>),
      (Some ''/dev/mqueue'', \<lparr>mt_source = Some ''mqueue'', mt_target = ''/dev/mqueue'', mt_fstype = Some ''mqueue'', mt_flags = [],
         mt_data = None\<rparr>),
      (None, \<lparr>mt_source = Some ''none'', mt_target = ''/tmp'', mt_fstype = Some ''tmpfs'', mt_flags = [], mt_data = None\<rparr>)]"

fun run_mounts :: "'k kernel \<Rightarrow> (string option \<times> mount_spec) list \<Rightarrow> 'k machine \<Rightarrow> 'k machine" where
  "run_mounts K [] s = s"
| "run_mounts K ((d, m) # ms) s =
     run_mounts K ms (snd (k_mount K m (case d of None \<Rightarrow> s | Some p \<Rightarrow> do_mkdir p s)))"

definition setup_filesystems :: "'k kernel \<Rightarrow> 'k machine \<Rightarrow> 'k machine" where
  "setup_filesystems K s =
     run_mounts K api_mounts (fold do_mkdir [''/proc'', ''/sys'', ''/dev'', ''/tmp''] s)"

section \<open>Persistent storage\<close>

definition data_spec :: "string \<Rightarrow> mount_spec" where
  "data_spec dev = \<lparr>mt_source = Some dev, mt_target = ''/data'', mt_fstype = Some ''ext4'', mt_flags = [], mt_data = None\<rparr>"

text \<open>The loop over the candidate devices; the result says whether one was mounted.\<close>

fun mount_data :: "'k kernel \<Rightarrow> string list \<Rightarrow> 'k machine \<Rightarrow> bool \<times> 'k machine" where
  "mount_data K [] s = (False, s)"
| "mount_data K (dev # devs) s =
     (if \<not> path_exists dev (mc_fs s) then mount_data K devs s
      else case k_mount K (data_spec dev) s of
        (True, s1) \<Rightarrow> (True, s1)
      | (False, s1) \<Rightarrow>
          (case k_run K ''/sbin/mkfs.ext4'' [''-F'', dev] s1 of
             (c, s2) \<Rightarrow>
               if cmd_success c then
                 (case k_mount K (data_spec dev) s2 of
                    (True, s3) \<Rightarrow> (True, s3)
                  | (False, s3) \<Rightarrow> mount_data K devs s3)
               else mount_data K devs s2))"

definition bind_dirs :: "(string \<times> string) list" where
  "bind_dirs = [(''containerd'', ''/var/lib/containerd''), (''kubelet'', ''/var/lib/kubelet''), (''keel'', ''/var/lib/keel'')]"

definition bind_one :: "'k kernel \<Rightarrow> string \<times> string \<Rightarrow> 'k machine \<Rightarrow> 'k machine" where
  "bind_one K b s =
     (case b of (subdir, target) \<Rightarrow>
        let source = ''/data/'' @ subdir;
            s2 = do_mkdir target (do_mkdir source s)
        in snd (k_mount K \<lparr>mt_source = Some source, mt_target = target, mt_fstype = None,
                            mt_flags = [''MS_BIND''], mt_data = None\<rparr> s2))"

definition setup_persistent_storage :: "'k kernel \<Rightarrow> 'k machine \<Rightarrow> 'k machine" where
  "setup_persistent_storage K s =
     (case mount_data K [''/dev/sda4'', ''/dev/sda''] (do_mkdir ''/data'' s) of
        (False, s1) \<Rightarrow> s1
      | (True, s1) \<Rightarrow> fold (bind_one K) bind_dirs s1)"

section \<open>Networking\<close>

definition configure_loopback :: "'k kernel \<Rightarrow> 'k machine \<Rightarrow> 'k machine" where
  "configure_loopback K s =
     (case ip_cmd K [''link'', ''set'', ''lo'', ''up''] s of (c, s1) \<Rightarrow>
        if cmd_success c then ip_quiet K [''addr'', ''add'', ''127.0.0.1/8'', ''dev'', ''lo''] s1 else s1)"

definition apply_static_ip_config :: "'k kernel \<Rightarrow> string \<Rightarrow> static_config \<Rightarrow> 'k machine \<Rightarrow> 'k machine" where
  "apply_static_ip_config K iface cfg s =
     (let s1 = (if ipv4_address cfg \<noteq> []
                then let t = ip_quiet K [''addr'', ''add'', ipv4_address cfg, ''dev'', iface] s in
                     (case st_gateway cfg of
                        None \<Rightarrow> t
                      | Some gw \<Rightarrow> ip_quiet K [''route'', ''add'', ''default'', ''via'', gw, ''dev'', iface] t)
                else s);
          s2 = fold (\<lambda>a. ip_quiet K [''-6'', ''addr'', ''add'', a, ''dev'', iface]) (ipv6_addresses cfg) s1;
          s3 = (case ipv6_gateway cfg of
                  None \<Rightarrow> s2
                | Some gw6 \<Rightarrow> ip_quiet K [''-6'', ''route'', ''add'', ''default'', ''via'', gw6, ''dev'', iface] s2);
          s4 = (if ipv6_auto cfg
                then do_write (''/proc/sys/net/ipv6/conf/'' @ iface @ ''/autoconf'') ''1''
                       (do_write (''/proc/sys/net/ipv6/conf/'' @ iface @ ''/accept_ra'') ''1'' s3)
                else s3)
      in if mtu cfg \<noteq> 1500
         then ip_quiet K [''link'', ''set'', iface, ''mtu'', show_word (mtu cfg)] s4 else s4)"

definition apply_ip_config :: "'k kernel \<Rightarrow> string \<Rightarrow> ip_config \<Rightarrow> 'k machine \<Rightarrow> 'k machine" where
  "apply_ip_config K iface c s =
     (case c of DhcpIp \<Rightarrow> s | StaticIp cfg \<Rightarrow> apply_static_ip_config K iface cfg s)"

definition enslave :: "'k kernel \<Rightarrow> string \<Rightarrow> string \<Rightarrow> 'k machine \<Rightarrow> 'k machine" where
  "enslave K bond slave s =
     (case ip_cmd K [''link'', ''set'', slave, ''master'', bond]
             (ip_quiet K [''link'', ''set'', slave, ''down''] s) of (c, s1) \<Rightarrow>
        if cmd_success c then ip_quiet K [''link'', ''set'', slave, ''up''] s1 else s1)"

definition configure_vlan :: "'k kernel \<Rightarrow> string \<Rightarrow> vlan_config \<Rightarrow> 'k machine \<Rightarrow> 'k machine" where
  "configure_vlan K name v s =
     (case ip_cmd K [''link'', ''add'', ''link'', vlan_parent v, ''name'', name, ''type'', ''vlan'', ''id'', show_word (vlan_id v)] s of
        (c, s1) \<Rightarrow>
          if \<not> cmd_success c then s1
          else (case ip_cmd K [''link'', ''set'', name, ''up''] s1 of
                  (SpawnErr e, s2) \<Rightarrow> s2
                | (Exited ok out err, s2) \<Rightarrow> apply_ip_config K name (vlan_ip_config v) s2))"

definition configure_bond :: "'k kernel \<Rightarrow> string \<Rightarrow> bond_config \<Rightarrow> 'k machine \<Rightarrow> 'k machine" where
  "configure_bond K name b s =
     (case ip_cmd K [''link'', ''add'', name, ''type'', ''bond'', ''mode'', bonding_mode_str (bond_mode b)] s of
        (c, s1) \<Rightarrow>
          if \<not> cmd_success c then s1
          else (case ip_cmd K [''link'', ''set'', name, ''up''] s1 of
                  (SpawnErr e, s2) \<Rightarrow> s2
                | (Exited ok out err, s2) \<Rightarrow>
                    apply_ip_config K name (bond_ip_config b) (fold (enslave K name) (bond_slaves b) s2)))"

definition configure_interface :: "'k kernel \<Rightarrow> interface_config \<Rightarrow> 'k machine \<Rightarrow> 'k machine" where
  "configure_interface K i s =
     (case ip_cmd K [''link'', ''set'', if_name i, ''up''] s of (c, s1) \<Rightarrow>
        if \<not> cmd_success c then s1
        else case if_config i of
          Dhcp \<Rightarrow> s1
        | Static cfg \<Rightarrow> apply_static_ip_config K (if_name i) cfg s1
        | Vlan v \<Rightarrow> configure_vlan K (if_name i) v s1
        | Bond b \<Rightarrow> configure_bond K (if_name i) b s1)"

definition resolv_conf :: "dns_config \<Rightarrow> string" where
  "resolv_conf d =
     ''# Generated by keel-init'' @ nl @
     concat (List.map (\<lambda>ns. ''nameserver '' @ ns @ nl) (nameservers d)) @
     (if search_domains d \<noteq> [] then ''search '' @ join '' '' (search_domains d) @ nl else [])"

definition configure_dns :: "dns_config \<Rightarrow> 'k machine \<Rightarrow> 'k machine" where
  "configure_dns d s = do_write ''/etc/resolv.conf'' (resolv_conf d) s"

definition configure_route :: "'k kernel \<Rightarrow> route_config \<Rightarrow> 'k machine \<Rightarrow> 'k machine" where
  "configure_route K r s =
     ip_quiet K ([''route'', ''add'', rt_destination r, ''via'', rt_gateway r] @
       (case rt_metric r of None \<Rightarrow> [] | Some m \<Rightarrow> [''metric'', show_word m])) s"

definition apply_network_config :: "'k kernel \<Rightarrow> network_config \<Rightarrow> 'k machine \<Rightarrow> 'k machine" where
  "apply_network_config K cfg s =
     fold (configure_route K) (routes cfg)
       ((case dns cfg of None \<Rightarrow> id | Some d \<Rightarrow> configure_dns d)
         (fold (configure_interface K) (interfaces cfg) s))"

definition configure_dhcp_fallback :: "'k kernel \<Rightarrow> 'k machine \<Rightarrow> 'k machine" where
  "configure_dhcp_fallback K s =
     (case ip_cmd K [''link'', ''set'', ''eth0'', ''up''] s of (c, s1) \<Rightarrow>
        if \<not> cmd_success c then s1
        else case ip_cmd K [''addr'', ''add'', ''10.0.2.15/24'', ''dev'', ''eth0''] s1 of (c2, s2) \<Rightarrow>
          if cmd_success c2
          then ip_quiet K [''route'', ''add'', ''default'', ''via'', ''10.0.2.2'', ''dev'', ''eth0''] s2 else s2)"

definition default_resolv :: string where
  "default_resolv = ''# Generated by keel-init (default fallback)'' @ nl @ ''nameserver 8.8.8.8'' @ nl @ ''nameserver 1.1.1.1'' @ nl"

text \<open>\<open>host\<close> is the result of \<open>gethostname\<close> as a string, \<open>cfg\<close> that of loading the configuration.\<close>

definition setup_networking ::
  "'k kernel \<Rightarrow> cidr \<Rightarrow> network_config json \<Rightarrow> string option \<Rightarrow> 'k machine \<Rightarrow> 'k machine" where
  "setup_networking K ip js host s =
     (let s1 = configure_loopback K s;
          s2 = (case load_network ip js (mc_fs s1) of
                  Inr config \<Rightarrow> apply_network_config K config s1
                | Inl e \<Rightarrow> configure_dhcp_fallback K s1);
          s3 = (if path_exists ''/etc/resolv.conf'' (mc_fs s2) then s2
                else do_write ''/etc/resolv.conf'' default_resolv s2)
      in if path_exists ''/etc/hosts'' (mc_fs s3) then s3
         else do_write ''/etc/hosts''
                (''# Generated by keel-init'' @ nl @ ''127.0.0.1'' @ [CHR 0x09] @ ''localhost'' @ nl @
                 ''::1'' @ [CHR 0x09, CHR 0x09] @ ''localhost'' @ nl @
                 ''127.0.1.1'' @ [CHR 0x09] @ unwrap_or ''keelos'' host @ nl) s3)"

section \<open>Host name\<close>

text \<open>\<open>rnd\<close> is 16 bytes from \<open>/dev/urandom\<close> in hexadecimal, when they can be read.\<close>

definition uuid_like_id :: "string option \<Rightarrow> fsys \<Rightarrow> string" where
  "uuid_like_id rnd fs =
     (let fallback = unwrap_or ''00000000'' rnd in
      case read_to_string ''/etc/machine-id'' fs of
        Inr t \<Rightarrow> if trim t \<noteq> [] then trim t else fallback
      | Inl e \<Rightarrow> fallback)"

text \<open>\<open>&uuid_like_id()[..8]\<close> panics on a shorter string.\<close>

definition id_prefix :: "string \<Rightarrow> string option" where
  "id_prefix s = (if length s < 8 then None else Some (take 8 s))"

definition do_sethostname :: "'k kernel \<Rightarrow> string \<Rightarrow> 'k machine \<Rightarrow> bool \<times> 'k machine" where
  "do_sethostname K h s = (case k_sethostname K h (mc_kern s) of (ok, k) \<Rightarrow> (ok, s\<lparr>mc_kern := k\<rparr>))"

fun cmdline_hostname :: "'k kernel \<Rightarrow> string list \<Rightarrow> 'k machine \<Rightarrow> bool \<times> 'k machine" where
  "cmdline_hostname K [] s = (False, s)"
| "cmdline_hostname K (param # ps) s =
     (case strip_prefix ''hostname='' param of
        None \<Rightarrow> cmdline_hostname K ps s
      | Some h \<Rightarrow>
          if trim h = [] then cmdline_hostname K ps s
          else (case do_sethostname K (trim h) s of
                  (True, s1) \<Rightarrow> (True, s1)
                | (False, s1) \<Rightarrow> cmdline_hostname K ps s1))"

definition file_hostname :: "'k kernel \<Rightarrow> 'k machine \<Rightarrow> bool \<times> 'k machine" where
  "file_hostname K s =
     (case read_to_string ''/etc/hostname'' (mc_fs s) of
        Inr t \<Rightarrow> if trim t \<noteq> [] then do_sethostname K (trim t) s else (False, s)
      | Inl e \<Rightarrow> (False, s))"

definition setup_hostname :: "'k kernel \<Rightarrow> string option \<Rightarrow> 'k machine \<Rightarrow> 'k machine option" where
  "setup_hostname K rnd s =
     (case file_hostname K s of
        (True, s1) \<Rightarrow> Some s1
      | (False, s1) \<Rightarrow>
          (case (case read_to_string ''/proc/cmdline'' (mc_fs s1) of
                   Inr cmdline \<Rightarrow> cmdline_hostname K (split_whitespace cmdline) s1
                 | Inl e \<Rightarrow> (False, s1)) of
             (True, s2) \<Rightarrow> Some s2
           | (False, s2) \<Rightarrow>
               (case id_prefix (uuid_like_id rnd (mc_fs s2)) of
                  None \<Rightarrow> None
                | Some p \<Rightarrow> Some (snd (do_sethostname K (''keelos-'' @ p) s2)))))"

section \<open>Control groups and test mode\<close>

definition setup_cgroups :: "'k kernel \<Rightarrow> 'k machine \<Rightarrow> 'k machine" where
  "setup_cgroups K s =
     (case k_mount K \<lparr>mt_source = Some ''cgroup2'', mt_target = ''/sys/fs/cgroup'', mt_fstype = Some ''cgroup2'',
                       mt_flags = [], mt_data = None\<rparr> (do_mkdir ''/sys/fs/cgroup'' s) of
        (False, s1) \<Rightarrow> s1
      | (True, s1) \<Rightarrow> do_write ''/sys/fs/cgroup/cgroup.subtree_control'' ''+cpu +memory +io +pids +cpuset'' s1)"

text \<open>The static bridge configuration installed in test mode.\<close>

definition cni_config :: string where
  \<open>cni_config =
     ''{'' @ nl @
     ''  "cniVersion": "0.3.1",'' @ nl @
     ''  "name": "bridge",'' @ nl @
     ''  "plugins": ['' @ nl @
     ''    {'' @ nl @
     ''      "type": "bridge",'' @ nl @
     ''      "bridge": "cni0",'' @ nl @
     ''      "isGateway": true,'' @ nl @
     ''      "ipMasq": true,'' @ nl @
     ''      "ipam": {'' @ nl @
     ''        "type": "host-local",'' @ nl @
     ''        "subnet": "10.244.1.0/24",'' @ nl @
     ''        "routes": [{"dst": "0.0.0.0/0"}]'' @ nl @
     ''      }'' @ nl @
     ''    },'' @ nl @
     ''    {'' @ nl @
     ''      "type": "portmap",'' @ nl @
     ''      "capabilities": {"portMappings": true}'' @ nl @
     ''    }'' @ nl @
     ''  ]'' @ nl @
     ''}'' @ nl\<close>

text \<open>The first result says whether the delayed self-update was scheduled.\<close>

definition check_test_mode :: "'k machine \<Rightarrow> bool \<times> 'k machine" where
  "check_test_mode s =
     (case read_to_string ''/proc/cmdline'' (mc_fs s) of
        Inl e \<Rightarrow> (False, s)
      | Inr cmdline \<Rightarrow>
          (contains cmdline ''test_update=1'',
           if contains cmdline ''test_cni=1''
           then do_write ''/etc/cni/net.d/10-bridge.conflist'' cni_config (do_mkdir ''/etc/cni/net.d'' s)
           else s))"

text \<open>The whole sequence before the services are started.\<close>

definition init_setup ::
  "'k kernel \<Rightarrow> cidr \<Rightarrow> network_config json \<Rightarrow> string option \<Rightarrow> string option \<Rightarrow>
   'k machine \<Rightarrow> (bool \<times> 'k machine) option" where
  "init_setup K ip js rnd host s =
     (case setup_hostname K rnd (setup_cgroups K (setup_persistent_storage K (setup_filesystems K s))) of
        None \<Rightarrow> None
      | Some s1 \<Rightarrow> Some (check_test_mode (setup_networking K ip js host s1)))"

section \<open>A kernel that keeps a record\<close>

text \<open>
  \<open>traced K\<close> behaves as \<open>K\<close> and appends every mount, command and host name with its outcome
  to a list. Statements about what init does, and in which order, are statements about
  that list, for every kernel \<open>K\<close>.
\<close>

datatype event =
    Mounted mount_spec bool
  | Ran string "string list" cmd_outcome
  | Named string bool

definition trace :: "('k \<times> event list) machine \<Rightarrow> event list" where
  "trace s = snd (mc_kern s)"

definition inner :: "('k \<times> event list) machine \<Rightarrow> 'k machine" where
  "inner s = \<lparr>mc_fs = mc_fs s, mc_kern = fst (mc_kern s)\<rparr>"

definition logged :: "event \<Rightarrow> ('k \<times> event list) machine \<Rightarrow> 'k machine \<Rightarrow> ('k \<times> event list) machine" where
  "logged e s t = \<lparr>mc_fs = mc_fs t, mc_kern = (mc_kern t, trace s @ [e])\<rparr>"

definition traced :: "'k kernel \<Rightarrow> ('k \<times> event list) kernel" where
  "traced K =
     \<lparr>k_mount = (\<lambda>m s. case k_mount K m (inner s) of (ok, t) \<Rightarrow> (ok, logged (Mounted m ok) s t)),
      k_run = (\<lambda>prog args s. case k_run K prog args (inner s) of (c, t) \<Rightarrow> (c, logged (Ran prog args c) s t)),
      k_sethostname = (\<lambda>h k. case k_sethostname K h (fst k) of (ok, k') \<Rightarrow> (ok, (k', snd k @ [Named h ok])))\<rparr>"

lemma trace_mount: "k_mount (traced K) m s = (ok, t) \<Longrightarrow> trace t = trace s @ [Mounted m ok]"
  by (auto simp: traced_def logged_def trace_def split: prod.splits)

lemma trace_run: "k_run (traced K) prog args s = (c, t) \<Longrightarrow> trace t = trace s @ [Ran prog args c]"
  by (auto simp: traced_def logged_def trace_def split: prod.splits)

lemma trace_hostname: "do_sethostname (traced K) h s = (ok, t) \<Longrightarrow> trace t = trace s @ [Named h ok]"
  by (auto simp: do_sethostname_def traced_def trace_def split: prod.splits)

lemma trace_files [simp]: "trace (do_mkdir p s) = trace s" "trace (do_write p c s) = trace s"
  by (simp_all add: do_mkdir_def do_write_def trace_def)

lemmas trace_rules = trace_mount trace_run trace_hostname

section \<open>Persistent storage: what is formatted\<close>

text \<open>
  The events of trying one device: a mount that succeeds; or a failed mount, then
  \<open>mkfs.ext4\<close>, and a second mount when formatting succeeded.
\<close>

definition mkfs_event :: "string \<Rightarrow> cmd_outcome \<Rightarrow> event" where
  "mkfs_event dev c = Ran ''/sbin/mkfs.ext4'' [''-F'', dev] c"

inductive attempt :: "string \<Rightarrow> bool \<Rightarrow> event list \<Rightarrow> bool" where
  direct: "attempt dev True [Mounted (data_spec dev) True]"
| formatted: "cmd_success c \<Longrightarrow>
    attempt dev ok [Mounted (data_spec dev) False, mkfs_event dev c, Mounted (data_spec dev) ok]"
| unformatted: "\<not> cmd_success c \<Longrightarrow>
    attempt dev False [Mounted (data_spec dev) False, mkfs_event dev c]"

inductive_cases attempt_fail: "attempt dev False es"

text \<open>What the loop over the devices does: failed attempts, then at most one that succeeded.\<close>

inductive attempts :: "string list \<Rightarrow> bool \<Rightarrow> event list \<Rightarrow> bool" where
  none: "attempts [] False []"
| skip: "attempts devs ok es \<Longrightarrow> attempts (dev # devs) ok es"
| stop: "attempt dev True es \<Longrightarrow> attempts (dev # devs) True es"
| next_dev: "attempt dev False es \<Longrightarrow> attempts devs ok fs \<Longrightarrow> attempts (dev # devs) ok (es @ fs)"

lemma mount_data_attempts:
  "mount_data (traced K) devs s = (ok, t) \<Longrightarrow> \<exists>es. trace t = trace s @ es \<and> attempts devs ok es"
proof (induction devs arbitrary: s)
  case Nil
  then show ?case by (auto intro: attempts.none)
next
  case (Cons dev devs)
  obtain ok1 s1 where m1: "k_mount (traced K) (data_spec dev) s = (ok1, s1)" by force
  obtain c s2 where r: "k_run (traced K) ''/sbin/mkfs.ext4'' [''-F'', dev] s1 = (c, s2)" by force
  obtain ok3 s3 where m3: "k_mount (traced K) (data_spec dev) s2 = (ok3, s3)" by force
  note tr = trace_mount [OF m1] trace_run [OF r, folded mkfs_event_def] trace_mount [OF m3]
  have rest: "\<exists>es. trace t = trace s @ es \<and> attempts (dev # devs) ok es"
    if go: "mount_data (traced K) devs u = (ok, t)" and u: "trace u = trace s @ fs" and a: "attempt dev False fs" for u fs
  proof -
    obtain es where "trace t = trace u @ es" "attempts devs ok es"
      using Cons.IH [OF go] by blast
    then show ?thesis
      using u attempts.next_dev [OF a] by (intro exI [of _ "fs @ es"]) simp
  qed
  show ?case
  proof (cases "path_exists dev (mc_fs s)")
    case False
    then show ?thesis using Cons by (auto intro: attempts.skip)
  next
    case True
    consider (a) ok1 | (b) "\<not> ok1" "\<not> cmd_success c" | (c) "\<not> ok1" "cmd_success c" ok3
      | (d) "\<not> ok1" "cmd_success c" "\<not> ok3" by blast
    then show ?thesis
    proof cases
      case a
      then have "ok" "t = s1" using True Cons.prems m1 by auto
      then show ?thesis using a tr attempts.stop [OF attempt.direct] by auto
    next
      case b
      then have "mount_data (traced K) devs s2 = (ok, t)" using True Cons.prems m1 r by simp
      then show ?thesis using b tr by (elim rest) (auto intro: attempt.unformatted)
    next
      case c
      then have "ok" "t = s3" using True Cons.prems m1 r m3 by auto
      then show ?thesis using c tr attempts.stop [OF attempt.formatted [OF c(2)]] by auto
    next
      case d
      then have "mount_data (traced K) devs s3 = (ok, t)" using True Cons.prems m1 r m3 by simp
      then show ?thesis using d tr attempt.formatted [OF d(2), of dev False] by (elim rest) auto
    qed
  qed
qed

text \<open>The facts about such traces that the property below collects.\<close>

lemma attempt_format:
  assumes "attempt dev ok es" "i < length es" "es ! i = Ran prog args c"
  shows "prog = ''/sbin/mkfs.ext4'' \<and> args = [''-F'', dev] \<and> 0 < i \<and> es ! (i - 1) = Mounted (data_spec dev) False"
  using assms by cases (auto simp: mkfs_event_def nth_Cons' split: if_splits)

lemma attempts_format:
  assumes "attempts devs ok es" "i < length es" "es ! i = Ran prog args c"
  shows "\<exists>dev\<in>set devs. prog = ''/sbin/mkfs.ext4'' \<and> args = [''-F'', dev] \<and> 0 < i \<and>
           es ! (i - 1) = Mounted (data_spec dev) False"
  using assms
proof (induction arbitrary: i rule: attempts.induct)
  case (next_dev dev es devs ok fs)
  show ?case
  proof (cases "i < length es")
    case True
    then show ?thesis
      using attempt_format [OF next_dev.hyps(1) True] next_dev.prems by (auto simp: nth_append)
  next
    case False
    have "\<exists>dev\<in>set devs. prog = ''/sbin/mkfs.ext4'' \<and> args = [''-F'', dev] \<and> 0 < i - length es \<and>
           fs ! (i - length es - 1) = Mounted (data_spec dev) False"
      using next_dev.prems False by (intro next_dev.IH) (auto simp: nth_append)
    then obtain d where "d \<in> set devs" "prog = ''/sbin/mkfs.ext4''" "args = [''-F'', d]"
      "0 < i - length es" "fs ! (i - length es - 1) = Mounted (data_spec d) False" by blast
    moreover have "\<not> i - 1 < length es" "i - 1 - length es = i - length es - 1"
      using \<open>0 < i - length es\<close> by linarith+
    then have "(es @ fs) ! (i - 1) = fs ! (i - length es - 1)"
      by (simp only: nth_append if_False)
    ultimately show ?thesis by (intro bexI [of _ d]) auto
  qed
next
  case (stop dev es devs)
  then show ?case using attempt_format [OF stop.hyps] by auto
qed auto

lemma attempt_mounts:
  "attempt dev ok es \<Longrightarrow> filter (\<lambda>e. \<exists>m. e = Mounted m True) es = (if ok then [Mounted (data_spec dev) True] else [])"
  by (cases ok; auto elim!: attempt.cases simp: mkfs_event_def)

lemma attempts_mounts:
  "attempts devs ok es \<Longrightarrow>
     length (filter (\<lambda>e. \<exists>m. e = Mounted m True) es) = (if ok then 1 else 0)"
  by (induction rule: attempts.induct) (auto dest: attempt_mounts)

definition bind_event :: "bool \<Rightarrow> string \<times> string \<Rightarrow> event" where
  "bind_event ok b = Mounted \<lparr>mt_source = Some (''/data/'' @ fst b), mt_target = snd b, mt_fstype = None,
     mt_flags = [''MS_BIND''], mt_data = None\<rparr> ok"

lemma bind_one_trace: "\<exists>ok. trace (bind_one (traced K) b s) = trace s @ [bind_event ok b]"
proof -
  obtain ok t where m: "k_mount (traced K) \<lparr>mt_source = Some (''/data/'' @ fst b), mt_target = snd b, mt_fstype = None,
     mt_flags = [''MS_BIND''], mt_data = None\<rparr> (do_mkdir (snd b) (do_mkdir (''/data/'' @ fst b) s)) = (ok, t)"
    by force
  show ?thesis
    using trace_mount [OF m] m by (auto simp: bind_one_def bind_event_def Let_def split: prod.splits)
qed

lemma bind_all_trace:
  "\<exists>oks. length oks = length bs \<and>
     trace (fold (bind_one (traced K)) bs s) = trace s @ map2 bind_event oks bs"
proof (induction bs arbitrary: s)
  case (Cons b bs)
  obtain ok where o: "trace (bind_one (traced K) b s) = trace s @ [bind_event ok b]"
    using bind_one_trace by blast
  obtain oks where "length oks = length bs"
    "trace (fold (bind_one (traced K)) bs (bind_one (traced K) b s)) = trace (bind_one (traced K) b s) @ map2 bind_event oks bs"
    using Cons.IH [of "bind_one (traced K) b s"] by blast
  then show ?case using o by (intro exI [of _ "ok # oks"]) simp
qed simp

definition mounts_done :: "event list \<Rightarrow> nat" where
  "mounts_done es = length (filter (\<lambda>e. \<exists>m. e = Mounted m True) es)"

definition kernel_refusing :: "unit kernel" where
  "kernel_refusing = \<lparr>k_mount = (\<lambda>m s. (False, s)), k_run = (\<lambda>p a s. (Exited True [] [], s)), k_sethostname = (\<lambda>h s. (False, s))\<rparr>"

definition one_disk :: "(unit \<times> event list) machine" where
  "one_disk = \<lparr>mc_fs = \<lparr>fs_files = [''/dev/sda'' \<mapsto> []], fs_dirs = {}, fs_read_err = Map.empty,
     fs_write_err = Map.empty, fs_mkdir_err = Map.empty\<rparr>, mc_kern = ((), [])\<rparr>"

text \<open>
  C40. Whatever the kernel answers, setting up persistent storage does this: a first part
  in which every program run is \<open>mkfs.ext4 -F\<close> on one of the two candidate devices, run
  right after mounting that device failed, and in which at most one mount succeeds; and, exactly
  when one succeeded, the three bind mounts of the container, kubelet and keel directories,
  in this order. A device that can be mounted is never formatted.
\<close>

theorem storage_formats_only_unmountable:
  "\<exists>es bs. trace (setup_persistent_storage (traced K) s) = trace s @ es @ bs \<and>
     (\<forall>i<length es. \<forall>prog args c. es ! i = Ran prog args c \<longrightarrow>
        (\<exists>dev\<in>{''/dev/sda4'', ''/dev/sda''}. prog = ''/sbin/mkfs.ext4'' \<and> args = [''-F'', dev] \<and>
           0 < i \<and> es ! (i - 1) = Mounted (data_spec dev) False)) \<and>
     (mounts_done es = 0 \<and> bs = [] \<or>
      mounts_done es = 1 \<and> (\<exists>oks. length oks = 3 \<and> bs = map2 bind_event oks bind_dirs))"
proof -
  obtain ok t where md: "mount_data (traced K) [''/dev/sda4'', ''/dev/sda''] (do_mkdir ''/data'' s) = (ok, t)"
    by force
  obtain es where tr: "trace t = trace s @ es" and at: "attempts [''/dev/sda4'', ''/dev/sda''] ok es"
    using mount_data_attempts [OF md] by auto
  have f: "\<forall>i<length es. \<forall>prog args c. es ! i = Ran prog args c \<longrightarrow>
        (\<exists>dev\<in>{''/dev/sda4'', ''/dev/sda''}. prog = ''/sbin/mkfs.ext4'' \<and> args = [''-F'', dev] \<and>
           0 < i \<and> es ! (i - 1) = Mounted (data_spec dev) False)"
    using attempts_format [OF at] by simp
  have n: "mounts_done es = (if ok then 1 else 0)"
    using attempts_mounts [OF at] by (simp add: mounts_done_def)
  obtain oks where b: "length oks = length bind_dirs"
    "trace (fold (bind_one (traced K)) bind_dirs t) = trace t @ map2 bind_event oks bind_dirs"
    using bind_all_trace by blast
  show ?thesis
  proof (cases ok)
    case True
    then have "trace (setup_persistent_storage (traced K) s) = trace s @ es @ map2 bind_event oks bind_dirs"
      using md tr b by (simp add: setup_persistent_storage_def)
    moreover have "mounts_done es = 1 \<and> (\<exists>oks'. length oks' = 3 \<and> map2 bind_event oks bind_dirs = map2 bind_event oks' bind_dirs)"
      using n b True by (intro conjI exI [of _ oks]) (simp_all add: bind_dirs_def)
    ultimately show ?thesis using f by blast
  next
    case False
    then have "trace (setup_persistent_storage (traced K) s) = trace s @ es @ []"
      using md tr by (simp add: setup_persistent_storage_def)
    moreover have "mounts_done es = 0" using n False by simp
    ultimately show ?thesis using f by blast
  qed
qed

theorem storage_formats_only_unmountable_witness:
  "\<exists>es bs. trace (setup_persistent_storage (traced kernel_refusing) one_disk) = trace one_disk @ es @ bs \<and>
     (\<forall>i<length es. \<forall>prog args c. es ! i = Ran prog args c \<longrightarrow>
        (\<exists>dev\<in>{''/dev/sda4'', ''/dev/sda''}. prog = ''/sbin/mkfs.ext4'' \<and> args = [''-F'', dev] \<and>
           0 < i \<and> es ! (i - 1) = Mounted (data_spec dev) False)) \<and>
     (mounts_done es = 0 \<and> bs = [] \<or>
      mounts_done es = 1 \<and> (\<exists>oks. length oks = 3 \<and> bs = map2 bind_event oks bind_dirs))"
  by (rule storage_formats_only_unmountable)

lemma path_exists_mkdir_data:
  assumes "dev \<noteq> ''/data''"
  shows "path_exists dev (mc_fs (do_mkdir ''/data'' s)) = path_exists dev (mc_fs s)"
proof -
  have "path_prefixes ''/data'' = [''/data'']"
    by (simp add: path_prefixes_def upt_rec)
  then show ?thesis
    using assms by (auto simp: do_mkdir_def path_exists_def create_dir_all_def split: option.splits)
qed

text \<open>
  On a node without a data partition (\<open>/dev/sda4\<close> missing) whose disk does not carry a
  file system on the whole device, as a disk with an A/B partition table does not, init
  formats the whole disk \<open>/dev/sda\<close>, boot slots included.
\<close>

lemma missing_data_partition_formats_disk:
  assumes "\<not> path_exists ''/dev/sda4'' (mc_fs s)"
    and "path_exists ''/dev/sda'' (mc_fs s)"
    and "k_mount K (data_spec ''/dev/sda'') (inner (do_mkdir ''/data'' s)) = (False, u)"
  shows "\<exists>c es. trace (setup_persistent_storage (traced K) s) =
           trace s @ Mounted (data_spec ''/dev/sda'') False # mkfs_event ''/dev/sda'' c # es"
proof -
  let ?s = "do_mkdir ''/data'' s"
  obtain s1 where m: "k_mount (traced K) (data_spec ''/dev/sda'') ?s = (False, s1)"
    using assms(3) by (simp add: traced_def)
  obtain c s2 where r: "k_run (traced K) ''/sbin/mkfs.ext4'' [''-F'', ''/dev/sda''] s1 = (c, s2)" by force
  obtain ok s3 where m3: "k_mount (traced K) (data_spec ''/dev/sda'') s2 = (ok, s3)" by force
  obtain oks where b: "trace (fold (bind_one (traced K)) bind_dirs s3) = trace s3 @ map2 bind_event oks bind_dirs"
    using bind_all_trace by blast
  have ex: "\<not> path_exists ''/dev/sda4'' (mc_fs ?s)" "path_exists ''/dev/sda'' (mc_fs ?s)"
    using assms(1,2) by (simp_all add: path_exists_mkdir_data)
  have "\<exists>es. trace (setup_persistent_storage (traced K) s) = trace s2 @ es"
  proof (cases "cmd_success c \<and> ok")
    case True
    then have "setup_persistent_storage (traced K) s = fold (bind_one (traced K)) bind_dirs s3"
      using ex m r m3 by (simp add: setup_persistent_storage_def)
    then show ?thesis using b trace_mount [OF m3] by simp
  next
    case False
    then have "setup_persistent_storage (traced K) s = (if cmd_success c then s3 else s2)"
      using ex m r m3 by (auto simp: setup_persistent_storage_def)
    then show ?thesis using trace_mount [OF m3] by simp
  qed
  then show ?thesis
    using trace_mount [OF m] trace_run [OF r] by (auto simp: mkfs_event_def)
qed

lemma missing_data_partition_formats_disk_witness:
  "\<exists>c es. trace (setup_persistent_storage (traced kernel_refusing) one_disk) =
           trace one_disk @ Mounted (data_spec ''/dev/sda'') False # mkfs_event ''/dev/sda'' c # es"
  by (rule missing_data_partition_formats_disk [where u = "inner (do_mkdir ''/data'' one_disk)"])
    (simp_all add: one_disk_def path_exists_def kernel_refusing_def)

section \<open>Network interfaces that init can bring into being\<close>

text \<open>
  \<open>L k\<close> is the set of network interfaces that exist. Of the \<open>ip\<close> program only this is used:
  an interface can be brought up only if it exists, and the only command that brings one
  into being is \<open>ip link add\<close>, which creates the interface it names.
\<close>

fun created :: "string list \<Rightarrow> string set" where
  "created (a # b # n # rest) =
     (if a = ''link'' \<and> b = ''add''
      then (case rest of
              p # w # m # _ \<Rightarrow> if n = ''link'' \<and> w = ''name'' then {m} else {n}
            | _ \<Rightarrow> {n})
      else {})"
| "created _ = {}"

definition link_laws :: "'k kernel \<Rightarrow> ('k \<Rightarrow> string set) \<Rightarrow> bool" where
  "link_laws K L \<longleftrightarrow>
     (\<forall>args s c t. k_run K ''/sbin/ip'' args s = (c, t) \<longrightarrow>
        L (mc_kern t) \<subseteq> L (mc_kern s) \<union> created args \<and>
        (\<forall>n. args = [''link'', ''set'', n, ''up''] \<and> cmd_success c \<longrightarrow> n \<in> L (mc_kern s)))"

lemma link_run:
  "link_laws K L \<Longrightarrow> k_run K ''/sbin/ip'' args s = (c, t) \<Longrightarrow> L (mc_kern t) \<subseteq> L (mc_kern s) \<union> created args"
  by (simp add: link_laws_def)

lemma link_up:
  "link_laws K L \<Longrightarrow> k_run K ''/sbin/ip'' [''link'', ''set'', n, ''up''] s = (c, t) \<Longrightarrow> cmd_success c \<Longrightarrow>
     n \<in> L (mc_kern s)"
  by (simp add: link_laws_def)

text \<open>A step that creates no interface.\<close>

definition no_new_link :: "('k \<Rightarrow> string set) \<Rightarrow> ('k machine \<Rightarrow> 'k machine) \<Rightarrow> bool" where
  "no_new_link L f \<longleftrightarrow> (\<forall>s. L (mc_kern (f s)) \<subseteq> L (mc_kern s))"

lemma no_new_linkD: "no_new_link L f \<Longrightarrow> L (mc_kern (f s)) \<subseteq> L (mc_kern s)"
  by (simp add: no_new_link_def)

lemma no_link_write: "no_new_link L (do_write p c)"
  by (simp add: no_new_link_def do_write_def)

lemma no_link_fold: "(\<And>x. x \<in> set xs \<Longrightarrow> no_new_link L (f x)) \<Longrightarrow> no_new_link L (fold f xs)"
proof (induction xs)
  case (Cons x xs)
  then have "no_new_link L (f x)" "no_new_link L (fold f xs)" by simp_all
  then show ?case unfolding no_new_link_def by (metis fold_Cons comp_apply subset_trans)
qed (simp add: no_new_link_def)

lemma no_link_quiet: "link_laws K L \<Longrightarrow> created args = {} \<Longrightarrow> no_new_link L (ip_quiet K args)"
  unfolding no_new_link_def ip_quiet_def by (metis link_run prod.collapse Un_empty_right)

lemma no_link_static: "link_laws K L \<Longrightarrow> no_new_link L (apply_static_ip_config K iface cfg)"
proof -
  assume l: "link_laws K L"
  have q: "created args = {} \<Longrightarrow> L (mc_kern (ip_quiet K args s)) \<subseteq> L (mc_kern s)" for args s
    using no_link_quiet [OF l] by (blast dest: no_new_linkD)
  have w: "L (mc_kern (do_write p c s)) \<subseteq> L (mc_kern s)" for p c s
    by (simp add: do_write_def)
  have f: "L (mc_kern (fold (\<lambda>a. ip_quiet K [''-6'', ''addr'', ''add'', a, ''dev'', iface]) as s)) \<subseteq> L (mc_kern s)" for as s
    by (rule no_new_linkD [OF no_link_fold]) (simp add: no_link_quiet [OF l])
  show ?thesis
    unfolding no_new_link_def apply_static_ip_config_def Let_def
    by (auto split: option.splits intro!: q w f order_trans [OF q] order_trans [OF w] order_trans [OF f] del: subsetI)
qed

lemma no_link_ip: "link_laws K L \<Longrightarrow> no_new_link L (apply_ip_config K iface c)"
  by (cases c) (auto simp: apply_ip_config_def no_new_link_def dest: no_link_static no_new_linkD)

lemma no_link_enslave:
  assumes l: "link_laws K L"
  shows "no_new_link L (enslave K bond slave)"
  unfolding no_new_link_def
proof
  fix s
  obtain c s1 where r: "k_run K ''/sbin/ip'' [''link'', ''set'', slave, ''master'', bond]
      (ip_quiet K [''link'', ''set'', slave, ''down''] s) = (c, s1)" by force
  have "L (mc_kern s1) \<subseteq> L (mc_kern s)"
    using link_run [OF l r] no_new_linkD [OF no_link_quiet [OF l, of "[''link'', ''set'', slave, ''down'']"], of s]
    by (simp add: subset_iff)
  then show "L (mc_kern (enslave K bond slave s)) \<subseteq> L (mc_kern s)"
    using r no_new_linkD [OF no_link_quiet [OF l, of "[''link'', ''set'', slave, ''up'']"], of s1]
    by (auto simp: enslave_def)
qed

lemma link_vlan:
  assumes l: "link_laws K L"
  shows "L (mc_kern (configure_vlan K name v s)) \<subseteq> insert name (L (mc_kern s))"
proof -
  obtain c s1 where a: "k_run K ''/sbin/ip'' [''link'', ''add'', ''link'', vlan_parent v, ''name'', name,
    ''type'', ''vlan'', ''id'', show_word (vlan_id v)] s = (c, s1)" by force
  obtain c2 s2 where u: "k_run K ''/sbin/ip'' [''link'', ''set'', name, ''up''] s1 = (c2, s2)" by force
  have "L (mc_kern s1) \<subseteq> insert name (L (mc_kern s))" "L (mc_kern s2) \<subseteq> L (mc_kern s1)"
    using link_run [OF l a] link_run [OF l u] by simp_all
  moreover have "L (mc_kern (apply_ip_config K name (vlan_ip_config v) s2)) \<subseteq> L (mc_kern s2)"
    by (rule no_new_linkD [OF no_link_ip [OF l]])
  ultimately show ?thesis
    using a u by (cases c2) (auto simp: configure_vlan_def)
qed

lemma link_bond:
  assumes l: "link_laws K L"
  shows "L (mc_kern (configure_bond K name b s)) \<subseteq> insert name (L (mc_kern s))"
proof -
  obtain c s1 where a: "k_run K ''/sbin/ip'' [''link'', ''add'', name, ''type'', ''bond'', ''mode'',
    bonding_mode_str (bond_mode b)] s = (c, s1)" by force
  obtain c2 s2 where u: "k_run K ''/sbin/ip'' [''link'', ''set'', name, ''up''] s1 = (c2, s2)" by force
  have "L (mc_kern s1) \<subseteq> insert name (L (mc_kern s))" "L (mc_kern s2) \<subseteq> L (mc_kern s1)"
    using link_run [OF l a] link_run [OF l u] by simp_all
  moreover have "L (mc_kern (apply_ip_config K name (bond_ip_config b) (fold (enslave K name) (bond_slaves b) s2)))
      \<subseteq> L (mc_kern (fold (enslave K name) (bond_slaves b) s2))"
    by (rule no_new_linkD [OF no_link_ip [OF l]])
  moreover have "L (mc_kern (fold (enslave K name) (bond_slaves b) s2)) \<subseteq> L (mc_kern s2)"
    by (intro no_new_linkD no_link_fold no_link_enslave [OF l])
  ultimately show ?thesis
    using a u by (cases c2) (auto simp: configure_bond_def)
qed

lemma no_link_interface:
  assumes l: "link_laws K L"
  shows "no_new_link L (configure_interface K i)"
  unfolding no_new_link_def
proof
  fix s
  obtain c s1 where u: "k_run K ''/sbin/ip'' [''link'', ''set'', if_name i, ''up''] s = (c, s1)" by force
  have s1: "L (mc_kern s1) \<subseteq> L (mc_kern s)"
    using link_run [OF l u] by simp
  show "L (mc_kern (configure_interface K i s)) \<subseteq> L (mc_kern s)"
  proof (cases "cmd_success c")
    case True
    then have "if_name i \<in> L (mc_kern s)" by (rule link_up [OF l u])
    then show ?thesis
      using u s1 True link_vlan [OF l, of "if_name i" _ s1] link_bond [OF l, of "if_name i" _ s1]
        no_new_linkD [OF no_link_static [OF l, of "if_name i"], of _ s1]
      by (cases "if_config i") (simp_all add: configure_interface_def subset_iff, (blast | metis insert_iff)+)
  qed (use u s1 in \<open>simp add: configure_interface_def\<close>)
qed

lemma no_link_route: "link_laws K L \<Longrightarrow> no_new_link L (configure_route K r)"
  unfolding configure_route_def by (rule no_link_quiet) simp_all

definition links_kernel :: "string set kernel" where
  "links_kernel =
     \<lparr>k_mount = (\<lambda>m s. (True, s)),
      k_run = (\<lambda>p args s.
        if created args \<noteq> {} then (Exited True [] [], s\<lparr>mc_kern := mc_kern s \<union> created args\<rparr>)
        else case args of
          [a, b, n, u] \<Rightarrow> (Exited (a = ''link'' \<and> b = ''set'' \<longrightarrow> n \<in> mc_kern s) [] [], s)
        | _ \<Rightarrow> (Exited True [] [], s)),
      k_sethostname = (\<lambda>h s. (True, s))\<rparr>"

lemma links_kernel_laws: "link_laws links_kernel id"
  by (auto simp: link_laws_def links_kernel_def split: if_splits list.splits)

definition vlan_only :: network_config where
  "vlan_only = new_network_config\<lparr>interfaces := [\<lparr>if_name = ''vlan100'',
     if_config = Vlan \<lparr>vlan_parent = ''eth0'', vlan_id = 100, vlan_ip_config = DhcpIp\<rparr>\<rparr>]\<rparr>"

text \<open>
  Applying a network configuration never creates an interface. In particular a VLAN or
  bond of the configuration that does not exist yet is not created: the interface is first
  brought up, which fails, and the code gives up on it before it runs \<open>ip link add\<close>.
\<close>

lemma network_config_creates_no_link:
  assumes "link_laws K L"
  shows "L (mc_kern (apply_network_config K cfg s)) \<subseteq> L (mc_kern s)"
proof -
  let ?s1 = "fold (configure_interface K) (interfaces cfg) s"
  let ?s2 = "(case dns cfg of None \<Rightarrow> id | Some d \<Rightarrow> configure_dns d) ?s1"
  have "L (mc_kern ?s1) \<subseteq> L (mc_kern s)"
    by (intro no_new_linkD no_link_fold no_link_interface assms)
  moreover have "mc_kern ?s2 = mc_kern ?s1"
    by (simp add: configure_dns_def do_write_def split: option.splits)
  moreover have "L (mc_kern (fold (configure_route K) (routes cfg) ?s2)) \<subseteq> L (mc_kern ?s2)"
    by (intro no_new_linkD no_link_fold no_link_route assms)
  ultimately show ?thesis by (simp add: apply_network_config_def)
qed

lemma network_config_creates_no_link_witness:
  "link_laws links_kernel id \<and>
   ''vlan100'' \<notin> mc_kern (apply_network_config links_kernel vlan_only \<lparr>mc_fs = mc_fs one_disk, mc_kern = {''lo'', ''eth0''}\<rparr>)"
  using network_config_creates_no_link [OF links_kernel_laws, of vlan_only "\<lparr>mc_fs = mc_fs one_disk, mc_kern = {''lo'', ''eth0''}\<rparr>"]
  by (auto simp: links_kernel_laws)

section \<open>Host name\<close>

text \<open>The names the configuration offers, in the order of preference.\<close>

definition hostname_candidates :: "fsys \<Rightarrow> string list" where
  "hostname_candidates fs =
     filter (\<lambda>h. h \<noteq> [])
       ((case read_to_string ''/etc/hostname'' fs of Inr t \<Rightarrow> [trim t] | Inl e \<Rightarrow> []) @
        (case read_to_string ''/proc/cmdline'' fs of
           Inr c \<Rightarrow> List.map trim (List.map_filter (strip_prefix ''hostname='') (split_whitespace c))
         | Inl e \<Rightarrow> []))"

fun try_names :: "'k kernel \<Rightarrow> string list \<Rightarrow> 'k machine \<Rightarrow> bool \<times> 'k machine" where
  "try_names K [] s = (False, s)"
| "try_names K (h # hs) s =
     (case do_sethostname K h s of (True, t) \<Rightarrow> (True, t) | (False, t) \<Rightarrow> try_names K hs t)"

lemma sethostname_files: "do_sethostname K h s = (ok, t) \<Longrightarrow> mc_fs t = mc_fs s"
  by (auto simp: do_sethostname_def split: prod.splits)

lemma try_names_files: "try_names K hs s = (ok, t) \<Longrightarrow> mc_fs t = mc_fs s"
  by (induction K hs s rule: try_names.induct) (auto split: prod.splits bool.splits dest: sethostname_files)

lemma cmdline_hostname_try:
  "cmdline_hostname K ps s =
     try_names K (filter (\<lambda>h. h \<noteq> []) (List.map trim (List.map_filter (strip_prefix ''hostname='') ps))) s"
proof (induction ps arbitrary: s)
  case (Cons p ps)
  then show ?case
    by (cases "strip_prefix ''hostname='' p") (auto simp: List.map_filter_simps split: prod.splits bool.splits)
qed (simp add: List.map_filter_simps)

lemma try_names_append:
  "try_names K (xs @ ys) s = (case try_names K xs s of (True, t) \<Rightarrow> (True, t) | (False, t) \<Rightarrow> try_names K ys t)"
  by (induction K xs s rule: try_names.induct) (auto split: prod.splits bool.splits)

lemma file_hostname_try:
  "file_hostname K s =
     try_names K (filter (\<lambda>h. h \<noteq> []) (case read_to_string ''/etc/hostname'' (mc_fs s) of Inr t \<Rightarrow> [trim t] | Inl e \<Rightarrow> [])) s"
  by (auto simp: file_hostname_def split: sum.splits prod.splits bool.splits)

lemma setup_hostname_try:
  "setup_hostname K rnd s =
     (case try_names K (hostname_candidates (mc_fs s)) s of
        (True, t) \<Rightarrow> Some t
      | (False, t) \<Rightarrow> map_option (\<lambda>p. snd (do_sethostname K (''keelos-'' @ p) t)) (id_prefix (uuid_like_id rnd (mc_fs s))))"
proof -
  obtain ok1 s1 where f: "file_hostname K s = (ok1, s1)" by force
  have fs1: "mc_fs s1 = mc_fs s"
    using f unfolding file_hostname_try by (rule try_names_files)
  define cs where "cs = (case read_to_string ''/proc/cmdline'' (mc_fs s) of
           Inr c \<Rightarrow> List.map trim (List.map_filter (strip_prefix ''hostname='') (split_whitespace c))
         | Inl e \<Rightarrow> [])"
  have c: "(case read_to_string ''/proc/cmdline'' (mc_fs s1) of
                   Inr cmdline \<Rightarrow> cmdline_hostname K (split_whitespace cmdline) s1
                 | Inl e \<Rightarrow> (False, s1)) = try_names K (filter (\<lambda>h. h \<noteq> []) cs) s1"
    by (simp add: fs1 cs_def cmdline_hostname_try split: sum.splits)
  obtain ok2 s2 where t: "try_names K (filter (\<lambda>h. h \<noteq> []) cs) s1 = (ok2, s2)" by force
  have fs2: "mc_fs s2 = mc_fs s"
    using try_names_files [OF t] fs1 by simp
  have "try_names K (hostname_candidates (mc_fs s)) s = (if ok1 then (True, s1) else (ok2, s2))"
    using f t by (simp add: hostname_candidates_def try_names_append file_hostname_try cs_def [symmetric])
  then show ?thesis
    using f c t fs2 by (cases ok2) (simp_all add: setup_hostname_def split: option.splits)
qed

definition naming_kernel :: "string kernel" where
  "naming_kernel =
     \<lparr>k_mount = (\<lambda>m s. (True, s)), k_run = (\<lambda>p a s. (Exited True [] [], s)), k_sethostname = (\<lambda>h k. (True, h))\<rparr>"

definition short_id_node :: "string machine" where
  "short_id_node = \<lparr>mc_fs = \<lparr>fs_files = [''/etc/machine-id'' \<mapsto> ''node7''], fs_dirs = {}, fs_read_err = Map.empty,
     fs_write_err = Map.empty, fs_mkdir_err = Map.empty\<rparr>, mc_kern = []\<rparr>"

text \<open>
  The host name is the first that the kernel accepts of: the trimmed contents of
  \<open>/etc/hostname\<close>, the values of the \<open>hostname=\<close> parameters of the kernel command line in
  order, empty ones skipped, and else \<open>keelos-\<close> with eight characters of the machine id. The
  boot panics exactly when none of the first was accepted and \<open>/etc/machine-id\<close> holds an
  id that is shorter than eight characters and not empty.
\<close>

lemma hostname_precedence:
  assumes "\<forall>r. rnd = Some r \<longrightarrow> length r = 32"
  shows "setup_hostname K rnd s =
     (case try_names K (hostname_candidates (mc_fs s)) s of
        (True, t) \<Rightarrow> Some t
      | (False, t) \<Rightarrow>
          if \<exists>i. read_to_string ''/etc/machine-id'' (mc_fs s) = Ok i \<and> trim i \<noteq> [] \<and> length (trim i) < 8
          then None
          else Some (snd (do_sethostname K (''keelos-'' @ take 8 (uuid_like_id rnd (mc_fs s))) t)))"
proof -
  have "id_prefix (uuid_like_id rnd (mc_fs s)) =
     (if \<exists>i. read_to_string ''/etc/machine-id'' (mc_fs s) = Ok i \<and> trim i \<noteq> [] \<and> length (trim i) < 8
      then None else Some (take 8 (uuid_like_id rnd (mc_fs s))))"
    using assms by (cases rnd) (auto simp: uuid_like_id_def id_prefix_def Let_def split: sum.splits if_splits)
  then show ?thesis
    unfolding setup_hostname_try by (auto split: prod.splits bool.splits)
qed

lemma hostname_precedence_witness:
  "setup_hostname naming_kernel None short_id_node = None"
  by (subst hostname_precedence)
    (simp_all add: hostname_candidates_def short_id_node_def read_to_string_def enoent_def trim_def is_ws_def)

end
