(* ===== verification/Supervisor.thy ===== *)
theory Supervisor
  imports Init_Setup Bootstrap
begin

text \<open>
  The second half of the init process (\<open>cmd/keel-init/src/main.rs\<close>): starting the agent,
  containerd and kubelet, and supervising them. The children of init are a table of process
  ids, each alive or a zombie. One pass of the supervision loop is five phases; a step
  relation interleaves them with what happens outside init: children die, orphans are
  adopted, files change. \<open>None\<close> is a panic of init.
\<close>

section \<open>Children\<close>

type_synonym pid = nat

datatype proc_state = Alive | Zombie

type_synonym procs = "(pid \<times> proc_state) list"

text \<open>
  \<open>waitpid(-1, WNOHANG)\<close>: with no child at all it fails with \<open>ECHILD\<close>; otherwise it reaps
  one zombie, if there is one. \<open>Child::try_wait\<close> and \<open>Child::wait\<close> wait for one child, and fail
  when it is not a child (any more).
\<close>

datatype wait_status = Reaped pid | StillAlive | NoChildren

definition waitpid_any :: "procs \<Rightarrow> wait_status \<times> procs" where
  "waitpid_any ps =
     (if ps = [] then (NoChildren, ps)
      else case find (\<lambda>c. snd c = Zombie) ps of
        None \<Rightarrow> (StillAlive, ps)
      | Some z \<Rightarrow> (Reaped (fst z), remove1 z ps))"

lemma waitpid_any_shorter: "waitpid_any ps = (Reaped p, qs) \<Longrightarrow> length qs < length ps"
  by (auto simp: waitpid_any_def find_Some_iff length_remove1 split: if_splits option.splits)

function reap_zombies :: "procs \<Rightarrow> procs" where
  "reap_zombies ps =
     (case waitpid_any ps of
        (StillAlive, qs) \<Rightarrow> qs
      | (NoChildren, qs) \<Rightarrow> qs
      | (Reaped p, qs) \<Rightarrow> reap_zombies qs)"
  by pat_completeness auto
termination
  by (relation "measure length") (auto dest: waitpid_any_shorter [OF sym])

definition without :: "pid \<Rightarrow> procs \<Rightarrow> procs" where
  "without p ps = filter (\<lambda>c. fst c \<noteq> p) ps"

definition echild :: string where
  "echild = ''No child processes (os error 10)''"

definition try_wait :: "pid \<Rightarrow> procs \<Rightarrow> (string + unit option) \<times> procs" where
  "try_wait p ps =
     (if (p, Zombie) \<in> set ps then (Ok (Some ()), without p ps)
      else if (p, Alive) \<in> set ps then (Ok None, ps)
      else (Err echild, ps))"

text \<open>\<open>child.kill()\<close> followed by \<open>child.wait()\<close>.\<close>

definition kill_and_wait :: "pid \<Rightarrow> procs \<Rightarrow> procs" where
  "kill_and_wait p ps = without p ps"

section \<open>State\<close>

record 'k sys =
  sys_kernel :: "'k kernel"
  sys_spawn :: "string \<Rightarrow> string list \<Rightarrow> procs \<Rightarrow> 'k machine \<Rightarrow> pid option \<times> 'k machine"
  sys_hostname :: "'k machine \<Rightarrow> string option"
  sys_random :: "'k machine \<Rightarrow> string option"
  sys_dir :: "string \<Rightarrow> 'k machine \<Rightarrow> string list option"
  sys_json :: "bootstrap_config json"

record 'k sup =
  sv_machine :: "'k machine"
  sv_procs :: procs
  sv_containerd :: "pid option"
  sv_agent :: "pid option"
  sv_kubelet :: "pid option"
  sv_agent_restart_count :: u32
  sv_switched :: bool
  sv_delays :: "u64 list"

abbreviation sv_fs :: "'k sup \<Rightarrow> fsys" where
  "sv_fs s \<equiv> mc_fs (sv_machine s)"

section \<open>Starting services\<close>

definition spawn_service :: "'k sys \<Rightarrow> string \<Rightarrow> string list \<Rightarrow> 'k sup \<Rightarrow> pid option \<times> 'k sup" where
  "spawn_service S path args s =
     (if \<not> path_exists path (sv_fs s) then (None, s)
      else case sys_spawn S path args (sv_procs s) (sv_machine s) of
        (None, m) \<Rightarrow> (None, s\<lparr>sv_machine := m\<rparr>)
      | (Some p, m) \<Rightarrow> (Some p, s\<lparr>sv_machine := m, sv_procs := sv_procs s @ [(p, Alive)]\<rparr>))"

definition permanent_kubeconfig :: string where
  "permanent_kubeconfig = ''/var/lib/kubelet/kubeconfig''"

definition kubelet_path :: "fsys \<Rightarrow> string" where
  "kubelet_path fs =
     (if path_exists ''/var/lib/keel/bin/kubelet'' fs then ''/var/lib/keel/bin/kubelet'' else ''/usr/bin/kubelet'')"

text \<open>The node name of the kubelet; \<open>None\<close> when the machine id is too short for the fallback.\<close>

definition kubelet_hostname :: "'k sys \<Rightarrow> 'k machine \<Rightarrow> string option" where
  "kubelet_hostname S m =
     (let hostname = (case load_bootstrap (sys_json S) bootstrap_state (mc_fs m) of
                        Inr config \<Rightarrow> bc_node_name config
                      | Inl e \<Rightarrow> unwrap_or [] (sys_hostname S m))
      in if hostname \<noteq> [] \<and> hostname \<noteq> ''(none)'' \<and> hostname \<noteq> ''localhost'' then Some hostname
         else map_option (\<lambda>p. ''keelos-node-'' @ p) (id_prefix (uuid_like_id (sys_random S m) (mc_fs m))))"

definition kubeconfig_args :: "fsys \<Rightarrow> string list" where
  "kubeconfig_args fs =
     (if path_exists kubelet_kubeconfig fs then
        (if \<not> path_exists permanent_kubeconfig fs
         then [''--bootstrap-kubeconfig=/var/lib/keel/kubernetes/kubelet.kubeconfig'',
               ''--kubeconfig=/var/lib/kubelet/kubeconfig'']
         else [''--kubeconfig=/var/lib/kubelet/kubeconfig''])
      else if path_exists permanent_kubeconfig fs then [''--kubeconfig=/var/lib/kubelet/kubeconfig'']
      else [])"

definition kubelet_args :: "string \<Rightarrow> fsys \<Rightarrow> string list" where
  "kubelet_args hostname fs =
     [''--config=/etc/kubernetes/kubelet-config.yaml'', ''--cert-dir=/var/lib/kubelet/pki'', ''--v=2'',
      ''--hostname-override='' @ hostname] @ kubeconfig_args fs"

definition spawn_kubelet :: "'k sys \<Rightarrow> 'k sup \<Rightarrow> (pid option \<times> 'k sup) option" where
  "spawn_kubelet S s =
     (let path = kubelet_path (sv_fs s);
          m = do_mkdir ''/var/lib/kubelet'' (do_mkdir ''/var/lib/kubelet/pki'' (sv_machine s))
      in map_option (\<lambda>h. spawn_service S path (kubelet_args h (mc_fs m)) (s\<lparr>sv_machine := m\<rparr>))
           (kubelet_hostname S m))"

definition import_image :: "'k sys \<Rightarrow> string \<Rightarrow> 'k machine \<Rightarrow> 'k machine" where
  "import_image S path m =
     (if path_extension path = Some ''tar''
      then snd (k_run (sys_kernel S) ''/usr/bin/ctr'' [''-n'', ''k8s.io'', ''images'', ''import'', path] m)
      else m)"

definition import_dir :: "'k sys \<Rightarrow> string \<Rightarrow> 'k machine \<Rightarrow> 'k machine" where
  "import_dir S d m = (case sys_dir S d m of None \<Rightarrow> m | Some paths \<Rightarrow> fold (import_image S) paths m)"

definition import_preloaded_images :: "'k sys \<Rightarrow> 'k sup \<Rightarrow> 'k sup" where
  "import_preloaded_images S s =
     s\<lparr>sv_machine := fold (import_dir S) [''/usr/share/keel/images'', ''/data/images''] (sv_machine s)\<rparr>"

definition start_services :: "'k sys \<Rightarrow> 'k machine \<Rightarrow> procs \<Rightarrow> 'k sup option" where
  "start_services S m ps =
     (let s0 = \<lparr>sv_machine = m, sv_procs = ps, sv_containerd = None, sv_agent = None, sv_kubelet = None,
                sv_agent_restart_count = 0, sv_switched = False, sv_delays = []\<rparr>;
          (agent, s1) = spawn_service S ''/usr/bin/keel-agent'' [] s0;
          (containerd, s2) = spawn_service S ''/usr/bin/containerd'' [] s1;
          s3 = import_preloaded_images S s2
      in map_option (\<lambda>(kubelet, s4). s4\<lparr>sv_agent := agent, sv_containerd := containerd, sv_kubelet := kubelet\<rparr>)
           (spawn_kubelet S s3))"

section \<open>One pass of the supervision loop\<close>

definition reap_phase :: "'k sys \<Rightarrow> 'k sup \<Rightarrow> 'k sup option" where
  "reap_phase S s = Some (s\<lparr>sv_procs := reap_zombies (sv_procs s)\<rparr>)"

definition containerd_phase :: "'k sys \<Rightarrow> 'k sup \<Rightarrow> 'k sup option" where
  "containerd_phase S s =
     (case sv_containerd s of
        None \<Rightarrow> Some s
      | Some child \<Rightarrow>
          (case try_wait child (sv_procs s) of
             (Inr (Some _), ps) \<Rightarrow>
               (case spawn_service S ''/usr/bin/containerd'' [] (s\<lparr>sv_procs := ps\<rparr>) of
                  (c, s1) \<Rightarrow> Some (s1\<lparr>sv_containerd := c\<rparr>))
           | (_, ps) \<Rightarrow> Some (s\<lparr>sv_procs := ps\<rparr>)))"

text \<open>
  \<open>1u64 << count\<close> in a release build shifts by the count modulo 64; the sleep before the
  restart is kept as the last element of \<open>sv_delays\<close>. \<open>saturating_add\<close> stops at the
  largest \<open>u32\<close>.
\<close>

definition restart_delay :: "u32 \<Rightarrow> u64" where
  "restart_delay count = min (push_bit (unat count mod 64) 1) 60"

definition saturating_inc :: "u32 \<Rightarrow> u32" where
  "saturating_inc n = (if n = - 1 then n else n + 1)"

definition agent_phase :: "'k sys \<Rightarrow> 'k sup \<Rightarrow> 'k sup option" where
  "agent_phase S s =
     (case sv_agent s of
        None \<Rightarrow> Some s
      | Some child \<Rightarrow>
          (case try_wait child (sv_procs s) of
             (Inr (Some _), ps) \<Rightarrow>
               (case spawn_service S ''/usr/bin/keel-agent'' []
                       (s\<lparr>sv_procs := ps, sv_delays := sv_delays s @ [restart_delay (sv_agent_restart_count s)]\<rparr>) of
                  (a, s1) \<Rightarrow>
                    Some (s1\<lparr>sv_agent := a,
                             sv_agent_restart_count :=
                               (if a \<noteq> None then saturating_inc (sv_agent_restart_count s)
                                else sv_agent_restart_count s)\<rparr>))
           | (_, ps) \<Rightarrow> Some (s\<lparr>sv_procs := ps\<rparr>)))"

definition kubelet_phase :: "'k sys \<Rightarrow> 'k sup \<Rightarrow> 'k sup option" where
  "kubelet_phase S s =
     (case sv_kubelet s of
        None \<Rightarrow> Some s
      | Some child \<Rightarrow>
          (case try_wait child (sv_procs s) of
             (Inr (Some _), ps) \<Rightarrow> Some (s\<lparr>sv_procs := ps, sv_kubelet := None\<rparr>)
           | (_, ps) \<Rightarrow> Some (s\<lparr>sv_procs := ps\<rparr>)))"

definition set_kubelet :: "pid option \<times> 'k sup \<Rightarrow> 'k sup" where
  "set_kubelet r = (snd r)\<lparr>sv_kubelet := fst r\<rparr>"

definition restart_kubelet :: "'k sys \<Rightarrow> 'k sup \<Rightarrow> 'k sup option" where
  "restart_kubelet S s =
     (let s1 = (case sv_kubelet s of None \<Rightarrow> s | Some child \<Rightarrow> s\<lparr>sv_procs := kill_and_wait child (sv_procs s)\<rparr>);
          s2 = s1\<lparr>sv_machine := (sv_machine s1)\<lparr>mc_fs := remove_file restart_signal (sv_fs s1)\<rparr>\<rparr>
      in map_option set_kubelet (spawn_kubelet S s2))"

definition kubeconfig_phase :: "'k sys \<Rightarrow> 'k sup \<Rightarrow> 'k sup option" where
  "kubeconfig_phase S s =
     (let bootstrap_exists = path_exists kubelet_kubeconfig (sv_fs s);
          permanent_exists = path_exists permanent_kubeconfig (sv_fs s)
      in case (if bootstrap_exists \<and> sv_kubelet s = None
               then map_option set_kubelet (spawn_kubelet S s) else Some s) of
           None \<Rightarrow> None
         | Some s1 \<Rightarrow>
             if path_exists restart_signal (sv_fs s1) then restart_kubelet S s1
             else if bootstrap_exists \<and> permanent_exists \<and> sv_kubelet s1 \<noteq> None \<and> \<not> sv_switched s1
               then restart_kubelet S (s1\<lparr>sv_switched := True\<rparr>)
             else Some s1)"

datatype phase = Reap | CheckContainerd | CheckAgent | CheckKubelet | CheckKubeconfig

fun next_phase :: "phase \<Rightarrow> phase" where
  "next_phase Reap = CheckContainerd"
| "next_phase CheckContainerd = CheckAgent"
| "next_phase CheckAgent = CheckKubelet"
| "next_phase CheckKubelet = CheckKubeconfig"
| "next_phase CheckKubeconfig = Reap"

fun run_phase :: "'k sys \<Rightarrow> phase \<Rightarrow> 'k sup \<Rightarrow> 'k sup option" where
  "run_phase S Reap s = reap_phase S s"
| "run_phase S CheckContainerd s = containerd_phase S s"
| "run_phase S CheckAgent s = agent_phase S s"
| "run_phase S CheckKubelet s = kubelet_phase S s"
| "run_phase S CheckKubeconfig s = kubeconfig_phase S s"

text \<open>A pass during which nothing happens outside init.\<close>

definition supervise_pass :: "'k sys \<Rightarrow> 'k sup \<Rightarrow> 'k sup option" where
  "supervise_pass S s =
     Option.bind (run_phase S Reap s) (\<lambda>s.
     Option.bind (run_phase S CheckContainerd s) (\<lambda>s.
     Option.bind (run_phase S CheckAgent s) (\<lambda>s.
     Option.bind (run_phase S CheckKubelet s) (\<lambda>s.
     run_phase S CheckKubeconfig s))))"

text \<open>The body of the loop init ends in when the boot sequence returned an error.\<close>

definition maintenance_pass :: "'k sup \<Rightarrow> 'k sup" where
  "maintenance_pass s = s\<lparr>sv_procs := reap_zombies (sv_procs s)\<rparr>"

section \<open>Interleaving with the rest of the system\<close>

text \<open>
  \<open>new p\<close> says that the kernel may still give the process id \<open>p\<close> to a new process.
\<close>

definition spawns_new :: "(pid \<Rightarrow> bool) \<Rightarrow> 'k sys \<Rightarrow> bool" where
  "spawns_new new S \<longleftrightarrow>
     (\<forall>path args ps m p m'. sys_spawn S path args ps m = (Some p, m') \<longrightarrow> new p \<and> p \<notin> fst ` set ps)"

inductive sup_step :: "'k sys \<Rightarrow> (pid \<Rightarrow> bool) \<Rightarrow> phase \<times> 'k sup \<Rightarrow> phase \<times> 'k sup \<Rightarrow> bool"
  for S new where
  phase: "run_phase S ph s = Some s' \<Longrightarrow> sup_step S new (ph, s) (next_phase ph, s')"
| dies: "(p, Alive) \<in> set (sv_procs s) \<Longrightarrow>
    sup_step S new (ph, s) (ph, s\<lparr>sv_procs := List.map (\<lambda>c. if fst c = p then (p, Zombie) else c) (sv_procs s)\<rparr>)"
| adopts: "new p \<Longrightarrow> p \<notin> fst ` set (sv_procs s) \<Longrightarrow>
    sup_step S new (ph, s) (ph, s\<lparr>sv_procs := sv_procs s @ [(p, Alive)]\<rparr>)"
| outside: "sup_step S new (ph, s) (ph, s\<lparr>sv_machine := m\<rparr>)"

inductive_cases sup_stepE: "sup_step S new (ph, s) t"

section \<open>Reaping\<close>

declare reap_zombies.simps [simp del]

lemma filter_remove1_other: "\<not> P z \<Longrightarrow> filter P (remove1 z xs) = filter P xs"
  by (induction xs) auto

lemma reap_zombies_alive: "reap_zombies ps = filter (\<lambda>c. snd c = Alive) ps"
proof (induction ps rule: reap_zombies.induct)
  case (1 ps)
  show ?case
  proof (cases "find (\<lambda>c. snd c = Zombie) ps")
    case None
    then have "filter (\<lambda>c. snd c = Alive) ps = ps"
      by (auto simp: find_None_iff filter_id_conv) (metis proc_state.exhaust snd_conv)
    with None show ?thesis by (subst reap_zombies.simps) (simp add: waitpid_any_def)
  next
    case (Some z)
    then have "snd z \<noteq> Alive" "ps \<noteq> []" by (auto simp: find_Some_iff)
    with Some 1 show ?thesis
      by (subst reap_zombies.simps) (simp add: waitpid_any_def filter_remove1_other)
  qed
qed

definition pids :: "'k sup \<Rightarrow> pid set" where
  "pids s = fst ` set (sv_procs s)"

lemma pids_update [simp]:
  "pids (s\<lparr>sv_machine := m\<rparr>) = pids s" "pids (s\<lparr>sv_containerd := h\<rparr>) = pids s" "pids (s\<lparr>sv_agent := h\<rparr>) = pids s"
  "pids (s\<lparr>sv_kubelet := h\<rparr>) = pids s" "pids (s\<lparr>sv_agent_restart_count := n\<rparr>) = pids s"
  "pids (s\<lparr>sv_switched := b\<rparr>) = pids s" "pids (s\<lparr>sv_delays := ds\<rparr>) = pids s"
  "pids (s\<lparr>sv_procs := ps\<rparr>) = fst ` set ps"
  by (simp_all add: pids_def)

section \<open>What each phase leaves alone\<close>

lemma try_wait_pids: "try_wait p ps = (r, qs) \<Longrightarrow> fst ` set qs \<subseteq> fst ` set ps"
  by (auto simp: try_wait_def without_def split: if_splits)

lemma try_wait_gone: "p \<notin> fst ` set ps \<Longrightarrow> try_wait p ps = (Err echild, ps)"
  by (force simp: try_wait_def)

lemma spawn_service_frame:
  assumes "spawn_service S path args s = (r, s')"
  shows "sv_containerd s' = sv_containerd s" "sv_agent s' = sv_agent s" "sv_kubelet s' = sv_kubelet s"
    "sv_agent_restart_count s' = sv_agent_restart_count s" "sv_switched s' = sv_switched s" "sv_delays s' = sv_delays s"
  using assms by (auto simp: spawn_service_def split: if_splits prod.splits option.splits)

lemma spawn_service_pids:
  assumes "spawn_service S path args s = (r, s')" "spawns_new new S"
  shows "pids s' \<subseteq> pids s \<union> {p. new p}"
proof (cases r)
  case (Some q)
  then obtain m' where "sys_spawn S path args (sv_procs s) (sv_machine s) = (Some q, m')"
    "s' = s\<lparr>sv_machine := m', sv_procs := sv_procs s @ [(q, Alive)]\<rparr>"
    using assms(1) by (auto simp: spawn_service_def split: if_splits prod.splits option.splits)
  moreover from this have "new q"
    using assms(2) unfolding spawns_new_def by blast
  ultimately have "new q" "pids s' = insert q (pids s)"
    by (simp_all add: pids_def)
  then show ?thesis by auto
qed (use assms(1) in \<open>auto simp: spawn_service_def split: if_splits prod.splits option.splits\<close>)

lemma spawn_kubelet_service:
  assumes "spawn_kubelet S s = Some (r, s')"
  obtains path args m where "spawn_service S path args (s\<lparr>sv_machine := m\<rparr>) = (r, s')"
  using assms by (auto simp: spawn_kubelet_def Let_def)

text \<open>
  The three handles and the counters after starting or restarting kubelet, and the
  process ids that can be in the table afterwards.
\<close>

definition kubelet_only :: "(pid \<Rightarrow> bool) \<Rightarrow> 'k sup \<Rightarrow> 'k sup \<Rightarrow> bool" where
  "kubelet_only new s s' \<longleftrightarrow>
     sv_containerd s' = sv_containerd s \<and> sv_agent s' = sv_agent s \<and>
     sv_agent_restart_count s' = sv_agent_restart_count s \<and> sv_delays s' = sv_delays s \<and>
     pids s' \<subseteq> pids s \<union> {p. new p}"

lemma kubelet_only_trans: "kubelet_only new s t \<Longrightarrow> kubelet_only new t u \<Longrightarrow> kubelet_only new s u"
  by (auto simp: kubelet_only_def)

lemma spawn_kubelet_only:
  assumes "spawns_new new S" "map_option set_kubelet (spawn_kubelet S s) = Some s'"
  shows "kubelet_only new s s'"
proof -
  obtain r t where "spawn_kubelet S s = Some (r, t)" "s' = t\<lparr>sv_kubelet := r\<rparr>"
    using assms(2) by (auto simp: set_kubelet_def)
  moreover from this(1) obtain path args m where "spawn_service S path args (s\<lparr>sv_machine := m\<rparr>) = (r, t)"
    by (rule spawn_kubelet_service)
  ultimately show ?thesis
    using spawn_service_frame [of S path args "s\<lparr>sv_machine := m\<rparr>"] spawn_service_pids [OF _ assms(1), of path args "s\<lparr>sv_machine := m\<rparr>"]
    by (auto simp: kubelet_only_def)
qed

lemma restart_kubelet_only:
  assumes "spawns_new new S" "restart_kubelet S s = Some s'"
  shows "kubelet_only new s s'"
proof -
  define s1 where "s1 = (case sv_kubelet s of None \<Rightarrow> s | Some child \<Rightarrow> s\<lparr>sv_procs := kill_and_wait child (sv_procs s)\<rparr>)"
  have "kubelet_only new s (s1\<lparr>sv_machine := (sv_machine s1)\<lparr>mc_fs := remove_file restart_signal (sv_fs s1)\<rparr>\<rparr>)"
    by (auto simp: s1_def kubelet_only_def kill_and_wait_def without_def pids_def split: option.splits)
  moreover have "kubelet_only new (s1\<lparr>sv_machine := (sv_machine s1)\<lparr>mc_fs := remove_file restart_signal (sv_fs s1)\<rparr>\<rparr>) s'"
    using assms(2) by (intro spawn_kubelet_only [OF assms(1)]) (simp add: restart_kubelet_def Let_def s1_def)
  ultimately show ?thesis by (rule kubelet_only_trans)
qed

lemma kubeconfig_phase_only:
  assumes n: "spawns_new new S" and r: "kubeconfig_phase S s = Some s'"
  shows "kubelet_only new s s'"
proof -
  have refl: "kubelet_only new s s" by (simp add: kubelet_only_def)
  from r obtain s1 where s1: "(if path_exists kubelet_kubeconfig (sv_fs s) \<and> sv_kubelet s = None
      then map_option set_kubelet (spawn_kubelet S s) else Some s) = Some s1"
    and r1: "(if path_exists restart_signal (sv_fs s1) then restart_kubelet S s1
             else if path_exists kubelet_kubeconfig (sv_fs s) \<and> path_exists permanent_kubeconfig (sv_fs s) \<and>
               sv_kubelet s1 \<noteq> None \<and> \<not> sv_switched s1
               then restart_kubelet S (s1\<lparr>sv_switched := True\<rparr>)
             else Some s1) = Some s'"
    by (auto simp: kubeconfig_phase_def Let_def split: option.splits)
  have "kubelet_only new s s1"
    using s1 refl spawn_kubelet_only [OF n, of s s1] by (simp split: if_splits)
  moreover have "kubelet_only new s1 s'"
    using r1 restart_kubelet_only [OF n, of s1 s'] restart_kubelet_only [OF n, of "s1\<lparr>sv_switched := True\<rparr>" s']
    by (auto simp: kubelet_only_def split: if_splits)
  ultimately show ?thesis by (rule kubelet_only_trans)
qed

section \<open>A service that is lost\<close>

text \<open>
  A handle is stuck when it is empty, or names a process that is gone and whose id the
  kernel gives to no new process. The phases leave a stuck handle as it is.
\<close>

definition stuck :: "(pid \<Rightarrow> bool) \<Rightarrow> pid option \<Rightarrow> 'k sup \<Rightarrow> bool" where
  "stuck new h s \<longleftrightarrow> (\<forall>p. h = Some p \<longrightarrow> p \<notin> pids s \<and> \<not> new p)"

lemma stuck_mono: "stuck new h s \<Longrightarrow> pids s' \<subseteq> pids s \<union> {p. new p} \<Longrightarrow> stuck new h s'"
  by (auto simp: stuck_def)

text \<open>The two supervised services have the same shape: the phase does nothing to a stuck handle.\<close>

lemma containerd_phase_stuck:
  assumes "stuck new (sv_containerd s) s" "containerd_phase S s = Some s'"
  shows "s' = s"
  using assms by (cases "sv_containerd s") (auto simp: containerd_phase_def stuck_def pids_def try_wait_gone)

lemma agent_phase_stuck:
  assumes "stuck new (sv_agent s) s" "agent_phase S s = Some s'"
  shows "s' = s"
  using assms by (cases "sv_agent s") (auto simp: agent_phase_def stuck_def pids_def try_wait_gone)

lemma try_wait_sub: "try_wait c (sv_procs s) = (w, ps) \<Longrightarrow> fst ` set ps \<subseteq> pids s"
  using try_wait_pids [of c "sv_procs s" w ps] by (simp add: pids_def)

lemma containerd_phase_pids:
  assumes n: "spawns_new new S" and r: "containerd_phase S s = Some s'"
  shows "pids s' \<subseteq> pids s \<union> {p. new p}"
proof (cases "sv_containerd s")
  case (Some c)
  obtain w ps where t: "try_wait c (sv_procs s) = (w, ps)" by force
  then show ?thesis
    using r Some try_wait_sub [OF t] spawn_service_pids [OF _ n, of "''/usr/bin/containerd''" "[]" "s\<lparr>sv_procs := ps\<rparr>"]
    by (fastforce simp: containerd_phase_def split: sum.splits option.splits prod.splits)
qed (use r in \<open>simp add: containerd_phase_def\<close>)

lemma agent_phase_pids:
  assumes n: "spawns_new new S" and r: "agent_phase S s = Some s'"
  shows "pids s' \<subseteq> pids s \<union> {p. new p}"
proof (cases "sv_agent s")
  case (Some c)
  obtain w ps where t: "try_wait c (sv_procs s) = (w, ps)" by force
  then show ?thesis
    using r Some try_wait_sub [OF t] spawn_service_pids [OF _ n, of "''/usr/bin/keel-agent''" "[]"
      "s\<lparr>sv_procs := ps, sv_delays := sv_delays s @ [restart_delay (sv_agent_restart_count s)]\<rparr>"]
    by (fastforce simp: agent_phase_def split: sum.splits option.splits prod.splits)
qed (use r in \<open>simp add: agent_phase_def\<close>)

lemma kubelet_phase_pids:
  assumes r: "kubelet_phase S s = Some s'"
  shows "pids s' \<subseteq> pids s"
proof (cases "sv_kubelet s")
  case (Some c)
  obtain w ps where t: "try_wait c (sv_procs s) = (w, ps)" by force
  have "sv_procs s' = ps"
    using r Some t by (auto simp: kubelet_phase_def split: sum.splits option.splits)
  then show ?thesis using try_wait_sub [OF t] by (simp add: pids_def)
qed (use r in \<open>simp add: kubelet_phase_def\<close>)

lemma run_phase_pids:
  assumes n: "spawns_new new S" and r: "run_phase S ph s = Some s'"
  shows "pids s' \<subseteq> pids s \<union> {p. new p}"
proof (cases ph)
  case Reap
  then show ?thesis using r by (auto simp: reap_phase_def reap_zombies_alive pids_def)
next
  case CheckKubeconfig
  then show ?thesis using r kubeconfig_phase_only [OF n, of s s'] by (simp add: kubelet_only_def)
qed (use r containerd_phase_pids [OF n] agent_phase_pids [OF n] kubelet_phase_pids in fastforce)+

lemma run_phase_handles:
  assumes n: "spawns_new new S" and r: "run_phase S ph s = Some s'"
  shows "ph \<noteq> CheckContainerd \<Longrightarrow> sv_containerd s' = sv_containerd s"
    and "ph \<noteq> CheckAgent \<Longrightarrow> sv_agent s' = sv_agent s"
  using r kubeconfig_phase_only [OF n, of s s']
  by (cases ph; force simp: reap_phase_def containerd_phase_def agent_phase_def kubelet_phase_def kubelet_only_def
    dest: spawn_service_frame split: option.splits sum.splits prod.splits)+

lemma run_phase_stuck:
  assumes n: "spawns_new new S" and r: "run_phase S ph s = Some s'"
  shows "stuck new (sv_containerd s) s \<Longrightarrow> sv_containerd s' = sv_containerd s \<and> stuck new (sv_containerd s') s'"
    and "stuck new (sv_agent s) s \<Longrightarrow> sv_agent s' = sv_agent s \<and> stuck new (sv_agent s') s'"
proof -
  note pids = run_phase_pids [OF n r]
  show "sv_containerd s' = sv_containerd s \<and> stuck new (sv_containerd s') s'" if st: "stuck new (sv_containerd s) s"
  proof (cases "ph = CheckContainerd")
    case True
    then have "s' = s" using containerd_phase_stuck [OF st] r by simp
    with st show ?thesis by simp
  qed (use run_phase_handles(1) [OF n r] stuck_mono [OF st pids] in simp)
  show "sv_agent s' = sv_agent s \<and> stuck new (sv_agent s') s'" if st: "stuck new (sv_agent s) s"
  proof (cases "ph = CheckAgent")
    case True
    then have "s' = s" using agent_phase_stuck [OF st] r by simp
    with st show ?thesis by simp
  qed (use run_phase_handles(2) [OF n r] stuck_mono [OF st pids] in simp)
qed

lemma sup_step_stuck:
  assumes "sup_step S new x y" "spawns_new new S"
  shows "stuck new (sv_containerd (snd x)) (snd x) \<Longrightarrow>
           sv_containerd (snd y) = sv_containerd (snd x) \<and> stuck new (sv_containerd (snd y)) (snd y)"
    and "stuck new (sv_agent (snd x)) (snd x) \<Longrightarrow>
           sv_agent (snd y) = sv_agent (snd x) \<and> stuck new (sv_agent (snd y)) (snd y)"
proof -
  show "sv_containerd (snd y) = sv_containerd (snd x) \<and> stuck new (sv_containerd (snd y)) (snd y)"
    if st: "stuck new (sv_containerd (snd x)) (snd x)"
    using assms(1)
  proof cases
    case (phase ph s s')
    then show ?thesis using run_phase_stuck(1) [OF assms(2) phase(3)] st by auto
  qed (use st in \<open>force simp: stuck_def pids_def\<close>)+
  show "sv_agent (snd y) = sv_agent (snd x) \<and> stuck new (sv_agent (snd y)) (snd y)"
    if st: "stuck new (sv_agent (snd x)) (snd x)"
    using assms(1)
  proof cases
    case (phase ph s s')
    then show ?thesis using run_phase_stuck(2) [OF assms(2) phase(3)] st by auto
  qed (use st in \<open>force simp: stuck_def pids_def\<close>)+
qed

lemma sup_steps_stuck:
  assumes "(sup_step S new)\<^sup>*\<^sup>* x y" "spawns_new new S"
  shows "stuck new (sv_containerd (snd x)) (snd x) \<Longrightarrow>
           sv_containerd (snd y) = sv_containerd (snd x) \<and> stuck new (sv_containerd (snd y)) (snd y)"
    and "stuck new (sv_agent (snd x)) (snd x) \<Longrightarrow>
           sv_agent (snd y) = sv_agent (snd x) \<and> stuck new (sv_agent (snd y)) (snd y)"
  using assms(1)
  by (induction rule: rtranclp_induct) (use sup_step_stuck [OF _ assms(2)] in fastforce)+

section \<open>Supervision\<close>

text \<open>A small system for the witnesses: one service binary, the next process id is 100.\<close>

definition demo_sys :: "unit sys" where
  "demo_sys =
     \<lparr>sys_kernel = kernel_refusing,
      sys_spawn = (\<lambda>path args ps m. if 100 \<in> fst ` set ps then (None, m) else (Some 100, m)),
      sys_hostname = (\<lambda>m. Some ''node-01''), sys_random = (\<lambda>m. None), sys_dir = (\<lambda>d m. None),
      sys_json = demo_record_json\<rparr>"

definition demo_sup :: "unit sup" where
  "demo_sup =
     \<lparr>sv_machine = \<lparr>mc_fs = blank_fs\<lparr>fs_files := [''/usr/bin/containerd'' \<mapsto> [], ''/usr/bin/keel-agent'' \<mapsto> []]\<rparr>, mc_kern = ()\<rparr>,
      sv_procs = [(7, Zombie), (8, Alive), (9, Zombie)], sv_containerd = Some 7, sv_agent = Some 8, sv_kubelet = None,
      sv_agent_restart_count = 0, sv_switched = False, sv_delays = []\<rparr>"

lemma demo_sys_new: "spawns_new (\<lambda>p. p = 100) demo_sys"
  by (auto simp: spawns_new_def demo_sys_def split: if_splits)

text \<open>
  Reaping ends, and leaves exactly the children that are alive, in their order: no
  zombie remains, and no living child is lost.
\<close>

lemma reap_leaves_the_living:
  "reap_phase S s = Some (s\<lparr>sv_procs := filter (\<lambda>c. snd c = Alive) (sv_procs s)\<rparr>)"
  by (simp add: reap_phase_def reap_zombies_alive)

text \<open>
  C32. A supervised service that died before the reaping at the start of a pass is not
  restarted, in this pass or ever: whatever happens afterwards, the handle of containerd
  or of the agent stays the one of the dead process, which is no longer a child of init.
  The reaping takes the exit status that the restart waits for.
\<close>

theorem dead_service_not_restarted:
  assumes "spawns_new new S"
    and "sv_containerd s = Some p \<or> sv_agent s = Some p"
    and "\<forall>c\<in>set (sv_procs s). fst c = p \<longrightarrow> snd c = Zombie"
    and "\<not> new p"
    and "reap_phase S s = Some s1"
    and "(sup_step S new)\<^sup>*\<^sup>* (CheckContainerd, s1) (ph, t)"
  shows "p \<notin> pids t \<and> (sv_containerd s = Some p \<longrightarrow> sv_containerd t = Some p) \<and>
         (sv_agent s = Some p \<longrightarrow> sv_agent t = Some p)"
proof -
  have s1: "s1 = s\<lparr>sv_procs := filter (\<lambda>c. snd c = Alive) (sv_procs s)\<rparr>"
    using assms(5) by (simp add: reap_phase_def reap_zombies_alive)
  then have "p \<notin> pids s1"
    using assms(3) by (auto simp: pids_def)
  then have "sv_containerd s = Some p \<Longrightarrow> stuck new (sv_containerd s1) s1"
    "sv_agent s = Some p \<Longrightarrow> stuck new (sv_agent s1) s1"
    using assms(4) s1 by (simp_all add: stuck_def)
  then have "sv_containerd s = Some p \<Longrightarrow> sv_containerd t = Some p \<and> stuck new (sv_containerd t) t"
    "sv_agent s = Some p \<Longrightarrow> sv_agent t = Some p \<and> stuck new (sv_agent t) t"
    using sup_steps_stuck [OF assms(6,1)] s1 by auto
  then show ?thesis
    using assms(2) by (auto simp: stuck_def)
qed

theorem dead_service_not_restarted_witness:
  "\<exists>s1. reap_phase demo_sys demo_sup = Some s1 \<and> 7 \<notin> pids s1 \<and> sv_containerd s1 = Some 7"
proof -
  obtain s1 where s1: "reap_phase demo_sys demo_sup = Some s1"
    by (simp add: reap_phase_def)
  then show ?thesis
    using dead_service_not_restarted [OF demo_sys_new _ _ _ s1 rtranclp.rtrancl_refl, of 7]
    by (simp add: demo_sup_def)
qed

lemma unat_power2_u64: "n < 64 \<Longrightarrow> unat (2 ^ n :: u64) = 2 ^ n"
proof -
  assume "n < 64"
  then have "(2::nat) ^ n < 2 ^ 64" by (rule power_strict_increasing) simp
  then have "unat (of_nat (2 ^ n) :: u64) = 2 ^ n" by (simp only: unat_of_nat len_num1 len_bit0 len_bit1 len_num0) simp
  then show ?thesis by simp
qed

lemma unat_restart_delay: "unat (restart_delay c) = min (2 ^ (unat c mod 64)) 60"
proof -
  have "unat (2 ^ (unat c mod 64) :: u64) = 2 ^ (unat c mod 64)"
    by (rule unat_power2_u64) simp
  then show ?thesis
    by (simp add: restart_delay_def min_def word_le_nat_alt)
qed

lemma unat_saturating_inc: "unat (saturating_inc c) = min (unat c + 1) (2 ^ 32 - 1)"
proof (cases "c = - 1")
  case False
  moreover have "unat (- 1 :: u32) = 2 ^ 32 - 1" by (simp add: unsigned_minus_1_eq_mask mask_eq_exp_minus_1)
  ultimately have "unat c \<noteq> 2 ^ 32 - 1" by (metis word_unat_eq_iff)
  then have "unat c + 1 < 2 ^ 32"
    using unsigned_less [where 'a = nat and w = c] by simp
  with False show ?thesis by (simp add: saturating_inc_def unat_word_ariths)
qed (simp add: saturating_inc_def unsigned_minus_1_eq_mask mask_eq_exp_minus_1)

text \<open>
  C33. When init does notice that the agent has ended, it waits \<open>2^n\<close> seconds, at most 60,
  before it starts it again, \<open>n\<close> being the number of restarts so far; but the shift takes
  its count modulo 64, so that after 64 restarts the wait is one second again. The new
  process, if one could be started, is the only change to the handles, and only a restart
  that succeeded is counted, up to the largest 32-bit value.
\<close>

theorem agent_restart_backoff:
  assumes "sv_agent s = Some p" and "(p, Zombie) \<in> set (sv_procs s)"
  shows "\<exists>a t. agent_phase S s = Some t \<and> sv_agent t = a \<and>
           (\<exists>d. sv_delays t = sv_delays s @ [d] \<and> unat d = min (2 ^ (unat (sv_agent_restart_count s) mod 64)) 60) \<and>
           unat (sv_agent_restart_count t) =
             (if a = None then unat (sv_agent_restart_count s)
              else min (unat (sv_agent_restart_count s) + 1) (2 ^ 32 - 1)) \<and>
           sv_containerd t = sv_containerd s \<and> sv_kubelet t = sv_kubelet s"
proof -
  let ?u = "s\<lparr>sv_procs := without p (sv_procs s),
              sv_delays := sv_delays s @ [restart_delay (sv_agent_restart_count s)]\<rparr>"
  obtain a u where u: "spawn_service S ''/usr/bin/keel-agent'' [] ?u = (a, u)" by force
  have t: "agent_phase S s = Some (u\<lparr>sv_agent := a, sv_agent_restart_count :=
      (if a \<noteq> None then saturating_inc (sv_agent_restart_count s) else sv_agent_restart_count s)\<rparr>)"
    using assms u by (simp add: agent_phase_def try_wait_def)
  show ?thesis
    using t spawn_service_frame [OF u] unat_restart_delay unat_saturating_inc by (intro exI [of _ a] exI [of _ "u\<lparr>sv_agent := a, sv_agent_restart_count :=
      (if a \<noteq> None then saturating_inc (sv_agent_restart_count s) else sv_agent_restart_count s)\<rparr>"]) simp
qed

theorem agent_restart_backoff_witness:
  "\<exists>t. agent_phase demo_sys (demo_sup\<lparr>sv_agent := Some 9\<rparr>) = Some t \<and> (\<exists>d. sv_delays t = [d] \<and> unat d = 1)"
  using agent_restart_backoff [of "demo_sup\<lparr>sv_agent := Some 9\<rparr>" 9 demo_sys] by (auto simp: demo_sup_def)

section \<open>Joining a cluster\<close>

text \<open>A bootstrapped node that has no permanent kubeconfig yet, and the arguments of its kubelet.\<close>

definition joining :: "bootstrap_config json \<Rightarrow> string \<Rightarrow> fsys \<Rightarrow> bool" where
  "joining js node fs \<longleftrightarrow>
     (\<exists>c. load_bootstrap js bootstrap_state fs = Ok c \<and> bc_node_name c = node) \<and>
     path_exists kubelet_kubeconfig fs \<and> \<not> path_exists permanent_kubeconfig fs"

definition joining_args :: "string \<Rightarrow> string list" where
  "joining_args node =
     [''--config=/etc/kubernetes/kubelet-config.yaml'', ''--cert-dir=/var/lib/kubelet/pki'', ''--v=2'',
      ''--hostname-override='' @ node,
      ''--bootstrap-kubeconfig=/var/lib/keel/kubernetes/kubelet.kubeconfig'',
      ''--kubeconfig=/var/lib/kubelet/kubeconfig'']"

definition valid_node_name :: "string \<Rightarrow> bool" where
  "valid_node_name n \<longleftrightarrow> n \<noteq> [] \<and> n \<noteq> ''(none)'' \<and> n \<noteq> ''localhost''"

definition spawn_keeps_files :: "'k sys \<Rightarrow> bool" where
  "spawn_keeps_files S \<longleftrightarrow> (\<forall>path args ps m. mc_fs (snd (sys_spawn S path args ps m)) = mc_fs m)"

lemma permanent_not_prefix:
  "permanent_kubeconfig \<notin> set (path_prefixes ''/var/lib/kubelet/pki'')"
  "permanent_kubeconfig \<notin> set (path_prefixes ''/var/lib/kubelet'')"
  by (auto simp: path_prefixes_def permanent_kubeconfig_def dest!: arg_cong [of _ _ length])

lemma joining_mkdir:
  "permanent_kubeconfig \<notin> set (path_prefixes p) \<Longrightarrow> joining js node fs \<Longrightarrow> joining js node (snd (create_dir_all p fs))"
  by (auto simp: joining_def load_bootstrap_def read_to_string_def path_exists_def create_dir_all_def split: option.splits)

lemma joining_unsignal:
  assumes "joining js node fs"
  shows "joining js node (remove_file restart_signal fs)"
proof -
  have "restart_signal \<noteq> bootstrap_state" "restart_signal \<noteq> kubelet_kubeconfig" "restart_signal \<noteq> permanent_kubeconfig"
    by (simp_all add: restart_signal_def bootstrap_state_def kubelet_kubeconfig_def permanent_kubeconfig_def)
  then have "read_to_string bootstrap_state (remove_file restart_signal fs) = read_to_string bootstrap_state fs"
    "path_exists kubelet_kubeconfig (remove_file restart_signal fs) = path_exists kubelet_kubeconfig fs"
    "path_exists permanent_kubeconfig (remove_file restart_signal fs) = path_exists permanent_kubeconfig fs"
    by (auto simp: read_to_string_def remove_file_def path_exists_def split: option.splits)
  then show ?thesis
    using assms by (simp add: joining_def load_bootstrap_def)
qed

lemma spawn_service_files:
  assumes "spawn_keeps_files S"
  shows "sv_fs (snd (spawn_service S path args s)) = sv_fs s"
proof -
  have "mc_fs (snd (sys_spawn S path args (sv_procs s) (sv_machine s))) = sv_fs s"
    using assms by (simp add: spawn_keeps_files_def)
  then show ?thesis
    by (auto simp: spawn_service_def split: prod.splits option.splits)
qed

lemma spawn_kubelet_joining:
  assumes "joining (sys_json S) node (sv_fs s)" "valid_node_name node"
  shows "\<exists>path\<in>{''/var/lib/keel/bin/kubelet'', ''/usr/bin/kubelet''}. \<exists>m.
           spawn_kubelet S s = Some (spawn_service S path (joining_args node) (s\<lparr>sv_machine := m\<rparr>)) \<and>
           joining (sys_json S) node (mc_fs m) \<and> fs_files (mc_fs m) = fs_files (sv_fs s)"
proof -
  let ?m = "do_mkdir ''/var/lib/kubelet'' (do_mkdir ''/var/lib/kubelet/pki'' (sv_machine s))"
  have j: "joining (sys_json S) node (mc_fs ?m)"
    using assms(1) by (simp add: do_mkdir_def joining_mkdir permanent_not_prefix)
  then have "kubelet_hostname S ?m = Some node" "kubelet_args node (mc_fs ?m) = joining_args node"
    using assms(2) by (auto simp: kubelet_hostname_def joining_def valid_node_name_def kubelet_args_def kubeconfig_args_def joining_args_def)
  then have "spawn_kubelet S s = Some (spawn_service S (kubelet_path (sv_fs s)) (joining_args node) (s\<lparr>sv_machine := ?m\<rparr>))"
    by (simp add: spawn_kubelet_def Let_def)
  moreover have "kubelet_path (sv_fs s) \<in> {''/var/lib/keel/bin/kubelet'', ''/usr/bin/kubelet''}"
    by (simp add: kubelet_path_def)
  moreover have "fs_files (mc_fs ?m) = fs_files (sv_fs s)"
    by (simp add: do_mkdir_def)
  ultimately show ?thesis using j by blast
qed

lemma restart_kubelet_joining:
  assumes "joining (sys_json S) node (sv_fs s)" "valid_node_name node"
  shows "\<exists>path\<in>{''/var/lib/keel/bin/kubelet'', ''/usr/bin/kubelet''}. \<exists>u.
           restart_kubelet S s = Some (set_kubelet (spawn_service S path (joining_args node) u)) \<and>
           fs_files (sv_fs u) restart_signal = None \<and> (\<forall>p. sv_kubelet s = Some p \<longrightarrow> p \<notin> pids u)"
proof -
  define s1 where "s1 = (case sv_kubelet s of None \<Rightarrow> s | Some child \<Rightarrow> s\<lparr>sv_procs := kill_and_wait child (sv_procs s)\<rparr>)"
  let ?s2 = "s1\<lparr>sv_machine := (sv_machine s1)\<lparr>mc_fs := remove_file restart_signal (sv_fs s1)\<rparr>\<rparr>"
  have "sv_machine s1 = sv_machine s" by (simp add: s1_def split: option.splits)
  then have "joining (sys_json S) node (sv_fs ?s2)"
    using assms(1) by (simp add: joining_unsignal)
  then obtain path m where p: "path \<in> {''/var/lib/keel/bin/kubelet'', ''/usr/bin/kubelet''}"
    and sp: "spawn_kubelet S ?s2 = Some (spawn_service S path (joining_args node) (?s2\<lparr>sv_machine := m\<rparr>))"
    and f: "fs_files (mc_fs m) = fs_files (sv_fs ?s2)"
    using spawn_kubelet_joining [OF _ assms(2)] by blast
  have "fs_files (mc_fs m) restart_signal = None"
    using f by (simp add: remove_file_def)
  moreover have "sv_kubelet s = Some p \<Longrightarrow> p \<notin> pids (?s2\<lparr>sv_machine := m\<rparr>)" for p
    by (auto simp: s1_def kill_and_wait_def without_def pids_def)
  moreover have "restart_kubelet S s = Some (set_kubelet (spawn_service S path (joining_args node) (?s2\<lparr>sv_machine := m\<rparr>)))"
    using sp by (simp add: restart_kubelet_def Let_def s1_def)
  ultimately show ?thesis using p
    by (intro bexI [of _ path] exI [of _ "?s2\<lparr>sv_machine := m\<rparr>"]) simp_all
qed

lemma kubeconfig_phase_joining:
  assumes j: "joining (sys_json S) node (sv_fs s)" and n: "valid_node_name node" and k: "spawn_keeps_files S"
    and sig: "fs_files (sv_fs s) restart_signal \<noteq> None"
  shows "\<exists>path\<in>{''/var/lib/keel/bin/kubelet'', ''/usr/bin/kubelet''}. \<exists>u.
           kubeconfig_phase S s = Some (set_kubelet (spawn_service S path (joining_args node) u)) \<and>
           fs_files (sv_fs u) restart_signal = None \<and> (\<forall>p. sv_kubelet s = Some p \<longrightarrow> p \<notin> pids u)"
proof -
  obtain s1 where s1: "(if path_exists kubelet_kubeconfig (sv_fs s) \<and> sv_kubelet s = None
      then map_option set_kubelet (spawn_kubelet S s) else Some s) = Some s1"
    and j1: "joining (sys_json S) node (sv_fs s1)" and f1: "fs_files (sv_fs s1) = fs_files (sv_fs s)"
    and k1: "sv_kubelet s = Some p \<Longrightarrow> sv_kubelet s1 = Some p" for p
  proof (cases "sv_kubelet s")
    case None
    obtain path m where "spawn_kubelet S s = Some (spawn_service S path (joining_args node) (s\<lparr>sv_machine := m\<rparr>))"
      "joining (sys_json S) node (mc_fs m)" "fs_files (mc_fs m) = fs_files (sv_fs s)"
      using spawn_kubelet_joining [OF j n] by blast
    then show ?thesis
      using j None spawn_service_files [OF k] that by (simp add: joining_def set_kubelet_def)
  qed (use j that in simp)
  have "kubeconfig_phase S s = restart_kubelet S s1"
    using s1 f1 sig unfolding kubeconfig_phase_def Let_def by (simp add: path_exists_def)
  then show ?thesis
    using restart_kubelet_joining [OF j1 n] k1 by auto
qed

end
