(* ===== verification/Spec2Isabelle.thy ===== *)
theory Spec2Isabelle
  imports Auto_Rollback Schedule_Lifecycle Osctl Supervisor
begin

text \<open>
  Verification of KeelOS, an immutable operating system for Kubernetes nodes.

  \<^bold>\<open>The program.\<close> A node runs two programs of its own. \<open>keel-init\<close> (\<open>src/cmd/keel-init\<close>) is process 1: it
  mounts file systems, finds and formats storage, names the host, configures the network,
  and then supervises \<open>keel-agent\<close>, containerd and kubelet. \<open>keel-agent\<close> (\<open>src/cmd/keel-agent\<close>) serves
  a gRPC API: updates of the inactive one of two system partitions, their schedule,
  health checks and rollback, the bootstrap into a cluster, certificates, network
  configuration and diagnostics. The two meet in the file system: the agent writes the
  network configuration, the kubeconfig and a restart signal that init reads. \<open>osctl\<close>
  (\<open>src/cmd/osctl\<close>) is the client of the API on an operator's machine. \<open>src/pkg\<close> holds what they
  share: the formats of the configuration files, certificates and the API messages.

  \<^bold>\<open>Theories and sources.\<close>
  \<^item> \<open>Keel_Prelude\<close>: results (\<open>Ok\<close> and \<open>Err\<close> of a sum), machine integers, the string and path functions of
    the standard library, commands run, JSON as a pair of functions, a file system with
    faults, and the lemmas all components share.
  \<^item> \<open>Rbac\<close> (\<open>rbac.rs\<close>): roles from certificates, and the check at the head of every handler.
  \<^item> \<open>Scheduler\<close> (\<open>update_scheduler.rs\<close>), \<open>Disk\<close> (\<open>disk.rs\<close>), \<open>Health_Check\<close> (\<open>health_check.rs\<close>): the table of
    schedules and its persistence; partitions, flashing, boot flags and the rollback
    record; the checks with their retry loop.
  \<^item> \<open>Executor\<close> (\<open>hooks.rs\<close>, the background tasks of the agent's \<open>main.rs\<close>): the execution of a
    schedule, the tick of the executor, also as a step relation interleaved with requests,
    and the rollback supervisor.
  \<^item> \<open>Diagnostics\<close> (\<open>diagnostics.rs\<close>): sessions, crash dumps, snapshots and their analysis.
  \<^item> \<open>Network_Config\<close> (\<open>pkg/config/src/network.rs\<close>) and \<open>Network_Rpc\<close> (\<open>network.rs\<close>): the stored
    configuration with its validation, and the requests that set and report it.
  \<^item> \<open>Bootstrap\<close> (\<open>pkg/config/src/bootstrap.rs\<close>, two handlers of \<open>lib.rs\<close>): joining a cluster.
  \<^item> \<open>Certs\<close> (\<open>pkg/crypto\<close>, \<open>k8s_csr.rs\<close>, \<open>cert_renewal.rs\<close>, \<open>cert_metrics.rs\<close>, \<open>mtls.rs\<close>): expiry, signing requests,
    renewal and the TLS configuration of the server.
  \<^item> \<open>Node_Service\<close> (\<open>lib.rs\<close>): the record of the state the handlers share, one definition per
    handler, and the dispatch of a request.
  \<^item> \<open>Audit_Log\<close> (\<open>audit.rs\<close>): the log and the layer that writes it.
  \<^item> \<open>Startup\<close> (\<open>main\<close> of the agent, \<open>pkg/config/src/lib.rs\<close>, \<open>health.rs\<close>, both \<open>telemetry.rs\<close>): from the start of
    the agent to serving and the end of \<open>main\<close>, the HTTP pages, the boot phases.
  \<^item> \<open>Service_Invariant\<close>: the invariant of the service over all requests.
  \<^item> \<open>Scheduler_Lock\<close> (\<open>update_scheduler.rs\<close>): the calls of the scheduler split at its lock, with
    overlapping writes of the file; a call nobody interrupts is the call of \<open>Scheduler\<close>.
  \<^item> \<open>Update_Steps\<close> (\<open>disk.rs\<close>, \<open>install_update\<close> of \<open>lib.rs\<close>, \<open>execute_scheduled_update\<close> of \<open>main.rs\<close>): updates in
    steps, a chunk of the download at a time, each machine shown to end where the whole
    operation ends, and what an undisturbed update request comes to.
  \<^item> \<open>Root_Partition\<close> and \<open>Agent_System\<close> (\<open>main\<close> of the agent): what leaves the running partition alone; all tasks
    of the agent as one step relation \<open>astep\<close> over the shared state.
  \<^item> \<open>Update_Race\<close>: updates that do and do not overlap.
  \<^item> \<open>Agent_Restart\<close>: the agent over several lives, each started by init from what is on disk, with the
    executor at work while the rest of the agent starts.
  \<^item> \<open>Schedule_Lifecycle\<close>: the life cycle of a schedule as an abstract machine, refined by the agent.
  \<^item> \<open>Auto_Rollback\<close>: an update, the reboot after it and the rollback, from end to end.
  \<^item> \<open>Osctl\<close> (\<open>osctl/src/main.rs\<close>, \<open>cert_store.rs\<close>): every command of the client, with what it prints
    and its exit status, over a record of API calls; \<open>service_api\<close> is the agent's service as
    that record.
  \<^item> \<open>Init_Setup\<close> and \<open>Supervisor\<close> (\<open>keel-init/src/main.rs\<close>): the boot sequence, and the supervision loop
    phase by phase, as a step relation interleaved with the deaths of processes.

  A struct is a record, an enum a datatype; a method is a function from the state to a
  result and the new state; every early return, \<open>?\<close> and panic is a branch. \<open>u32\<close> and \<open>u64\<close> are
  words. What the code calls outside the repository is an argument: an HTTP server, the
  kernel, \<open>sgdisk\<close>, \<open>bspatch\<close>, SHA-256, X.509, serde, the Kubernetes API, the clock. What is relied
  on of it is a named hypothesis (\<open>json_ok\<close>, \<open>one_line\<close>, \<open>hook_benign\<close>, \<open>csr_laws\<close>, \<open>spawns_new\<close>, \<open>sgdisk_doc\<close>, \<open>sgdisk_runs\<close>,
  \<open>tls_by_scheme\<close>, \<open>no_organization\<close>, \<open>rebooted\<close>), and each theorem with
  hypotheses has a witness at concrete values. A hash map is a partial map; where the code
  iterates over one the order is an argument.

  \<^bold>\<open>Interfaces.\<close> Locales state what one part relies on: \<open>access_policy\<close> (roles), \<open>table_op\<close> (operations on the
  table of schedules), \<open>slot_writer\<close> and \<open>verified_writer\<close> (flashing), \<open>session_slot\<close> (sessions), \<open>validator\<close>
  (configurations), \<open>operator_handler\<close> and \<open>reading_handler\<close> (what a request may touch), \<open>slot_machine\<close> (an update in steps). Each is interpreted
  on the definitions of the component that provides it.

  \<^bold>\<open>What the lemmas show.\<close> Who may do what (C1, C2). That the running partition is never written, over
  restarts too, that only an image that passed the digest check is booted as long as updates
  do not overlap (the check accepts any image where no digest was given), in which order an
  update proceeds, what it installs and that a failed one is undone (C3 to C12). That the state of
  the agent stays well-formed under all its tasks, that the table of schedules is durable and
  that the executor settles what is due and keeps to the life cycle of a schedule, under
  interleaving too (C13 to C22). Health and
  termination (C23, C24); trust, certificates and the start of the agent (C25 to C28); the audit log
  (C29); the bootstrap and its effect on kubelet (C30, C31); supervision (C32, C33); sessions, network
  and the client (C34 to C39); storage at boot (C40). Several state what the code does where it
  differs from its comments or intent: two updates at once can boot a mixture of images
  (C6), an update by request is not recorded for a rollback (C12), a crash can lose all schedules
  (C16), an interrupted schedule stays running for good (C17), a cancelled schedule may still run
  (C21), anyone's certificate becomes a trust anchor (C25), a second certificate is refused (C28), a
  dead service is not restarted (C32), setting DNS forgets the interfaces (C37), the identity made
  by \<open>osctl init\<close> is refused (C38).

  \<^bold>\<open>Loops and bounds.\<close> Loops over data are structural. \<open>retry_loop\<close>, \<open>reap_zombies\<close> and
  \<open>trim_start_matches\<close> have termination proofs. The wait for a certificate polls 30 times, as the code does. The
  endless loops (executor, supervisor, supervision, renewal) are modelled by the body of
  one iteration, and statements over all time by the reflexive transitive closure of a step
  relation or a fold over any list of requests; no fuel is used. The step counts of
  \<open>Update_Steps\<close> are existential: enough steps are shown to exist.

  \<^bold>\<open>Granularity.\<close> In \<open>astep\<close> a handler, a change of the table with its write, a run of the supervisor, of
  the renewal and of a hook are one step each, and so is the application of a delta; the
  updates that download an image go chunk by chunk. The second half of the start of the agent is
  one step, between steps of the executor. The write of the schedule file is taken
  apart in \<open>Scheduler_Lock\<close> only.

  \<^bold>\<open>Not modelled.\<close> The gRPC and HTTP servers, the generated messages and their encoding, clap,
  OpenTelemetry and sysinfo are libraries; logging has no effect on the state. Firmware and
  kernel are the relation \<open>rebooted\<close>. A process that ends does so between two steps; a panic, which
  ends the agent in a release build, is one of those ends. The running partition is the one
  the code detects, with slot A where it detects none. The modes and
  owners of files on the node are not part of the file system; the mode of the client's key
  is. Build scripts, images and tests are left out.
\<close>

section \<open>From a bootstrap request to the kubelet\<close>

definition demo_node_sup :: "unit sup" where
  "demo_node_sup = demo_sup\<lparr>sv_machine := \<lparr>mc_fs = blank_fs, mc_kern = ()\<rparr>\<rparr>"

text \<open>
  C31. The agent and init together: when a bootstrap request succeeds on a node that never
  joined a cluster, init restarts the kubelet in its next check of the configuration, with the
  bootstrap kubeconfig and under the node name of the request. The old kubelet process is
  gone by then, and the restart signal is consumed.
\<close>

theorem bootstrap_restarts_kubelet:
  assumes run: "bootstrap_kubernetes b64 (sys_json S) now host req (sv_fs s) = (Ok r, fs')"
    and node: "node_name_of host req = Ok node" "valid_node_name node"
    and js: "json_ok (sys_json S) (new_bootstrap_config now (br_api_server_endpoint req) node kubelet_kubeconfig ca_path)"
    and rd: "fs_read_err (sv_fs s) bootstrap_state = None"
    and perm: "\<not> path_exists permanent_kubeconfig fs'"
    and files: "spawn_keeps_files S"
  shows "\<exists>path\<in>{''/var/lib/keel/bin/kubelet'', ''/usr/bin/kubelet''}. \<exists>u.
           kubeconfig_phase S (s\<lparr>sv_machine := (sv_machine s)\<lparr>mc_fs := fs'\<rparr>\<rparr>) =
             Some (set_kubelet (spawn_service S path
               [''--config=/etc/kubernetes/kubelet-config.yaml'', ''--cert-dir=/var/lib/kubelet/pki'', ''--v=2'',
                ''--hostname-override='' @ node,
                ''--bootstrap-kubeconfig=/var/lib/keel/kubernetes/kubelet.kubeconfig'',
                ''--kubeconfig=/var/lib/kubelet/kubeconfig''] u)) \<and>
           fs_files (sv_fs u) restart_signal = None \<and> (\<forall>p. sv_kubelet s = Some p \<longrightarrow> p \<notin> pids u)"
proof -
  let ?s = "s\<lparr>sv_machine := (sv_machine s)\<lparr>mc_fs := fs'\<rparr>\<rparr>"
  from run obtain kc d where d: "to_json (sys_json S) (new_bootstrap_config now (br_api_server_endpoint req) node kubelet_kubeconfig ca_path) = Ok d"
    and f: "fs_files fs' = (if br_ca_cert_pem req = [] then fs_files (sv_fs s) else (fs_files (sv_fs s))(ca_path \<mapsto> br_ca_cert_pem req))
       (kubelet_kubeconfig \<mapsto> kc, bootstrap_state \<mapsto> d, restart_signal \<mapsto> ''1'')"
    and r: "fs_read_err fs' = fs_read_err (sv_fs s)"
    by (rule bootstrap_kubernetes_Ok) (use node(1) in simp)
  have at: "fs_files fs' bootstrap_state = Some d" "fs_files fs' kubelet_kubeconfig = Some kc" "fs_files fs' restart_signal = Some ''1''"
    using f bootstrap_paths_distinct by simp_all
  then have "load_bootstrap (sys_json S) bootstrap_state fs' =
      Ok (new_bootstrap_config now (br_api_server_endpoint req) node kubelet_kubeconfig ca_path)"
    using js d r rd by (simp add: load_bootstrap_saved)
  then have "joining (sys_json S) node (sv_fs ?s)"
    using at perm by (simp add: joining_def path_exists_def new_bootstrap_config_def)
  then show ?thesis
    using kubeconfig_phase_joining [of S node ?s, OF _ node(2) files] at(3) by (simp add: joining_args_def)
qed

theorem bootstrap_restarts_kubelet_witness:
  "\<exists>r fs'. bootstrap_kubernetes id (sys_json demo_sys) ''2025-01-01T00:00:00+00:00'' (Err []) demo_bootstrap blank_fs = (Ok r, fs') \<and>
     (\<exists>path u. kubeconfig_phase demo_sys (demo_node_sup\<lparr>sv_machine := (sv_machine demo_node_sup)\<lparr>mc_fs := fs'\<rparr>\<rparr>) =
       Some (set_kubelet (spawn_service demo_sys path
               [''--config=/etc/kubernetes/kubelet-config.yaml'', ''--cert-dir=/var/lib/kubelet/pki'', ''--v=2'',
                ''--hostname-override=node-01'',
                ''--bootstrap-kubeconfig=/var/lib/keel/kubernetes/kubelet.kubeconfig'',
                ''--kubeconfig=/var/lib/kubelet/kubeconfig''] u)))"
proof -
  let ?now = "''2025-01-01T00:00:00+00:00''"
  obtain r fs' where run: "bootstrap_kubernetes id (sys_json demo_sys) ?now (Err []) demo_bootstrap (sv_fs demo_node_sup) = (Ok r, fs')"
    and p: "\<not> path_exists permanent_kubeconfig fs'"
  proof -
    have "\<exists>r fs'. bootstrap_kubernetes id (sys_json demo_sys) ?now (Err []) demo_bootstrap (sv_fs demo_node_sup) = (Ok r, fs') \<and>
      \<not> path_exists permanent_kubeconfig fs'"
      by (simp add: demo_sys_def demo_node_sup_def demo_sup_def bootstrap_kubernetes_def check_bootstrap_request_def node_name_of_def
        kubeconfig_of_def demo_bootstrap_def generate_kubeconfig_def starts_with_def prepare_k8s_directories_def create_dir_all_def
        write_or_def fs_write_def save_bootstrap_def blank_fs_def demo_record_json_def path_exists_def permanent_kubeconfig_def
        ca_path_def kubelet_kubeconfig_def bootstrap_state_def restart_signal_def path_prefixes_def upt_rec)
    then show ?thesis using that by blast
  qed
  have j: "json_ok (sys_json demo_sys) (new_bootstrap_config ?now (br_api_server_endpoint demo_bootstrap) ''node-01'' kubelet_kubeconfig ca_path)"
    by (simp add: json_ok_def demo_sys_def demo_record_json_def demo_record_def demo_bootstrap_def)
  have k: "spawn_keeps_files demo_sys"
    by (auto simp: spawn_keeps_files_def demo_sys_def)
  have n: "node_name_of (Err []) demo_bootstrap = Ok ''node-01''" "valid_node_name ''node-01''"
    by (simp_all add: node_name_of_def demo_bootstrap_def valid_node_name_def)
  have rd: "fs_read_err (sv_fs demo_node_sup) bootstrap_state = None"
    by (simp add: demo_node_sup_def blank_fs_def)
  have b: "sv_fs demo_node_sup = blank_fs"
    by (simp add: demo_node_sup_def)
  show ?thesis
    using run bootstrap_restarts_kubelet [OF run n j rd p k] unfolding b by auto
qed

end
